(* ===== verification/Prelude.thy ===== *)
theory Prelude
  imports Main "HOL-Library.Word" "HOL-Library.AList"
    "HOL-Library.Signed_Division"
begin

unbundle bit_operations_syntax

text \<open>
  What every component shares: the machine types of Go, byte strings and their
  little-endian numbers, Go maps (association lists, whose order is the order a
  \<open>range\<close> loop happens to visit), maps of maps, and the outcome of a call that may
  return, panic or block.
\<close>

section \<open>Types\<close>

type_synonym u8 = "8 word"
type_synonym u32 = "32 word"
type_synonym u64 = "64 word"
type_synonym i32 = "32 word"
type_synonym i64 = "64 word"
type_synonym bytes = "8 word list"

text \<open>
  A Go map. The keys of a list that models a map are distinct (\<open>distinct (map fst m)\<close>);
  every theorem that depends on the order of a \<open>range\<close> loop is stated for every list.
\<close>

type_synonym ('k, 'v) gomap = "('k \<times> 'v) list"

text \<open>
  The outcome of a Go call: it returns, it panics (a nil dereference, a slice bound, a
  division by zero), or it waits for ever (a receive on a channel nobody sends to).
\<close>

datatype 'a outcome = Returns 'a | Panics | Blocks

fun bind_outcome :: "'a outcome \<Rightarrow> ('a \<Rightarrow> 'b outcome) \<Rightarrow> 'b outcome" where
  "bind_outcome (Returns x) f = f x"
| "bind_outcome Panics f = Panics"
| "bind_outcome Blocks f = Blocks"

lemma bind_outcome_ReturnsE:
  assumes "bind_outcome m f = Returns y"
  obtains x where "m = Returns x" "f x = Returns y"
  using assms by (cases m) auto

lemma bind_outcome_PanicsI: "m = Panics \<Longrightarrow> bind_outcome m f = Panics"
  by simp

section \<open>Integers and numerals\<close>

text \<open>
  Go's \<open>int\<close> and \<open>int64\<close> are \<^typ>\<open>int\<close> with every operation that can leave the 64-bit
  range wrapped; division is \<open>sdiv\<close>, which truncates towards zero. Unsigned integers are
  words.
\<close>

definition wrap64 :: "int \<Rightarrow> int" where
  "wrap64 x = signed_take_bit 63 x"

lemma wrap64_id [simp]: "- (2 ^ 63) \<le> x \<Longrightarrow> x < 2 ^ 63 \<Longrightarrow> wrap64 x = x"
  by (simp add: wrap64_def signed_take_bit_int_eq_self)

lemma wrap64_range: "- (2 ^ 63) \<le> wrap64 x \<and> wrap64 x < 2 ^ 63"
  unfolding wrap64_def
  using signed_take_bit_int_greater_eq_minus_exp [of 63 x] signed_take_bit_int_less_exp [of 63 x]
  by simp

text \<open>The verbs \<open>%d\<close> and \<open>%x\<close> of \<open>fmt.Sprintf\<close>.\<close>

definition digit_char :: "nat \<Rightarrow> char" where
  "digit_char n = char_of (if n < 10 then 48 + n else 87 + n)"

fun show_base :: "nat \<Rightarrow> nat \<Rightarrow> string" where
  "show_base b n =
     (if b \<le> 1 \<or> n < b then [digit_char n] else show_base b (n div b) @ [digit_char (n mod b)])"

declare show_base.simps [simp del]

definition show_int :: "int \<Rightarrow> string" where
  "show_int i = (if i < 0 then CHR ''-'' # show_base 10 (nat (- i)) else show_base 10 (nat i))"

definition show_hex :: "u64 \<Rightarrow> string" where
  "show_hex w = show_base 16 (unat w)"

text \<open>The digits determine the number, and none of them is a colon.\<close>

lemma digit_char_inject: "a < 16 \<Longrightarrow> b < 16 \<Longrightarrow> digit_char a = digit_char b \<longleftrightarrow> a = b"
proof
  assume ab: "a < 16" "b < 16" and "digit_char a = digit_char b"
  then have "(of_char (digit_char a) :: nat) = of_char (digit_char b)" by simp
  with ab show "a = b" by (auto simp: digit_char_def split: if_splits)
qed simp

lemma digit_char_not_colon: "n < 16 \<Longrightarrow> digit_char n \<noteq> CHR '':''"
proof
  assume n: "n < 16" and "digit_char n = CHR '':''"
  then have "(of_char (digit_char n) :: nat) = 58" by simp
  with n show False by (auto simp: digit_char_def split: if_splits)
qed

lemma show_base_neq_Nil [simp]: "show_base b n \<noteq> []" "[] \<noteq> show_base b n"
  by (subst show_base.simps, simp)+

lemma show_base_no_colon: "1 < b \<Longrightarrow> b \<le> 16 \<Longrightarrow> CHR '':'' \<notin> set (show_base b n)"
proof (induction b n rule: show_base.induct)
  case (1 b n)
  have d: "CHR '':'' \<noteq> digit_char k" if "k < b" for k
    using digit_char_not_colon [of k] that "1.prems" by auto
  have "CHR '':'' \<notin> set (show_base b (n div b))" if "b \<le> n"
    using "1.IH" "1.prems" that by simp
  with d "1.prems" show ?case
    by (subst show_base.simps) (auto simp: not_less)
qed

lemma show_base_inject:
  "1 < b \<Longrightarrow> b \<le> 16 \<Longrightarrow> show_base b m = show_base b n \<Longrightarrow> m = n"
proof (induction b m arbitrary: n rule: show_base.induct)
  case (1 b m)
  have dig: "digit_char i = digit_char j \<Longrightarrow> i = j" if "i < b" "j < b" for i j
    using digit_char_inject [of i j] that "1.prems" by auto
  consider "m < b" "n < b" | "m < b" "b \<le> n" | "b \<le> m" "n < b" | "b \<le> m" "b \<le> n" by linarith
  then show ?case
  proof cases
    case 1
    with "1.prems" dig show ?thesis
      by (simp add: show_base.simps [of b m] show_base.simps [of b n])
  next
    case 2
    with "1.prems" show ?thesis
      by (simp add: show_base.simps [of b m] show_base.simps [of b n])
  next
    case 3
    with "1.prems" show ?thesis
      by (simp add: show_base.simps [of b m] show_base.simps [of b n])
  next
    case 4
    with "1.prems" have eq: "show_base b (m div b) = show_base b (n div b)"
      and last: "digit_char (m mod b) = digit_char (n mod b)"
      by (simp_all add: show_base.simps [of b m] show_base.simps [of b n])
    from 4 "1.prems" eq have "m div b = n div b" using "1.IH" [of "n div b"] by simp
    moreover from last "1.prems" have "m mod b = n mod b" by (intro dig) simp_all
    ultimately show ?thesis by (metis div_mod_decomp)
  qed
qed

lemma show_hex_inject: "show_hex v = show_hex w \<longleftrightarrow> v = w"
  using show_base_inject [of 16 "unat v" "unat w"] by (auto simp: show_hex_def intro: unsigned_word_eqI)

lemma show_hex_no_colon: "CHR '':'' \<notin> set (show_hex w)"
  by (simp add: show_hex_def show_base_no_colon)

section \<open>Byte strings\<close>

text \<open>\<open>string(b)\<close> and \<open>[]byte(s)\<close>: a Go string is its bytes.\<close>

definition string_of_bytes :: "bytes \<Rightarrow> string" where
  "string_of_bytes bs = map (\<lambda>b. char_of (unat b)) bs"

definition bytes_of_string :: "string \<Rightarrow> bytes" where
  "bytes_of_string s = map (\<lambda>c. of_nat (of_char c)) s"

lemma length_string_of_bytes [simp]: "length (string_of_bytes bs) = length bs"
  by (simp add: string_of_bytes_def)

lemma length_bytes_of_string [simp]: "length (bytes_of_string s) = length s"
  by (simp add: bytes_of_string_def)

lemma char_of_unat_of_char [simp]: "char_of (unat (of_nat (of_char c) :: u8)) = c"
proof -
  have "unat (of_nat (of_char c) :: u8) = (of_char c :: nat)"
    using nat_of_char_less_256 [of c] by (simp add: unat_of_nat)
  then show ?thesis by simp
qed

lemma of_nat_unat_mod_256 [simp]: "of_nat (unat (b :: u8) mod 256) = b"
proof -
  have "unat b < 256" using unsigned_less [of b] by simp
  then show ?thesis by simp
qed

lemma string_of_bytes_of_string [simp]: "string_of_bytes (bytes_of_string s) = s"
  by (simp add: string_of_bytes_def bytes_of_string_def comp_def)

lemma bytes_of_string_of_bytes [simp]: "bytes_of_string (string_of_bytes bs) = bs"
  by (simp add: string_of_bytes_def bytes_of_string_def comp_def)

lemma string_of_bytes_inject: "string_of_bytes xs = string_of_bytes ys \<longleftrightarrow> xs = ys"
  by (metis bytes_of_string_of_bytes)

text \<open>\<open>binary.LittleEndian\<close> on \<open>uint32\<close>: \<open>PutUint32\<close> and \<open>Uint32\<close>.\<close>

definition le32 :: "u32 \<Rightarrow> bytes" where
  "le32 w = [ucast w, ucast (drop_bit 8 w), ucast (drop_bit 16 w), ucast (drop_bit 24 w)]"

definition of_le32 :: "bytes \<Rightarrow> u32" where
  "of_le32 bs = ucast (bs ! 0) OR push_bit 8 (ucast (bs ! 1))
     OR push_bit 16 (ucast (bs ! 2)) OR push_bit 24 (ucast (bs ! 3))"

lemma length_le32 [simp]: "length (le32 w) = 4"
  by (simp add: le32_def)

lemma of_le32_le32 [simp]: "of_le32 (le32 w @ bs) = w"
  unfolding of_le32_def
proof (rule bit_word_eqI)
  fix n
  assume "n < LENGTH(32)"
  then have "n < 8 \<or> (8 \<le> n \<and> n < 16) \<or> (16 \<le> n \<and> n < 24) \<or> (24 \<le> n \<and> n < 32)" by auto
  then show "bit (ucast ((le32 w @ bs) ! 0) OR push_bit 8 (ucast ((le32 w @ bs) ! 1))
      OR push_bit 16 (ucast ((le32 w @ bs) ! 2)) OR push_bit 24 (ucast ((le32 w @ bs) ! 3)) :: u32) n
    = bit w n"
    unfolding le32_def by (elim disjE) (auto simp: bit_simps)
qed

lemma of_le32_le32_Nil [simp]: "of_le32 (le32 w) = w"
  using of_le32_le32 [of w "[]"] by simp

lemma take_drop_le32 [simp]:
  "take 4 (le32 w @ bs) = le32 w" "drop 4 (le32 w @ bs) = bs"
  by (simp_all add: le32_def)

section \<open>Maps of maps\<close>

text \<open>
  Both the load balancer and the runner keep maps of maps: an outer key, and below it an
  inner map that is created with its first entry and dropped with its last one. The
  three operations below are the statements the code repeats for that.
\<close>

definition nested_get :: "('a, ('b, 'v) gomap) gomap \<Rightarrow> 'a \<Rightarrow> 'b \<Rightarrow> 'v option" where
  "nested_get m k j = (case map_of m k of None \<Rightarrow> None | Some inner \<Rightarrow> map_of inner j)"

definition nested_put ::
  "'a \<Rightarrow> 'b \<Rightarrow> 'v \<Rightarrow> ('a, ('b, 'v) gomap) gomap \<Rightarrow> ('a, ('b, 'v) gomap) gomap" where
  "nested_put k j v m =
     (case map_of m k of
        Some inner \<Rightarrow> AList.update k (AList.update j v inner) m
      | None \<Rightarrow> AList.update k [(j, v)] m)"

text \<open>Replace the inner map, and drop the outer entry when it has become empty.\<close>

definition nested_set ::
  "'a \<Rightarrow> ('b, 'v) gomap \<Rightarrow> ('a, ('b, 'v) gomap) gomap \<Rightarrow> ('a, ('b, 'v) gomap) gomap" where
  "nested_set k inner m = (if inner = [] then AList.delete k m else AList.update k inner m)"

definition nested_del ::
  "'a \<Rightarrow> 'b \<Rightarrow> ('a, ('b, 'v) gomap) gomap \<Rightarrow> ('a, ('b, 'v) gomap) gomap" where
  "nested_del k j m =
     (case map_of m k of
        None \<Rightarrow> m
      | Some inner \<Rightarrow> nested_set k (AList.delete j inner) m)"

text \<open>Distinct keys on both levels, and no inner map is left empty.\<close>

definition nested_wf :: "('a, ('b, 'v) gomap) gomap \<Rightarrow> bool" where
  "nested_wf m \<longleftrightarrow> distinct (map fst m) \<and>
     list_all (\<lambda>(k, inner). inner \<noteq> [] \<and> distinct (map fst inner)) m"

lemma alist_update_neq_Nil [simp]: "AList.update k v m \<noteq> []"
  by (cases m) auto

lemma set_alist_update_subset: "set (AList.update k v m) \<subseteq> insert (k, v) (set m)"
  by (induction m) auto

lemma set_alist_delete_subset: "set (AList.delete k m) \<subseteq> set m"
  by (auto simp: AList.delete_eq)

lemma map_of_alist_update [simp]: "map_of (AList.update k v m) = (map_of m)(k \<mapsto> v)"
  by (rule AList.update_conv')

lemma map_of_alist_delete [simp]: "map_of (AList.delete k m) = (map_of m)(k := None)"
  by (rule AList.delete_conv')

lemma nested_wfD:
  assumes "nested_wf m" "map_of m k = Some inner"
  shows "inner \<noteq> []" "distinct (map fst inner)"
  using assms map_of_SomeD [OF assms(2)] by (auto simp: nested_wf_def list_all_iff)

lemma nested_wf_distinct: "nested_wf m \<Longrightarrow> distinct (map fst m)"
  by (simp add: nested_wf_def)

lemma nested_wf_Nil [simp]: "nested_wf []"
  by (simp add: nested_wf_def)

lemma nested_wf_update:
  assumes "nested_wf m" "inner \<noteq> []" "distinct (map fst inner)"
  shows "nested_wf (AList.update k inner m)"
  using assms set_alist_update_subset [of k inner m]
  by (fastforce simp: nested_wf_def list_all_iff intro: AList.distinct_update)

lemma nested_wf_delete: "nested_wf m \<Longrightarrow> nested_wf (AList.delete k m)"
  using set_alist_delete_subset [of k m]
  by (fastforce simp: nested_wf_def list_all_iff intro: AList.distinct_delete)

lemma nested_wf_put: "nested_wf m \<Longrightarrow> nested_wf (nested_put k j v m)"
  by (auto simp: nested_put_def split: option.split intro!: nested_wf_update
      AList.distinct_update dest: nested_wfD)

lemma nested_wf_set:
  "nested_wf m \<Longrightarrow> distinct (map fst inner) \<Longrightarrow> nested_wf (nested_set k inner m)"
  by (simp add: nested_set_def nested_wf_update nested_wf_delete)

lemma nested_wf_del: "nested_wf m \<Longrightarrow> nested_wf (nested_del k j m)"
  by (auto simp: nested_del_def split: option.split intro!: nested_wf_set
      AList.distinct_delete dest: nested_wfD)

lemma nested_get_put [simp]:
  "nested_get (nested_put k j v m) k' j' =
     (if k' = k \<and> j' = j then Some v else nested_get m k' j')"
  by (simp add: nested_get_def nested_put_def split: option.split)

lemma nested_get_set [simp]:
  "nested_get (nested_set k inner m) k' j' =
     (if k' = k then map_of inner j' else nested_get m k' j')"
  by (simp add: nested_get_def nested_set_def)

lemma nested_get_del [simp]:
  "nested_get (nested_del k j m) k' j' =
     (if k' = k \<and> j' = j then None else nested_get m k' j')"
  by (simp add: nested_del_def split: option.split) (simp add: nested_get_def)

lemma nested_get_Nil [simp]: "nested_get [] k j = None"
  by (simp add: nested_get_def)

text \<open>In a well-formed map of maps an outer key is present exactly when it has an entry.\<close>

lemma nested_outer_iff:
  assumes "nested_wf m"
  shows "map_of m k = None \<longleftrightarrow> (\<forall>j. nested_get m k j = None)"
proof
  assume "\<forall>j. nested_get m k j = None"
  show "map_of m k = None"
  proof (rule ccontr)
    assume "map_of m k \<noteq> None"
    then obtain inner where inner: "map_of m k = Some inner" by auto
    with assms have "inner \<noteq> []" by (rule nested_wfD)
    then obtain j v rest where "inner = (j, v) # rest" by (cases inner) auto
    with inner have "nested_get m k j = Some v" by (simp add: nested_get_def)
    with \<open>\<forall>j. nested_get m k j = None\<close> show False by simp
  qed
qed (simp add: nested_get_def)

end
