(* ===== verification/Errors.thy ===== *)
theory Errors
  imports Prelude
begin

text \<open>
  The error values of the program as one datatype, the gRPC status errors the servers
  build, \<open>errors.Is\<close> along a chain of \<open>%w\<close> wrappings, and the readers of Go's standard
  library that return errors (\<open>io.ReadFull\<close>, \<open>binary.Read\<close>).
\<close>

section \<open>Error values\<close>

text \<open>The codes of \<open>google.golang.org/grpc/codes\<close> the source uses.\<close>

datatype grpc_code = CodeCanceled | CodeInvalidArgument | CodeFailedPrecondition
  | CodeResourceExhausted | CodeInternal

text \<open>
  \<open>EStatus\<close> is \<open>status.Error\<close>, \<open>EWrap\<close> is \<open>fmt.Errorf("...: %w", err)\<close>, \<open>EOther\<close> any
  error of a library or of a remote call the source only hands on.
\<close>

datatype go_error =
    EIncorrectData | EUnsupportedRuntime | EPoolNotRunning | EPoolAlreadyCreated
  | ESemaphoreNotAcquired | ECacheCommandUnrecognized | ECacheCommandMalformed
  | ECacheKeyLengthExceeded | ECacheValueLengthExceeded | ELengthExceeded
  | ETooManyConnections | EConnectionIDReserved
  | EResourceNotFound | EVolumeNotFound | ENotEnoughDiskSpace
  | EMissingPayloadKey | EJSONParsingFailed | EReservedCPUTooHigh
  | EEOF | EUnexpectedEOF | EDeadlineExceeded | EContextCanceled
  | ELimitReached | ESessionShutdown | EStreamClosed | ERedisNil
  | EStatus grpc_code string
  | EWrap string go_error
  | EOther string

type_synonym 'a result = "go_error + 'a"

definition ErrSourceNotAvailable :: go_error where
  "ErrSourceNotAvailable = EStatus CodeFailedPrecondition ''source not available''"

definition ErrInvalidArgument :: go_error where
  "ErrInvalidArgument = EStatus CodeInvalidArgument ''invalid argument''"

definition ErrUnknownWorkerID :: go_error where
  "ErrUnknownWorkerID = EStatus CodeInvalidArgument ''unknown worker id''"

definition ErrNoWorkersAvailable :: go_error where
  "ErrNoWorkersAvailable = EStatus CodeResourceExhausted ''no workers available''"

definition ErrMissingMeta :: go_error where
  "ErrMissingMeta = EStatus CodeFailedPrecondition ''missing upload meta''"

text \<open>\<open>errors.Is(err, target)\<close>, with \<open>None\<close> for the nil error.\<close>

fun error_is :: "go_error \<Rightarrow> go_error \<Rightarrow> bool" where
  "error_is (EWrap msg e) target = (EWrap msg e = target \<or> error_is e target)"
| "error_is e target = (e = target)"

definition errors_Is :: "go_error option \<Rightarrow> go_error \<Rightarrow> bool" where
  "errors_Is err target = (case err of None \<Rightarrow> False | Some e \<Rightarrow> error_is e target)"

lemma error_is_refl [simp]: "error_is e e"
  by (cases e) auto

lemma errors_Is_None [simp]: "\<not> errors_Is None t"
  by (simp add: errors_Is_def)

lemma errors_Is_Some [simp]: "errors_Is (Some e) t = error_is e t"
  by (simp add: errors_Is_def)

lemma error_is_wrap [simp]: "error_is (EWrap msg e) t \<longleftrightarrow> EWrap msg e = t \<or> error_is e t"
  by simp

section \<open>Readers\<close>

text \<open>
  \<open>io.ReadFull(r, buf)\<close> with \<open>n = len(buf)\<close>, on a connection whose remaining input is
  \<open>inp\<close> (after it, end of file): nothing read is \<open>io.EOF\<close>, a part is
  \<open>io.ErrUnexpectedEOF\<close>; the error case has consumed what there was.
\<close>

definition read_full :: "nat \<Rightarrow> bytes \<Rightarrow> bytes result \<times> bytes" where
  "read_full n inp =
     (if n \<le> length inp then (Inr (take n inp), drop n inp)
      else (Inl (if inp = [] then EEOF else EUnexpectedEOF), []))"

text \<open>\<open>binary.Read(r, binary.LittleEndian, &u)\<close> for a \<open>uint32\<close>.\<close>

definition read_u32 :: "bytes \<Rightarrow> u32 result \<times> bytes" where
  "read_u32 inp =
     (case read_full 4 inp of
        (Inl e, rest) \<Rightarrow> (Inl e, rest)
      | (Inr b, rest) \<Rightarrow> (Inr (of_le32 b), rest))"

lemma read_full_append [simp]: "length xs = n \<Longrightarrow> read_full n (xs @ ys) = (Inr xs, ys)"
  by (simp add: read_full_def)

lemma read_full_0 [simp]: "read_full 0 inp = (Inr [], inp)"
  by (simp add: read_full_def)

lemma read_u32_le32 [simp]: "read_u32 (le32 w @ ys) = (Inr w, ys)"
  by (simp add: read_u32_def)

lemma read_full_InrD:
  "read_full n inp = (Inr b, rest) \<Longrightarrow> inp = b @ rest \<and> length b = n"
  by (auto simp: read_full_def split: if_splits)

lemma read_u32_InrD:
  assumes "read_u32 inp = (Inr w, rest)"
  shows "length inp = length rest + 4"
  using assms by (auto simp: read_u32_def split: prod.splits sum.splits dest: read_full_InrD)

lemma read_full_shrinks: "read_full n inp = (r, rest) \<Longrightarrow> length rest \<le> length inp"
  by (auto simp: read_full_def split: if_splits)

lemma read_u32_shrinks: "read_u32 inp = (r, rest) \<Longrightarrow> length rest \<le> length inp"
  by (auto simp: read_u32_def split: prod.splits sum.splits dest: read_full_shrinks)

section \<open>Calls with an effect\<close>

text \<open>
  A call of a service outside the repository (docker, redis, a remote procedure, the file
  system) is an argument of the model: a function from the state of that service, whatever
  it is, to a result or an error and the service's next state.
\<close>

type_synonym ('w, 'a) eff = "'w \<Rightarrow> 'a result \<times> 'w"

definition eff_return :: "'a \<Rightarrow> ('w, 'a) eff" where
  "eff_return x = (\<lambda>w. (Inr x, w))"

definition eff_fail :: "go_error \<Rightarrow> ('w, 'a) eff" where
  "eff_fail e = (\<lambda>w. (Inl e, w))"

text \<open>\<open>x, err := m(); if err != nil { return err }; ...\<close>\<close>

definition eff_bind :: "('w, 'a) eff \<Rightarrow> ('a \<Rightarrow> ('w, 'b) eff) \<Rightarrow> ('w, 'b) eff" where
  "eff_bind m f = (\<lambda>w. case m w of (Inl e, w') \<Rightarrow> (Inl e, w') | (Inr x, w') \<Rightarrow> f x w')"

text \<open>\<open>x, err := m(); if err != nil { handler } ...\<close>, where the handler may go on.\<close>

definition eff_case ::
  "('w, 'a) eff \<Rightarrow> (go_error \<Rightarrow> ('w, 'b) eff) \<Rightarrow> ('a \<Rightarrow> ('w, 'b) eff) \<Rightarrow> ('w, 'b) eff" where
  "eff_case m h f = (\<lambda>w. case m w of (Inl e, w') \<Rightarrow> h e w' | (Inr x, w') \<Rightarrow> f x w')"

lemma eff_case_Inl [simp]: "m w = (Inl e, w') \<Longrightarrow> eff_case m h f w = h e w'"
  by (simp add: eff_case_def)

lemma eff_case_Inr [simp]: "m w = (Inr x, w') \<Longrightarrow> eff_case m h f w = f x w'"
  by (simp add: eff_case_def)

lemma eff_bind_eq_case: "eff_bind m f = eff_case m eff_fail f"
  by (rule ext) (simp add: eff_bind_def eff_case_def eff_fail_def split: prod.split sum.split)

lemma eff_return_apply [simp]: "eff_return x w = (Inr x, w)"
  by (simp add: eff_return_def)

lemma eff_fail_apply [simp]: "eff_fail e w = (Inl e, w)"
  by (simp add: eff_fail_def)

lemma eff_bind_Inl [simp]: "m w = (Inl e, w') \<Longrightarrow> eff_bind m f w = (Inl e, w')"
  by (simp add: eff_bind_def)

lemma eff_bind_Inr [simp]: "m w = (Inr x, w') \<Longrightarrow> eff_bind m f w = f x w'"
  by (simp add: eff_bind_def)

lemma eff_bind_InrE:
  assumes "eff_bind m f w = (Inr y, w'')"
  obtains x w' where "m w = (Inr x, w')" "f x w' = (Inr y, w'')"
  using assms by (auto simp: eff_bind_def split: prod.splits sum.splits)

section \<open>Calls that may also panic or block\<close>

text \<open>
  A method of the source, on a state it reads and updates: it returns a value or an error
  together with the next state, or panics, or blocks.
\<close>

type_synonym ('s, 'a) proc = "'s \<Rightarrow> ('a result \<times> 's) outcome"

definition return :: "'a \<Rightarrow> ('s, 'a) proc" where
  "return x = (\<lambda>s. Returns (Inr x, s))"

definition throw :: "go_error \<Rightarrow> ('s, 'a) proc" where
  "throw e = (\<lambda>s. Returns (Inl e, s))"

definition panic :: "('s, 'a) proc" where
  "panic = (\<lambda>s. Panics)"

definition get_state :: "('s \<Rightarrow> 'a) \<Rightarrow> ('s, 'a) proc" where
  "get_state f = (\<lambda>s. Returns (Inr (f s), s))"

definition modify :: "('s \<Rightarrow> 's) \<Rightarrow> ('s, unit) proc" where
  "modify f = (\<lambda>s. Returns (Inr (), f s))"

text \<open>\<open>x, err := m()\<close>, with what follows for an error and for a value.\<close>

definition try_catch ::
  "('s, 'a) proc \<Rightarrow> (go_error \<Rightarrow> ('s, 'b) proc) \<Rightarrow> ('a \<Rightarrow> ('s, 'b) proc) \<Rightarrow> ('s, 'b) proc" where
  "try_catch m h f = (\<lambda>s.
     case m s of
       Returns (Inl e, s') \<Rightarrow> h e s'
     | Returns (Inr x, s') \<Rightarrow> f x s'
     | Panics \<Rightarrow> Panics
     | Blocks \<Rightarrow> Blocks)"

definition andThen :: "('s, 'a) proc \<Rightarrow> ('a \<Rightarrow> ('s, 'b) proc) \<Rightarrow> ('s, 'b) proc" where
  "andThen m f = try_catch m throw f"

text \<open>The error, if any, as a value.\<close>

definition attempt :: "('s, 'a) proc \<Rightarrow> ('s, 'a result) proc" where
  "attempt m = try_catch m (\<lambda>e. return (Inl e)) (\<lambda>x. return (Inr x))"

text \<open>A call of a service whose state is a part of the state, and \<open>util.Must\<close>.\<close>

definition lift_eff ::
  "('s \<Rightarrow> 'w) \<Rightarrow> ('w \<Rightarrow> 's \<Rightarrow> 's) \<Rightarrow> ('w, 'a) eff \<Rightarrow> ('s, 'a) proc" where
  "lift_eff sel upd m = (\<lambda>s. case m (sel s) of (r, w) \<Rightarrow> Returns (r, upd w s))"

definition must :: "('s, 'a) proc \<Rightarrow> ('s, 'a) proc" where
  "must m = try_catch m (\<lambda>e. panic) return"

named_theorems proc_simps "how the steps of a method run"

lemma proc_run [proc_simps]:
  "return x s = Returns (Inr x, s)" "throw e s = Returns (Inl e, s)" "panic s = Panics"
  "get_state g s = Returns (Inr (g s), s)" "modify f s = Returns (Inr (), f s)"
  by (simp_all add: return_def throw_def panic_def get_state_def modify_def)

lemma lift_eff_run [proc_simps]:
  "m (sel s) = (r, w) \<Longrightarrow> lift_eff sel upd m s = Returns (r, upd w s)"
  by (simp add: lift_eff_def)

lemma try_catch_run [proc_simps]:
  "m s = Returns (Inl e, s') \<Longrightarrow> try_catch m h f s = h e s'"
  "m s = Returns (Inr x, s') \<Longrightarrow> try_catch m h f s = f x s'"
  "m s = Panics \<Longrightarrow> try_catch m h f s = Panics"
  "m s = Blocks \<Longrightarrow> try_catch m h f s = Blocks"
  by (simp_all add: try_catch_def)

lemma andThen_run [proc_simps]:
  "m s = Returns (Inl e, s') \<Longrightarrow> andThen m f s = Returns (Inl e, s')"
  "m s = Returns (Inr x, s') \<Longrightarrow> andThen m f s = f x s'"
  "m s = Panics \<Longrightarrow> andThen m f s = Panics"
  "m s = Blocks \<Longrightarrow> andThen m f s = Blocks"
  by (simp_all add: andThen_def proc_simps)

lemma must_run [proc_simps]:
  "m s = Returns (Inl e, s') \<Longrightarrow> must m s = Panics"
  "m s = Returns (Inr x, s') \<Longrightarrow> must m s = Returns (Inr x, s')"
  by (simp_all add: must_def proc_simps)

lemma attempt_run [proc_simps]:
  "m s = Returns (r, s') \<Longrightarrow> attempt m s = Returns (Inr r, s')"
  "m s = Panics \<Longrightarrow> attempt m s = Panics"
  "m s = Blocks \<Longrightarrow> attempt m s = Blocks"
  by (cases r; simp add: attempt_def proc_simps)+

text \<open>
  The same as equations without conditions, for goals where the result of a step is a
  boolean or a tuple the conditional rules cannot guess.
\<close>

named_theorems proc_eval "the steps of a method as case distinctions"

lemma proc_eval_steps [proc_eval]:
  "return x s = Returns (Inr x, s)" "throw e s = Returns (Inl e, s)" "panic s = Panics"
  "get_state g s = Returns (Inr (g s), s)" "modify h s = Returns (Inr (), h s)"
  "try_catch m k f s = (case m s of Returns (r, s') \<Rightarrow> (case r of Inl e \<Rightarrow> k e s' | Inr x \<Rightarrow> f x s')
     | Panics \<Rightarrow> Panics | Blocks \<Rightarrow> Blocks)"
  "andThen m f s = (case m s of
     Returns (r, s') \<Rightarrow> (case r of Inl e \<Rightarrow> Returns (Inl e, s') | Inr x \<Rightarrow> f x s')
     | Panics \<Rightarrow> Panics | Blocks \<Rightarrow> Blocks)"
  "attempt m s = (case m s of Returns (r, s') \<Rightarrow> Returns (Inr r, s')
     | Panics \<Rightarrow> Panics | Blocks \<Rightarrow> Blocks)"
  "must m s = (case m s of
     Returns (r, s') \<Rightarrow> (case r of Inl e \<Rightarrow> Panics | Inr x \<Rightarrow> Returns (Inr x, s'))
     | Panics \<Rightarrow> Panics | Blocks \<Rightarrow> Blocks)"
  by (simp_all add: proc_run try_catch_def andThen_def throw_def return_def panic_def attempt_def must_def
      split: outcome.split prod.split sum.split)

lemma andThen_ReturnsE:
  assumes "andThen m f s = Returns (r, s'')"
  obtains (failed) e where "m s = Returns (Inl e, s'')" "r = Inl e"
    | (returned) x s' where "m s = Returns (Inr x, s')" "f x s' = Returns (r, s'')"
  using assms
  by (cases "m s") (auto simp: andThen_def try_catch_def throw_def split: sum.splits prod.splits)

lemma try_catch_ReturnsE:
  assumes "try_catch m h f s = Returns (r, s'')"
  obtains (failed) e s' where "m s = Returns (Inl e, s')" "h e s' = Returns (r, s'')"
    | (returned) x s' where "m s = Returns (Inr x, s')" "f x s' = Returns (r, s'')"
  using assms
  by (cases "m s") (auto simp: try_catch_def split: sum.splits prod.splits)

text \<open>
  A relation between the state before and after, kept by every step that returns: the rules
  carry it through a method.
\<close>

definition keeps :: "('s \<Rightarrow> 's \<Rightarrow> bool) \<Rightarrow> ('s, 'a) proc \<Rightarrow> bool" where
  "keeps R m \<longleftrightarrow> (\<forall>s r s'. m s = Returns (r, s') \<longrightarrow> R s s')"

named_theorems keeps_intros "relations kept by the steps of a method"

lemma keepsD: "keeps R m \<Longrightarrow> m s = Returns (r, s') \<Longrightarrow> R s s'"
  by (auto simp: keeps_def)

lemma keepsI: "(\<And>s r s'. m s = Returns (r, s') \<Longrightarrow> R s s') \<Longrightarrow> keeps R m"
  by (auto simp: keeps_def)

lemma keeps_basic [keeps_intros]:
  assumes "reflp R"
  shows "keeps R (return x)" "keeps R (throw e)" "keeps R panic" "keeps R (get_state g)"
  using assms by (auto simp: keeps_def proc_simps reflp_def)

lemma keeps_modify: "(\<And>s. R s (f s)) \<Longrightarrow> keeps R (modify f)"
  by (auto simp: keeps_def proc_simps)

lemma keeps_try_catch [keeps_intros]:
  assumes "transp R" "keeps R m" "\<And>e. keeps R (h e)" "\<And>x. keeps R (f x)"
  shows "keeps R (try_catch m h f)"
proof (rule keepsI)
  fix s r s''
  assume "try_catch m h f s = Returns (r, s'')"
  then show "R s s''"
    by (cases rule: try_catch_ReturnsE)
      (blast intro: transpD [OF assms(1)] keepsD [OF assms(2)] keepsD [OF assms(3)] keepsD [OF assms(4)])+
qed

lemma keeps_andThen [keeps_intros]:
  assumes "reflp R" "transp R" "keeps R m" "\<And>x. keeps R (f x)"
  shows "keeps R (andThen m f)"
  unfolding andThen_def by (intro keeps_try_catch keeps_basic assms)

lemma keeps_attempt [keeps_intros]: "reflp R \<Longrightarrow> transp R \<Longrightarrow> keeps R m \<Longrightarrow> keeps R (attempt m)"
  unfolding attempt_def by (intro keeps_try_catch keeps_basic)

lemma keeps_must [keeps_intros]: "reflp R \<Longrightarrow> transp R \<Longrightarrow> keeps R m \<Longrightarrow> keeps R (must m)"
  unfolding must_def by (intro keeps_try_catch keeps_basic)

lemma keeps_lift: "(\<And>s r w. m (sel s) = (r, w) \<Longrightarrow> R s (upd w s)) \<Longrightarrow> keeps R (lift_eff sel upd m)"
  by (auto simp: keeps_def lift_eff_def split: prod.splits)

text \<open>Methods that never wait for ever.\<close>

definition nonblocking :: "('s, 'a) proc \<Rightarrow> bool" where
  "nonblocking m \<longleftrightarrow> (\<forall>s. m s \<noteq> Blocks)"

named_theorems nonblocking_intros "methods that never block"

lemma nonblockingD: "nonblocking m \<Longrightarrow> m s \<noteq> Blocks"
  by (simp add: nonblocking_def)

lemma nonblocking_basic [nonblocking_intros]:
  "nonblocking (return x)" "nonblocking (throw e)" "nonblocking panic" "nonblocking (get_state g)"
  "nonblocking (modify h)" "nonblocking (lift_eff sel upd k)"
  by (simp_all add: nonblocking_def proc_eval lift_eff_def split: prod.split)

lemma nonblocking_try_catch [nonblocking_intros]:
  "nonblocking m \<Longrightarrow> (\<And>e. nonblocking (k e)) \<Longrightarrow> (\<And>x. nonblocking (f x)) \<Longrightarrow>
    nonblocking (try_catch m k f)"
  by (simp add: nonblocking_def proc_eval split: outcome.split prod.split sum.split)

lemma nonblocking_andThen [nonblocking_intros]:
  "nonblocking m \<Longrightarrow> (\<And>x. nonblocking (f x)) \<Longrightarrow> nonblocking (andThen m f)"
  unfolding andThen_def by (intro nonblocking_intros)

lemma nonblocking_attempt [nonblocking_intros]: "nonblocking m \<Longrightarrow> nonblocking (attempt m)"
  unfolding attempt_def by (intro nonblocking_intros)

lemma nonblocking_must [nonblocking_intros]: "nonblocking m \<Longrightarrow> nonblocking (must m)"
  unfolding must_def by (intro nonblocking_intros)

lemma nonblocking_if [nonblocking_intros]:
  "nonblocking m \<Longrightarrow> nonblocking m' \<Longrightarrow> nonblocking (if b then m else m')"
  by simp

text \<open>Methods that return no error: what they meet is handled inside.\<close>

definition never_fails :: "('s, 'a) proc \<Rightarrow> bool" where
  "never_fails m \<longleftrightarrow> (\<forall>s e s'. m s \<noteq> Returns (Inl e, s'))"

named_theorems never_fails_intros "methods that return no error"

lemma never_failsD: "never_fails m \<Longrightarrow> m s \<noteq> Returns (Inl e, s')"
  by (simp add: never_fails_def)

lemma never_fails_Inr:
  assumes "never_fails m" "m s = Returns (r, s')"
  obtains x where "r = Inr x"
  using assms by (cases r) (auto simp: never_fails_def)

lemma never_fails_basic [never_fails_intros]:
  "never_fails (return x)" "never_fails panic" "never_fails (get_state g)" "never_fails (modify h)"
  "never_fails (\<lambda>s. Blocks)"
  by (simp_all add: never_fails_def proc_eval)

lemma never_fails_try_catch [never_fails_intros]:
  "(\<And>e. never_fails (k e)) \<Longrightarrow> (\<And>x. never_fails (f x)) \<Longrightarrow> never_fails (try_catch m k f)"
  unfolding never_fails_def by (metis try_catch_ReturnsE)

lemma never_fails_andThen [never_fails_intros]:
  "never_fails m \<Longrightarrow> (\<And>x. never_fails (f x)) \<Longrightarrow> never_fails (andThen m f)"
  unfolding never_fails_def by (metis andThen_ReturnsE)

lemma never_fails_attempt [never_fails_intros]: "never_fails (attempt m)"
  unfolding attempt_def by (intro never_fails_intros)

lemma never_fails_must [never_fails_intros]: "never_fails (must m)"
  unfolding must_def by (intro never_fails_intros)

lemma never_fails_if [never_fails_intros]:
  "never_fails m \<Longrightarrow> never_fails m' \<Longrightarrow> never_fails (if b then m else m')"
  by simp

end
