(* ===== verification/Docker_Manager.thy ===== *)
theory Docker_Manager
  imports Errors
begin

text \<open>
  The docker manager (app/docker): its options and resource constraints, the checks of
  \<open>NewManager\<close>, and the translation of each operation into calls of the docker client.
  The client is the argument \<open>cli\<close>.
\<close>

section \<open>Data\<close>

record docker_options =
  BlkioDevice :: string
  Network :: string
  NetworkSubnet :: string
  ReservedMCPU :: u64
  DNS :: "string list"
  ExtraHosts :: "string list"

definition DefaultDockerOptions :: docker_options where
  "DefaultDockerOptions =
     \<lparr>BlkioDevice = ''/dev/sda'', Network = ''isolated_nw'', NetworkSubnet = ''172.25.0.0/16'',
      ReservedMCPU = 250, DNS = [''208.67.222.222'', ''208.67.220.220''], ExtraHosts = []\<rparr>"

record constraints =
  CPULimit :: int
  CPUPeriod :: int
  CPUQuota :: int
  IOPSLimit :: u64
  MemoryLimit :: int
  MemorySwapLimit :: int
  PidLimit :: int
  NofileUlimit :: int
  StorageLimit :: string

definition Constraints_MCPU :: "constraints \<Rightarrow> u32" where
  "Constraints_MCPU c = word_of_int (CPULimit c sdiv 1000000)"

text \<open>What the source reads of the client's \<open>types.Info\<close>.\<close>

record docker_info =
  NCPU :: int
  Driver :: string
  DriverStatus :: "(string \<times> string) list"
  Runtimes :: "string list"

record std_manager =
  storageLimitSupported :: bool
  m_options :: docker_options
  m_info :: docker_info
  m_runtime :: string

section \<open>The requests sent to the client\<close>

record container_config =
  AttachStdout :: bool
  cc_Image :: string
  cc_User :: string
  cc_Labels :: "(string, string) gomap"
  cc_Cmd :: "string list"
  cc_Env :: "string list"
  StopTimeout :: int
  WorkingDir :: string

record resources =
  res_Memory :: int
  res_MemorySwap :: int
  res_Ulimits :: "(string \<times> int \<times> int) list"
  res_PidsLimit :: int
  res_CPUPeriod :: int
  res_CPUQuota :: int
  res_BlkioDeviceReadIOps :: "(string \<times> u64) list"
  res_BlkioDeviceWriteIOps :: "(string \<times> u64) list"

record host_config =
  Binds :: "string list"
  hc_DNS :: "string list option"
  hc_ExtraHosts :: "string list"
  NetworkMode :: string
  hc_Resources :: resources
  hc_Runtime :: string
  StorageOpt :: "(string, string) gomap"

record docker_container =
  dc_ID :: string
  dc_Labels :: "(string, string) gomap"

text \<open>The docker client, as functions of its own state.\<close>

record 'w docker_client =
  cli_Info :: "('w, docker_info) eff"
  cli_NetworkInspect :: "string \<Rightarrow> ('w, unit) eff"
  cli_NetworkCreate :: "string \<Rightarrow> string \<Rightarrow> ('w, unit) eff"
  cli_ImageInspect :: "string \<Rightarrow> ('w, unit) eff"
  cli_ImagePull :: "string \<Rightarrow> ('w, nat) eff"
  cli_CopyDiscard :: "nat \<Rightarrow> ('w, unit) eff"
  cli_Close :: "nat \<Rightarrow> ('w, unit) eff"
  cli_ImagesPrune :: "(string \<times> string) list \<Rightarrow> ('w, unit) eff"
  cli_ContainerList :: "(string \<times> string) list \<Rightarrow> ('w, docker_container list) eff"
  cli_ContainerCreate :: "container_config \<Rightarrow> host_config \<Rightarrow> ('w, string) eff"
  cli_ContainerAttach :: "string \<Rightarrow> bool \<Rightarrow> bool \<Rightarrow> ('w, nat) eff"
  cli_ContainerStart :: "string \<Rightarrow> ('w, unit) eff"
  cli_ContainerStop :: "string \<Rightarrow> ('w, unit) eff"
  cli_ContainerRemove :: "string \<Rightarrow> bool \<Rightarrow> ('w, unit) eff"
  cli_ContainerUpdate :: "string \<Rightarrow> resources \<Rightarrow> ('w, unit) eff"

definition empty_resources :: resources where
  "empty_resources = \<lparr>res_Memory = 0, res_MemorySwap = 0, res_Ulimits = [], res_PidsLimit = 0,
     res_CPUPeriod = 0, res_CPUQuota = 0, res_BlkioDeviceReadIOps = [],
     res_BlkioDeviceWriteIOps = []\<rparr>"

section \<open>Operations\<close>

text \<open>
  \<open>NewManager\<close>. The options have been merged over the defaults by the library \<open>mergo\<close>,
  the argument \<open>merge\<close>. \<open>info.DriverStatus[0][1]\<close> is read in both branches of the
  storage check (the second one logs it), so an empty list panics.
\<close>

definition NewManager ::
  "(docker_options \<Rightarrow> docker_options \<Rightarrow> docker_options) \<Rightarrow> docker_options option
   \<Rightarrow> 'w docker_client \<Rightarrow> 'w \<Rightarrow> (std_manager result \<times> 'w) outcome" where
  "NewManager merge opts cli w =
     (let options = (case opts of None \<Rightarrow> DefaultDockerOptions
                     | Some o' \<Rightarrow> merge DefaultDockerOptions o')
      in case cli_Info cli w of
        (Inl err, w1) \<Rightarrow> Returns (Inl err, w1)
      | (Inr info, w1) \<Rightarrow>
         (case DriverStatus info of
            [] \<Rightarrow> Panics
          | (_, fs) # _ \<Rightarrow>
             (let m = \<lparr>storageLimitSupported = (Driver info = ''overlay2'' \<and> fs = ''xfs''),
                       m_options = options, m_info = info,
                       m_runtime = (if ''runsc'' \<in> set (Runtimes info) then ''runsc'' else [])\<rparr>
              in if (word_of_int (wrap64 (NCPU info * 1000)) :: u64) \<le> ReservedMCPU options
                 then Returns (Inl EReservedCPUTooHigh, w1)
                 else (case cli_NetworkInspect cli (Network options) w1 of
                         (Inr _, w2) \<Rightarrow> Returns (Inr m, w2)
                       | (Inl _, w2) \<Rightarrow>
                           (case cli_NetworkCreate cli (Network options) (NetworkSubnet options) w2 of
                              (Inl err, w3) \<Rightarrow> Returns (Inl err, w3)
                            | (Inr _, w3) \<Rightarrow> Returns (Inr m, w3))))))"

definition Manager_Options :: "std_manager \<Rightarrow> docker_options" where
  "Manager_Options m = m_options m"

definition Manager_Info :: "std_manager \<Rightarrow> docker_info" where
  "Manager_Info m = m_info m"

definition DownloadImage :: "'w docker_client \<Rightarrow> string \<Rightarrow> bool \<Rightarrow> ('w, unit) eff" where
  "DownloadImage cli img check = (\<lambda>w.
     let pull = eff_bind (cli_ImagePull cli img) (\<lambda>resp.
                eff_bind (cli_CopyDiscard cli resp) (\<lambda>_. cli_Close cli resp))
     in if check then (case cli_ImageInspect cli img w of
                         (Inr _, w1) \<Rightarrow> (Inr (), w1)
                       | (Inl _, w1) \<Rightarrow> pull w1)
        else pull w)"

definition PruneImages :: "'w docker_client \<Rightarrow> ('w, unit) eff" where
  "PruneImages cli = cli_ImagesPrune cli [(''dangling'', ''false'')]"

definition ListContainersByLabel ::
  "'w docker_client \<Rightarrow> string \<Rightarrow> ('w, docker_container list) eff" where
  "ListContainersByLabel cli label = cli_ContainerList cli [(''label'', label)]"

definition create_resources :: "std_manager \<Rightarrow> constraints \<Rightarrow> resources" where
  "create_resources m c =
     (let throttle = [(BlkioDevice (m_options m), IOPSLimit c)]
      in \<lparr>res_Memory = MemoryLimit c, res_MemorySwap = MemorySwapLimit c,
          res_Ulimits = (if NofileUlimit c \<noteq> 0
                         then [(''nofile'', NofileUlimit c, NofileUlimit c)] else []),
          res_PidsLimit = PidLimit c, res_CPUPeriod = CPUPeriod c, res_CPUQuota = CPUQuota c,
          res_BlkioDeviceReadIOps = throttle, res_BlkioDeviceWriteIOps = throttle\<rparr>)"

definition ContainerCreate ::
  "std_manager \<Rightarrow> 'w docker_client \<Rightarrow> string \<Rightarrow> string \<Rightarrow> string list \<Rightarrow> string list
   \<Rightarrow> (string, string) gomap \<Rightarrow> constraints \<Rightarrow> string list \<Rightarrow> ('w, string) eff" where
  "ContainerCreate m cli img user cmd env labels c binds =
     cli_ContainerCreate cli
       \<lparr>AttachStdout = True, cc_Image = img, cc_User = user, cc_Labels = labels, cc_Cmd = cmd,
        cc_Env = env, StopTimeout = 0, WorkingDir = ''/tmp''\<rparr>
       \<lparr>Binds = binds,
        hc_DNS = (if DNS (m_options m) = [] then None else Some (DNS (m_options m))),
        hc_ExtraHosts = ExtraHosts (m_options m), NetworkMode = Network (m_options m),
        hc_Resources = create_resources m c, hc_Runtime = m_runtime m,
        StorageOpt = (if storageLimitSupported m \<and> StorageLimit c \<noteq> []
                      then [(''size'', StorageLimit c)] else [])\<rparr>"

definition ContainerAttach :: "'w docker_client \<Rightarrow> string \<Rightarrow> ('w, nat) eff" where
  "ContainerAttach cli cid = cli_ContainerAttach cli cid True True"

definition ContainerStart :: "'w docker_client \<Rightarrow> string \<Rightarrow> ('w, unit) eff" where
  "ContainerStart cli cid = cli_ContainerStart cli cid"

text \<open>\<open>ContainerStop\<close> ignores the error of the stop and returns that of the forced remove.\<close>

definition ContainerStop :: "'w docker_client \<Rightarrow> string \<Rightarrow> ('w, unit) eff" where
  "ContainerStop cli cid = (\<lambda>w. cli_ContainerRemove cli cid True (snd (cli_ContainerStop cli cid w)))"

definition ContainerUpdate :: "'w docker_client \<Rightarrow> string \<Rightarrow> constraints \<Rightarrow> ('w, unit) eff" where
  "ContainerUpdate cli cid c =
     cli_ContainerUpdate cli cid
       (empty_resources\<lparr>res_CPUPeriod := CPUPeriod c, res_CPUQuota := CPUQuota c,
                        res_Memory := MemoryLimit c\<rparr>)"

section \<open>Facts\<close>

lemma NewManager_panics_iff:
  "NewManager merge opts cli w = Panics \<longleftrightarrow>
     (\<exists>info w1. cli_Info cli w = (Inr info, w1) \<and> DriverStatus info = [])"
  by (auto simp: NewManager_def Let_def split: prod.splits sum.splits list.splits if_splits)

lemma NewManager_never_blocks: "NewManager merge opts cli w \<noteq> Blocks"
  by (auto simp: NewManager_def Let_def split: prod.splits sum.splits list.splits if_splits)

text \<open>A manager that was built reserves less CPU than the host has, and has a network.\<close>

lemma NewManager_ok:
  assumes "NewManager merge opts cli w = Returns (Inr m, w')"
  shows "ReservedMCPU (m_options m) < word_of_int (wrap64 (NCPU (m_info m) * 1000))"
    and "\<exists>w1. cli_Info cli w = (Inr (m_info m), w1)"
    and "m_runtime m \<in> {[], ''runsc''}"
  using assms
  by (auto simp: NewManager_def Let_def not_le split: prod.splits sum.splits list.splits if_splits)

lemma ContainerStop_removes:
  "ContainerStop cli cid w = cli_ContainerRemove cli cid True w1"
  if "cli_ContainerStop cli cid w = (r, w1)"
  using that by (simp add: ContainerStop_def)

end
