(* ===== verification/Script_Definition.thy ===== *)
theory Script_Definition
  imports Docker_Manager
begin

text \<open>
  What identifies a script (app/script/definition.go) and the table of runtimes
  (app/script/wrapper.go). The structural hash of the library \<open>hashstructure\<close> is the
  argument \<open>h\<close>; it returns an error, which the source turns into a panic, only for kinds
  of fields (functions, channels) these structs do not have.
\<close>

section \<open>Runtimes\<close>

record runtime_info =
  FileName :: string
  AssetName :: string
  Command :: "constraints \<Rightarrow> string list"
  rt_Environment :: "string list"
  Image :: string
  User :: string
  DefaultEntryPoint :: string

definition nodeCommand :: "constraints \<Rightarrow> string list" where
  "nodeCommand c =
     [''node'', ''--max_old_space_size='' @ show_int (MemoryLimit c sdiv 1024 sdiv 1024),
      ''/app/wrapper/node.js'']"

definition node_runtime :: "string \<Rightarrow> runtime_info" where
  "node_runtime img =
     \<lparr>FileName = ''node.js'', AssetName = ''wrappers/node.js'', Command = nodeCommand,
      rt_Environment = [''NODE_PATH=/app/env/node_modules:/app/code''], Image = img,
      User = ''node'', DefaultEntryPoint = []\<rparr>"

definition SupportedRuntimes :: "(string, runtime_info) gomap" where
  "SupportedRuntimes =
     [(''nodejs_v12'', node_runtime ''node:12-stretch''),
      (''nodejs_v8'', node_runtime ''node:8-stretch'')]"

definition supported :: "string \<Rightarrow> bool" where
  "supported runtime \<longleftrightarrow> map_of SupportedRuntimes runtime \<noteq> None"

section \<open>Index and definition\<close>

record index =
  Runtime :: string
  SourceHash :: string
  UserID :: string

record script_def =
  Index :: index
  Environment :: string
  Entrypoint :: string
  MCPU :: u32
  Async :: u32

text \<open>The structural hash, of either struct.\<close>

record hasher =
  hash_index :: "index \<Rightarrow> u64"
  hash_definition :: "script_def \<Rightarrow> u64"

definition Index_Hash :: "hasher \<Rightarrow> index \<Rightarrow> string" where
  "Index_Hash h i = UserID i @ '':'' @ show_hex (hash_index h i)"

definition Definition_Hash :: "hasher \<Rightarrow> script_def \<Rightarrow> string" where
  "Definition_Hash h d = UserID (Index d) @ '':'' @ show_hex (hash_definition h d)"

text \<open>
  \<open>NewDefinition\<close>: with an empty entry point it reads a field of
  \<open>SupportedRuntimes[runtime]\<close>, which is a nil pointer for an unknown runtime.
\<close>

definition NewDefinition ::
  "string \<Rightarrow> string \<Rightarrow> string \<Rightarrow> string \<Rightarrow> string \<Rightarrow> u32 \<Rightarrow> u32 \<Rightarrow> script_def outcome" where
  "NewDefinition runtime sourceHash env userID entrypoint mcpu async =
     bind_outcome
       (if entrypoint = [] then
          (case map_of SupportedRuntimes runtime of
             None \<Rightarrow> Panics
           | Some ri \<Rightarrow> Returns (DefaultEntryPoint ri))
        else Returns entrypoint)
       (\<lambda>ep. Returns
          \<lparr>Index = \<lparr>Runtime = runtime, SourceHash = sourceHash, UserID = userID\<rparr>,
           Environment = env, Entrypoint = ep, MCPU = mcpu, Async = async\<rparr>)"

text \<open>The protobuf messages: the options of a run are a pointer, read through nil-safe getters.\<close>

record run_options_pb =
  pb_Entrypoint :: string
  pb_OutputLimit :: u32
  pb_Timeout :: int
  pb_Async :: u32
  pb_Mcpu :: u32
  pb_Args :: bytes
  pb_Config :: bytes
  pb_Meta :: bytes

definition no_options :: run_options_pb where
  "no_options = \<lparr>pb_Entrypoint = [], pb_OutputLimit = 0, pb_Timeout = 0, pb_Async = 0,
     pb_Mcpu = 0, pb_Args = [], pb_Config = [], pb_Meta = []\<rparr>"

record script_meta =
  sm_Runtime :: string
  sm_SourceHash :: string
  sm_UserId :: string
  sm_Environment :: string
  sm_Options :: "run_options_pb option"

definition sm_GetOptions :: "script_meta \<Rightarrow> run_options_pb" where
  "sm_GetOptions meta = (case sm_Options meta of None \<Rightarrow> no_options | Some os \<Rightarrow> os)"

definition CreateDefinitionFromScriptMeta :: "script_meta \<Rightarrow> script_def outcome" where
  "CreateDefinitionFromScriptMeta meta =
     NewDefinition (sm_Runtime meta) (sm_SourceHash meta) (sm_Environment meta) (sm_UserId meta)
       (pb_Entrypoint (sm_GetOptions meta)) (pb_Mcpu (sm_GetOptions meta))
       (pb_Async (sm_GetOptions meta))"

record container_removed_request =
  cr_Id :: string
  cr_Runtime :: string
  cr_ContainerId :: string
  cr_SourceHash :: string
  cr_Environment :: string
  cr_UserId :: string
  cr_Entrypoint :: string
  cr_Async :: u32
  cr_Mcpu :: u32

definition CreateDefinitionFromContainerRemove ::
  "container_removed_request \<Rightarrow> script_def outcome" where
  "CreateDefinitionFromContainerRemove req =
     NewDefinition (cr_Runtime req) (cr_SourceHash req) (cr_Environment req) (cr_UserId req)
       (cr_Entrypoint req) (cr_Mcpu req) (cr_Async req)"

text \<open>
  The request a worker sends when one of its containers is gone (the handler that
  \<open>startServer\<close> of cmd/worker.go installs), from the container's definition and ID.
\<close>

definition container_removed_message ::
  "string \<Rightarrow> string \<Rightarrow> script_def \<Rightarrow> container_removed_request" where
  "container_removed_message poolID contID d =
     \<lparr>cr_Id = poolID, cr_Runtime = Runtime (Index d), cr_ContainerId = contID,
      cr_SourceHash = SourceHash (Index d), cr_Environment = Environment d,
      cr_UserId = UserID (Index d), cr_Entrypoint = Entrypoint d, cr_Async = Async d,
      cr_Mcpu = MCPU d\<rparr>"

section \<open>Facts\<close>

lemma DefaultEntryPoint_supported:
  "map_of SupportedRuntimes runtime = Some ri \<Longrightarrow> DefaultEntryPoint ri = []"
  by (auto simp: SupportedRuntimes_def node_runtime_def split: if_splits)

lemma NewDefinition_panics_iff:
  "NewDefinition rt sh env u ep mcpu async = Panics \<longleftrightarrow> ep = [] \<and> \<not> supported rt"
  by (auto simp: NewDefinition_def supported_def split: option.splits)

text \<open>As no runtime has a default entry point, the definition keeps the given one.\<close>

lemma NewDefinition_eq:
  assumes "ep \<noteq> [] \<or> supported rt"
  shows "NewDefinition rt sh env u ep mcpu async = Returns
    \<lparr>Index = \<lparr>Runtime = rt, SourceHash = sh, UserID = u\<rparr>, Environment = env,
     Entrypoint = ep, MCPU = mcpu, Async = async\<rparr>"
  using assms
  by (auto simp: NewDefinition_def supported_def DefaultEntryPoint_supported)

text \<open>
  The key of a definition shows its user: the part after the last colon is the
  hexadecimal hash, so two keys that are equal have the same user and the same hash.
\<close>

lemma append_colon_inject:
  assumes "CHR '':'' \<notin> set x" "CHR '':'' \<notin> set y" "u @ '':'' @ x = v @ '':'' @ y"
  shows "u = v \<and> x = y"
proof -
  have split: "takeWhile (\<lambda>c. c \<noteq> CHR '':'') (rev (a @ '':'' @ b)) = rev b"
    if "CHR '':'' \<notin> set b" for a b :: string
  proof -
    have "takeWhile (\<lambda>c. c \<noteq> CHR '':'') (rev b @ CHR '':'' # rev a) = rev b @ takeWhile (\<lambda>c. c \<noteq> CHR '':'') (CHR '':'' # rev a)"
      by (rule takeWhile_append2) (use that in auto)
    then show ?thesis by simp
  qed
  from split [OF assms(1), of u] split [OF assms(2), of v] assms(3) have "rev x = rev y" by metis
  then have "x = y" by simp
  with assms(3) show ?thesis by simp
qed

lemma Definition_Hash_eqD:
  assumes "Definition_Hash h d = Definition_Hash h' d'"
  shows "UserID (Index d) = UserID (Index d')" "hash_definition h d = hash_definition h' d'"
  using append_colon_inject [OF show_hex_no_colon show_hex_no_colon assms [unfolded Definition_Hash_def]]
  by (auto simp: show_hex_inject)

lemma Index_Hash_eqD:
  assumes "Index_Hash h i = Index_Hash h' i'"
  shows "UserID i = UserID i'" "hash_index h i = hash_index h' i'"
  using append_colon_inject [OF show_hex_no_colon show_hex_no_colon assms [unfolded Index_Hash_def]]
  by (auto simp: show_hex_inject)

lemma definition_eqI:
  fixes d :: script_def
  shows "\<lparr>Index = \<lparr>Runtime = Runtime (Index d), SourceHash = SourceHash (Index d),
     UserID = UserID (Index d)\<rparr>, Environment = Environment d, Entrypoint = Entrypoint d,
     MCPU = MCPU d, Async = Async d\<rparr> = d"
  by simp

section \<open>Properties\<close>

text \<open>
  Building a definition panics exactly for a request with an empty entry point and a
  runtime that is not in the table. Both servers build the definition before they check
  the runtime, so such a request brings the process down.
\<close>

theorem new_definition_panics:
  "CreateDefinitionFromScriptMeta meta = Panics \<longleftrightarrow>
     pb_Entrypoint (sm_GetOptions meta) = [] \<and>
     map_of SupportedRuntimes (sm_Runtime meta) = None"
  by (simp add: CreateDefinitionFromScriptMeta_def NewDefinition_panics_iff supported_def)

text \<open>
  The definition the load balancer rebuilds from a worker's message that a container is
  gone is the definition the container ran with, so it finds the container under the same
  cache key. The container's definition was itself built by \<open>NewDefinition\<close>, so it has an
  entry point or a known runtime.
\<close>

theorem container_removed_roundtrip:
  assumes "Entrypoint d \<noteq> [] \<or> map_of SupportedRuntimes (Runtime (Index d)) \<noteq> None"
  shows "CreateDefinitionFromContainerRemove (container_removed_message pool cid d) = Returns d"
  using assms
  by (simp add: CreateDefinitionFromContainerRemove_def container_removed_message_def
      NewDefinition_eq supported_def)

theorem container_removed_roundtrip_witness:
  "CreateDefinitionFromContainerRemove (container_removed_message ''pool'' ''c1''
     \<lparr>Index = \<lparr>Runtime = ''nodejs_v8'', SourceHash = ''abc'', UserID = ''u''\<rparr>,
      Environment = [], Entrypoint = [], MCPU = 125, Async = 0\<rparr>) =
   Returns \<lparr>Index = \<lparr>Runtime = ''nodejs_v8'', SourceHash = ''abc'', UserID = ''u''\<rparr>,
      Environment = [], Entrypoint = [], MCPU = 125, Async = 0\<rparr>"
  by (rule container_removed_roundtrip) (simp add: SupportedRuntimes_def)

text \<open>
  The keys of different users never meet. Two keys, of definitions or of indexes, are
  equal exactly when the users are the same and the structural hashes are equal: neither a
  colon in a user's name nor the variable length of the hexadecimal hash can confuse them.
\<close>

theorem hash_keys_separate_users:
  "(Definition_Hash h d = Definition_Hash h d' \<longleftrightarrow>
      UserID (Index d) = UserID (Index d') \<and> hash_definition h d = hash_definition h d') \<and>
   (Index_Hash h i = Index_Hash h i' \<longleftrightarrow>
      UserID i = UserID i' \<and> hash_index h i = hash_index h i')"
proof (intro conjI iffI)
  assume "Definition_Hash h d = Definition_Hash h d'"
  from Definition_Hash_eqD [OF this]
  show "UserID (Index d) = UserID (Index d')" "hash_definition h d = hash_definition h d'"
    by simp_all
next
  assume "Index_Hash h i = Index_Hash h i'"
  from Index_Hash_eqD [OF this]
  show "UserID i = UserID i'" "hash_index h i = hash_index h i'" by simp_all
qed (simp_all add: Definition_Hash_def Index_Hash_def)

end
