(* ===== verification/Script_Result.thy ===== *)
theory Script_Result
  imports Script_Definition
begin

text \<open>
  The result of a run and its parser (app/script/result.go), against the frames the
  wrapper inside the container writes (assets/wrappers/node.js). JSON decoding of the
  response header is the argument \<open>unmarshal\<close>; the tags of the library \<open>validator\<close> are
  the argument \<open>tag\<close>.
\<close>

section \<open>Data\<close>

record http_response =
  StatusCode :: int
  ContentType :: string
  Headers :: "(string, string) gomap"
  Content :: bytes

record run_result =
  ContainerID :: string
  Code :: int
  Stdout :: bytes
  Stderr :: bytes
  Response :: "http_response option"
  Took :: int
  Overhead :: int
  Weight :: u64
  Cached :: bool

definition IncorrectDataText :: bytes where
  "IncorrectDataText = bytes_of_string ''malformed or too large output received''"

definition LimitReachedText :: bytes where
  "LimitReachedText = bytes_of_string ''stdout and/or stderr max size exceeded.''"

definition ResponseValidationErrorText :: bytes where
  "ResponseValidationErrorText = bytes_of_string ''HTTP response validation failed.''"

definition StreamStdout :: u8 where "StreamStdout = 0"
definition StreamStderr :: u8 where "StreamStderr = 1"
definition StreamResponse :: u8 where "StreamResponse = 2"

lemmas stream_types = StreamStdout_def StreamStderr_def StreamResponse_def

section \<open>Validation of a custom response\<close>

text \<open>The tags the struct uses, and the three kinds of value they are applied to.\<close>

datatype vtag = TMin int | TMax int | TPrintASCII | TContainsRune char
datatype vfield = FInt int | FStr string | FLen nat

definition printable :: "string \<Rightarrow> bool" where
  "printable s \<longleftrightarrow> list_all (\<lambda>c. 32 \<le> (of_char c :: nat) \<and> of_char c \<le> (126 :: nat)) s"

text \<open>
  The documented meaning of the tags. The length of a string is its number of
  characters, which is its number of bytes when it is printable ASCII.
\<close>

definition validator_documented :: "(vtag \<Rightarrow> vfield \<Rightarrow> bool) \<Rightarrow> bool" where
  "validator_documented tag \<longleftrightarrow>
     (\<forall>n i. tag (TMin n) (FInt i) \<longleftrightarrow> n \<le> i) \<and>
     (\<forall>n i. tag (TMax n) (FInt i) \<longleftrightarrow> i \<le> n) \<and>
     (\<forall>n k. tag (TMax n) (FLen k) \<longleftrightarrow> int k \<le> n) \<and>
     (\<forall>s. tag TPrintASCII (FStr s) \<longleftrightarrow> printable s) \<and>
     (\<forall>n s. printable s \<longrightarrow> (tag (TMax n) (FStr s) \<longleftrightarrow> int (length s) \<le> n)) \<and>
     (\<forall>c s. tag (TContainsRune c) (FStr s) \<longleftrightarrow> c \<in> set s)"

definition validate_Var :: "(vtag \<Rightarrow> vfield \<Rightarrow> bool) \<Rightarrow> string \<Rightarrow> int \<Rightarrow> bool" where
  "validate_Var tag s n \<longleftrightarrow> tag TPrintASCII (FStr s) \<and> tag (TMax n) (FStr s)"

text \<open>The registered validation \<open>headermap\<close>: the loop over the headers, in their order.\<close>

fun headermap_loop :: "(vtag \<Rightarrow> vfield \<Rightarrow> bool) \<Rightarrow> nat \<Rightarrow> (string, string) gomap \<Rightarrow> bool" where
  "headermap_loop tag totalLen [] = True"
| "headermap_loop tag totalLen ((k, v) # m) =
     (let total = totalLen + (3 + length k + length v)
      in if total > 8 * 1024 then False
         else if \<not> validate_Var tag k 127 \<or> \<not> validate_Var tag v 4096 then False
         else headermap_loop tag total m)"

definition headermap :: "(vtag \<Rightarrow> vfield \<Rightarrow> bool) \<Rightarrow> (string, string) gomap \<Rightarrow> bool" where
  "headermap tag m = headermap_loop tag 0 m"

definition validate_Struct :: "(vtag \<Rightarrow> vfield \<Rightarrow> bool) \<Rightarrow> http_response \<Rightarrow> bool" where
  "validate_Struct tag res \<longleftrightarrow>
     tag (TMin 100) (FInt (StatusCode res)) \<and> tag (TMax 599) (FInt (StatusCode res)) \<and>
     tag (TMax 255) (FStr (ContentType res)) \<and> tag TPrintASCII (FStr (ContentType res)) \<and>
     tag (TContainsRune CHR ''/'') (FStr (ContentType res)) \<and>
     tag (TMax 50) (FLen (length (Headers res))) \<and> headermap tag (Headers res)"

section \<open>The parser\<close>

text \<open>
  \<open>parseData\<close> returns the updated result, the rest of the data and an error. The frame
  length is a \<open>uint32\<close>, and so is \<open>dataLen + 5\<close>: it wraps. The bounds check compares
  the wrapped sum; the slice \<open>data[5 : dataLen+5]\<close> panics when the sum is below 5.
\<close>

definition parseData ::
  "(bytes \<Rightarrow> http_response option) \<Rightarrow> (vtag \<Rightarrow> vfield \<Rightarrow> bool) \<Rightarrow> run_result \<Rightarrow> bytes
   \<Rightarrow> (run_result \<times> bytes \<times> go_error option) outcome" where
  "parseData unmarshal tag ret data =
     (if length data < 5 then Returns (ret, [], Some EIncorrectData)
      else let typ = data ! 0; dataLen = of_le32 (take 4 (drop 1 data)); upto = dataLen + 5
      in if length data < unat upto then Returns (ret, [], Some EIncorrectData)
      else if upto < 5 then Panics
      else let out = drop 5 (take (unat upto) data); newData = drop (unat upto) data
      in if typ = StreamStdout then Returns (ret\<lparr>Stdout := out\<rparr>, newData, None)
      else if typ = StreamStderr then Returns (ret\<lparr>Stderr := out\<rparr>, newData, None)
      else if typ = StreamResponse then
        (case unmarshal out of
           None \<Rightarrow> Returns (ret, [], Some EIncorrectData)
         | Some res0 \<Rightarrow>
             let res = res0\<lparr>Content := newData\<rparr>
             in if \<not> validate_Struct tag res
                then Returns (ret\<lparr>Stderr := ResponseValidationErrorText, Code := 1\<rparr>, newData, None)
                else Returns (ret\<lparr>Response := Some res\<rparr>, [], None))
      else Returns (ret, [], Some EIncorrectData))"

lemma parseData_shrinks:
  assumes "parseData unmarshal tag ret data = Returns (ret', newData, None)" "data \<noteq> []"
  shows "length newData < length data"
  using assms
  by (auto simp: parseData_def Let_def word_less_nat_alt split: if_splits option.splits)

function parse_loop ::
  "(bytes \<Rightarrow> http_response option) \<Rightarrow> (vtag \<Rightarrow> vfield \<Rightarrow> bool) \<Rightarrow> run_result \<Rightarrow> bytes
   \<Rightarrow> (run_result \<times> go_error option) outcome" where
  "parse_loop unmarshal tag ret data =
     (if data = [] then Returns (ret, None)
      else case parseData unmarshal tag ret data of
        Returns (ret', newData, err) \<Rightarrow>
          (case err of
             None \<Rightarrow> parse_loop unmarshal tag ret' newData
           | Some e \<Rightarrow>
               Returns (if e = EIncorrectData
                        then ret'\<lparr>Stderr := IncorrectDataText, Code := 1\<rparr> else ret', Some e))
      | Panics \<Rightarrow> Panics
      | Blocks \<Rightarrow> Blocks)"
  by pat_completeness auto
termination
  by (relation "measure (\<lambda>(_, _, _, data). length data)") (auto intro: parseData_shrinks)

declare parse_loop.simps [simp del]

definition parse_exit_code :: "run_result \<Rightarrow> bytes \<Rightarrow> go_error option \<Rightarrow> run_result" where
  "parse_exit_code ret data processErr =
     (if processErr = None \<and> data \<noteq> [] then ret\<lparr>Code := int (unat (hd data))\<rparr>
      else if errors_Is processErr EDeadlineExceeded then ret\<lparr>Code := 124\<rparr>
      else (if errors_Is processErr ELimitReached then ret\<lparr>Stderr := LimitReachedText\<rparr>
            else ret)\<lparr>Code := 1\<rparr>)"

definition trim_streams :: "run_result \<Rightarrow> int \<Rightarrow> run_result outcome" where
  "trim_streams ret streamMaxLength =
     (if int (length (Stdout ret)) + int (length (Stderr ret)) > streamMaxLength then
        (if int (length (Stdout ret)) > streamMaxLength then
           (if streamMaxLength < 0 then Panics
            else Returns (ret\<lparr>Stdout := take (nat streamMaxLength) (Stdout ret),
                              Stderr := LimitReachedText, Code := 1\<rparr>))
         else Returns (ret\<lparr>Stderr := LimitReachedText, Code := 1\<rparr>))
      else Returns ret)"

definition Parse ::
  "(bytes \<Rightarrow> http_response option) \<Rightarrow> (vtag \<Rightarrow> vfield \<Rightarrow> bool) \<Rightarrow> run_result \<Rightarrow> bytes \<Rightarrow> int
   \<Rightarrow> go_error option \<Rightarrow> (run_result \<times> go_error option) outcome" where
  "Parse unmarshal tag ret data streamMaxLength processErr =
     bind_outcome (parse_loop unmarshal tag (parse_exit_code ret data processErr) (tl data))
       (\<lambda>(ret', err). bind_outcome (trim_streams ret' streamMaxLength)
          (\<lambda>ret''. Returns (ret'', err)))"

section \<open>The frames the wrapper writes\<close>

text \<open>
  \<open>sendData\<close> writes one type byte, the length and the data. The exit code is written as
  the string \<open>String.fromCharCode(exitCode)\<close>, which a socket encodes as UTF-8: one byte
  below 128, more above. \<open>process.exitCode\<close> may be undefined, which is character 0.
\<close>

definition utf8_char :: "nat \<Rightarrow> bytes" where
  "utf8_char code =
     (let n = code mod 65536 in
      if n < 128 then [of_nat n]
      else if n < 2048 then [of_nat (192 + n div 64), of_nat (128 + n mod 64)]
      else if 55296 \<le> n \<and> n \<le> 57343 then [239, 191, 189]
      else [of_nat (224 + n div 4096), of_nat (128 + n div 64 mod 64), of_nat (128 + n mod 64)])"

definition sendData :: "u8 \<Rightarrow> bytes \<Rightarrow> bytes" where
  "sendData typ data = typ # le32 (of_nat (length data)) @ data"

definition sendResponse ::
  "nat option \<Rightarrow> bytes \<Rightarrow> bytes \<Rightarrow> (bytes \<times> bytes) option \<Rightarrow> bytes" where
  "sendResponse exitCode out err response =
     utf8_char (case exitCode of None \<Rightarrow> 0 | Some n \<Rightarrow> n)
     @ (if out \<noteq> [] then sendData StreamStdout out else [])
     @ (if err \<noteq> [] then sendData StreamStderr err else [])
     @ (case response of None \<Rightarrow> []
        | Some (header, content) \<Rightarrow> sendData StreamResponse header @ content)"

section \<open>Facts about single frames\<close>

lemma unat_frame_length:
  assumes "n + 5 < 2 ^ 32"
  shows "unat (of_nat n + 5 :: u32) = n + 5"
proof -
  have "of_nat n + 5 = (of_nat (n + 5) :: u32)" by simp
  then show ?thesis using assms by (simp only: unat_of_nat) simp
qed

lemma sendData_neq_Nil [simp]: "sendData typ d \<noteq> []"
  by (simp add: sendData_def)

lemma parseData_sendData:
  assumes "length d + 5 < 2 ^ 32"
  shows "parseData unmarshal tag ret (sendData typ d @ rest) =
     (if typ = StreamStdout then Returns (ret\<lparr>Stdout := d\<rparr>, rest, None)
      else if typ = StreamStderr then Returns (ret\<lparr>Stderr := d\<rparr>, rest, None)
      else if typ = StreamResponse then
        (case unmarshal d of
           None \<Rightarrow> Returns (ret, [], Some EIncorrectData)
         | Some res0 \<Rightarrow>
             if \<not> validate_Struct tag (res0\<lparr>Content := rest\<rparr>)
             then Returns (ret\<lparr>Stderr := ResponseValidationErrorText, Code := 1\<rparr>, rest, None)
             else Returns (ret\<lparr>Response := Some (res0\<lparr>Content := rest\<rparr>)\<rparr>, [], None))
      else Returns (ret, [], Some EIncorrectData))"
proof -
  let ?data = "typ # le32 (of_nat (length d)) @ d @ rest"
  have len: "of_le32 (take 4 (drop 1 ?data)) = of_nat (length d)" by simp
  have upto: "unat (of_nat (length d) + 5 :: u32) = length d + 5"
    using assms by (rule unat_frame_length)
  then have ge: "\<not> (of_nat (length d) + 5 :: u32) < 5"
    by (simp add: word_less_nat_alt)
  have out: "drop 5 (take (length d + 5) ?data) = d" "drop (length d + 5) ?data = rest"
    by (simp_all add: numeral_eq_Suc le32_def)
  show ?thesis
    using upto ge out unfolding sendData_def append_Cons append_assoc parseData_def
    by (simp only: Let_def len upto) (simp add: Let_def split: option.split)
qed

lemma parse_loop_Nil [simp]: "parse_loop unmarshal tag ret [] = Returns (ret, None)"
  by (simp add: parse_loop.simps)

lemma parse_loop_stdout:
  "length d + 5 < 2 ^ 32 \<Longrightarrow> parse_loop unmarshal tag ret (sendData StreamStdout d @ rest) =
     parse_loop unmarshal tag (ret\<lparr>Stdout := d\<rparr>) rest"
  by (subst parse_loop.simps) (simp add: parseData_sendData)

lemma parse_loop_stderr:
  "length d + 5 < 2 ^ 32 \<Longrightarrow> parse_loop unmarshal tag ret (sendData StreamStderr d @ rest) =
     parse_loop unmarshal tag (ret\<lparr>Stderr := d\<rparr>) rest"
  by (subst parse_loop.simps) (simp add: parseData_sendData stream_types)

lemma parse_loop_response:
  assumes "length d + 5 < 2 ^ 32" "unmarshal d = Some res0"
    "validate_Struct tag (res0\<lparr>Content := rest\<rparr>)"
  shows "parse_loop unmarshal tag ret (sendData StreamResponse d @ rest) =
     Returns (ret\<lparr>Response := Some (res0\<lparr>Content := rest\<rparr>)\<rparr>, None)"
  using assms
  by (subst parse_loop.simps) (simp add: parseData_sendData stream_types)

lemma parse_loop_invalid_response:
  assumes "length d + 5 < 2 ^ 32" "unmarshal d = Some res0"
    "\<not> validate_Struct tag (res0\<lparr>Content := rest\<rparr>)"
  shows "parse_loop unmarshal tag ret (sendData StreamResponse d @ rest) =
     parse_loop unmarshal tag (ret\<lparr>Stderr := ResponseValidationErrorText, Code := 1\<rparr>) rest"
  using assms
  by (subst parse_loop.simps) (simp add: parseData_sendData stream_types)

lemmas parse_loop_frames = parse_loop_stdout parse_loop_stderr parse_loop_response

lemma parseData_panics_iff:
  "parseData unmarshal tag ret data = Panics \<longleftrightarrow>
     5 \<le> length data \<and> 2 ^ 32 - 5 \<le> unat (of_le32 (take 4 (drop 1 data)))"
proof -
  let ?n = "of_le32 (take 4 (drop 1 data))"
  have bound: "unat ?n < 2 ^ 32" using unsigned_less [of ?n] by simp
  have sum: "unat (?n + 5) = (unat ?n + 5) mod 2 ^ 32"
    by (simp add: unat_word_ariths)
  have wrap: "?n + 5 < 5 \<longleftrightarrow> 2 ^ 32 - 5 \<le> unat ?n"
  proof (cases "unat ?n + 5 < 2 ^ 32")
    case True
    then have "unat (?n + 5) = unat ?n + 5" using sum by simp
    with True show ?thesis by (simp add: word_less_nat_alt)
  next
    case False
    then have "unat (?n + 5) = unat ?n + 5 - 2 ^ 32"
      using sum bound by (simp add: mod_nat_eqI)
    with False bound show ?thesis by (simp add: word_less_nat_alt)
  qed
  have small: "?n + 5 < 5 \<Longrightarrow> \<not> length data < unat (?n + 5)" if "5 \<le> length data"
    using that by (simp add: word_less_nat_alt)
  show ?thesis
  proof (cases "5 \<le> length data")
    case True
    have "parseData unmarshal tag ret data = Panics \<longleftrightarrow> ?n + 5 < 5"
      using True small [OF True] by (simp add: parseData_def Let_def split: option.split)
    with wrap True show ?thesis by simp
  next
    case False
    then show ?thesis by (simp add: parseData_def)
  qed
qed

lemma parseData_never_blocks: "parseData unmarshal tag ret data \<noteq> Blocks"
  by (simp add: parseData_def Let_def split: option.split)

section \<open>Facts about the whole parser\<close>

lemma trim_streams_bounds:
  assumes "trim_streams ret m = Returns r"
  shows "int (length (Stdout r)) \<le> m \<and> (int (length (Stdout r) + length (Stderr r)) \<le> m
     \<or> Stderr r = LimitReachedText \<and> Code r = 1)"
  using assms by (auto simp: trim_streams_def split: if_splits)

lemma trim_streams_id:
  "int (length (Stdout ret)) + int (length (Stderr ret)) \<le> m \<Longrightarrow> trim_streams ret m = Returns ret"
  by (simp add: trim_streams_def)

text \<open>The parser only ever installs a response that passed validation.\<close>

lemma parseData_response:
  assumes "parseData unmarshal tag ret data = Returns (ret', newData, err)"
    "Response ret' = Some res" "Response ret \<noteq> Some res"
  shows "validate_Struct tag res"
  using assms by (auto simp: parseData_def Let_def split: if_splits option.splits)

lemma parse_loop_response_valid:
  "parse_loop unmarshal tag ret data = Returns (ret', err) \<Longrightarrow> Response ret' = Some res \<Longrightarrow>
     Response ret = Some res \<or> validate_Struct tag res"
proof (induction unmarshal tag ret data rule: parse_loop.induct)
  case (1 unmarshal tag ret data)
  show ?case
  proof (cases "data = []")
    case True
    with "1.prems" show ?thesis by (simp add: parse_loop.simps [of unmarshal tag ret data])
  next
    case False
    with "1.prems"(1) obtain ret1 newData err1
      where pd: "parseData unmarshal tag ret data = Returns (ret1, newData, err1)"
      by (auto simp: parse_loop.simps [of unmarshal tag ret data] split: outcome.splits)
    have step: "Response ret1 = Some res \<Longrightarrow> Response ret = Some res \<or> validate_Struct tag res"
      using parseData_response [OF pd] by blast
    show ?thesis
    proof (cases err1)
      case None
      with False pd "1.prems"(1) have "parse_loop unmarshal tag ret1 newData = Returns (ret', err)"
        by (simp add: parse_loop.simps [of unmarshal tag ret data])
      from "1.IH" [OF False pd refl refl None this "1.prems"(2)] step show ?thesis by blast
    next
      case (Some e)
      with False pd "1.prems" have "Response ret1 = Some res"
        by (auto simp: parse_loop.simps [of unmarshal tag ret data] split: if_splits)
      with step show ?thesis by blast
    qed
  qed
qed

lemma headermap_loop_iff:
  "headermap_loop tag n m \<longleftrightarrow>
     n + sum_list (map (\<lambda>(k, v). 3 + length k + length v) m) \<le> 8192 \<and>
     (\<forall>(k, v) \<in> set m. validate_Var tag k 127 \<and> validate_Var tag v 4096)"
  if "n \<le> 8192"
  using that
proof (induction m arbitrary: n)
  case Nil
  then show ?case by simp
next
  case (Cons kv m)
  obtain k v where kv: "kv = (k, v)" by fastforce
  show ?case
  proof (cases "n + (3 + length k + length v) \<le> 8192")
    case True
    from Cons.IH [OF True] True show ?thesis
      by (auto simp: kv Let_def add.assoc)
  next
    case False
    then show ?thesis by (auto simp: kv Let_def)
  qed
qed

lemma validate_StructD:
  assumes "validator_documented tag" "validate_Struct tag res"
  shows "100 \<le> StatusCode res \<and> StatusCode res \<le> 599" "length (Headers res) \<le> 50"
    "printable (ContentType res) \<and> length (ContentType res) \<le> 255"
    "\<And>k v. (k, v) \<in> set (Headers res) \<Longrightarrow> printable k \<and> printable v \<and>
       length k \<le> 127 \<and> length v \<le> 4096"
    "sum_list (map (\<lambda>(k, v). 3 + length k + length v) (Headers res)) \<le> 8192"
proof -
  note doc = assms(1) [unfolded validator_documented_def]
  from assms show "100 \<le> StatusCode res \<and> StatusCode res \<le> 599" "length (Headers res) \<le> 50"
    "printable (ContentType res) \<and> length (ContentType res) \<le> 255"
    by (auto simp: validator_documented_def validate_Struct_def)
  from assms(2) have hm: "headermap_loop tag 0 (Headers res)"
    by (simp add: validate_Struct_def headermap_def)
  then show "sum_list (map (\<lambda>(k, v). 3 + length k + length v) (Headers res)) \<le> 8192"
    by (simp add: headermap_loop_iff)
  fix k v
  assume "(k, v) \<in> set (Headers res)"
  with hm have "validate_Var tag k 127" "validate_Var tag v 4096"
    by (auto simp: headermap_loop_iff)
  with doc show "printable k \<and> printable v \<and> length k \<le> 127 \<and> length v \<le> 4096"
    by (auto simp: validate_Var_def)
qed

text \<open>A byte that is no frame type ends the parsing, unless the length wraps.\<close>

lemma of_le32_low_byte: "unat (of_le32 bs) mod 256 = unat (bs ! 0)"
proof -
  have "take_bit 8 (of_le32 bs) = (ucast (bs ! 0) :: u32)"
    unfolding of_le32_def by (rule bit_word_eqI) (auto simp: bit_simps dest: bit_imp_le_length)
  then have "take_bit 8 (unat (of_le32 bs)) = unat (ucast (bs ! 0) :: u32)"
    by (metis unsigned_take_bit_eq)
  moreover have "unat (bs ! 0) < 256" using unsigned_less [of "bs ! 0"] by simp
  ultimately show ?thesis
    by (simp add: take_bit_eq_mod unsigned_ucast_eq)
qed

lemma mod_256_top:
  fixes n :: nat
  assumes "2 ^ 32 - 5 \<le> n" "n < 2 ^ 32"
  shows "251 \<le> n mod 256"
proof -
  have "n = (n - 4294967040) + 16777215 * 256" using assms by simp
  then have "n mod 256 = (n - 4294967040) mod 256" by (metis mod_mult_self1)
  with assms show ?thesis by simp
qed

lemma parseData_bad_type:
  assumes "hd data \<notin> {StreamStdout, StreamStderr, StreamResponse}"
    and "length data < 5 \<or> unat (data ! 1) < 251"
  shows "parseData unmarshal tag ret data = Returns (ret, [], Some EIncorrectData)"
proof -
  have "parseData unmarshal tag ret data \<noteq> Panics"
  proof
    assume "parseData unmarshal tag ret data = Panics"
    then have big: "5 \<le> length data" "2 ^ 32 - 5 \<le> unat (of_le32 (take 4 (drop 1 data)))"
      by (simp_all add: parseData_panics_iff)
    let ?n = "unat (of_le32 (take 4 (drop 1 data)))"
    have "take 4 (drop 1 data) ! 0 = data ! 1" using big(1) by simp
    with assms(2) big(1) have "?n mod 256 < 251" by (simp add: of_le32_low_byte)
    moreover have "?n < 2 ^ 32" using unsigned_less [of "of_le32 (take 4 (drop 1 data))"] by simp
    ultimately show False using mod_256_top [of ?n] big(2) by simp
  qed
  moreover have "hd data = data ! 0" if "data \<noteq> []" using that by (simp add: hd_conv_nth)
  ultimately show ?thesis
    using assms(1) by (cases data) (auto simp: parseData_def Let_def split: if_splits option.splits)
qed

lemma length_utf8_frames_first:
  assumes "rest = (if out \<noteq> [] then sendData StreamStdout out else [])
     @ (if err \<noteq> [] then sendData StreamStderr err else [])
     @ (case response of None \<Rightarrow> [] | Some (header, content) \<Rightarrow> sendData StreamResponse header @ content)"
  shows "rest = [] \<or> unat (rest ! 0) < 251"
  using assms by (auto simp: sendData_def stream_types split: option.splits prod.splits if_splits)

text \<open>An exit code of two UTF-8 bytes leaves a byte that is no frame type.\<close>

lemma utf8_char_small: "n < 128 \<Longrightarrow> utf8_char n = [of_nat n]"
  by (simp add: utf8_char_def)

lemma utf8_char_two:
  "128 \<le> n \<Longrightarrow> n < 2048 \<Longrightarrow> utf8_char n = [of_nat (192 + n div 64), of_nat (128 + n mod 64)]"
  by (simp add: utf8_char_def)

section \<open>Properties\<close>

text \<open>
  C4: what the wrapper writes the worker reads. For an exit code below 128, the frames of
  \<open>sendResponse\<close> (standard output, standard error, a custom response whose header decodes
  and validates, its content) parse without an error to exactly that code, those streams
  and that response, whenever the streams are within the limit.
\<close>

theorem parse_sendResponse:
  assumes "n < 128" and "length out + 5 < 2 ^ 32" and "length err + 5 < 2 ^ 32"
    and "length header + 5 < 2 ^ 32" and "int (length out + length err) \<le> m"
    and "Stdout ret = []" and "Stderr ret = []"
    and "unmarshal header = Some res" and "validate_Struct tag (res\<lparr>Content := content\<rparr>)"
  shows "Parse unmarshal tag ret (sendResponse (Some n) out err (Some (header, content))) m None =
    Returns (ret\<lparr>Code := int n, Stdout := out, Stderr := err,
                  Response := Some (res\<lparr>Content := content\<rparr>)\<rparr>, None)"
proof -
  have code: "parse_exit_code ret (of_nat n # rest) None = ret\<lparr>Code := int n\<rparr>" for rest
    using \<open>n < 128\<close> by (simp add: parse_exit_code_def unat_of_nat)
  have same: "ret\<lparr>Stdout := []\<rparr> = ret" "ret\<lparr>Stderr := []\<rparr> = ret"
    using assms(6,7) by (simp_all add: run_result.equality)
  show ?thesis
    using assms same
    by (simp add: Parse_def sendResponse_def utf8_char_small code parse_loop_frames
        trim_streams_def run_result.equality)
qed

theorem parse_sendResponse_witness:
  fixes unmarshal :: "bytes \<Rightarrow> http_response option"
  defines "unmarshal \<equiv> (\<lambda>bs. Some \<lparr>StatusCode = 200, ContentType = ''text/html'', Headers = [],
     Content = []\<rparr>)"
  shows "Parse unmarshal (\<lambda>_ _. True)
     \<lparr>ContainerID = ''c'', Code = 0, Stdout = [], Stderr = [], Response = None, Took = 0,
      Overhead = 0, Weight = 1, Cached = False\<rparr>
     (sendResponse (Some 3) [104, 105] [33] (Some ([123, 125], [60, 62]))) 1024 None =
   Returns (\<lparr>ContainerID = ''c'', Code = 3, Stdout = [104, 105], Stderr = [33],
      Response = Some \<lparr>StatusCode = 200, ContentType = ''text/html'', Headers = [],
        Content = [60, 62]\<rparr>, Took = 0, Overhead = 0, Weight = 1, Cached = False\<rparr>, None)"
  by (subst parse_sendResponse [where res = "\<lparr>StatusCode = 200, ContentType = ''text/html'',
        Headers = [], Content = []\<rparr>"])
    (simp_all add: unmarshal_def validate_Struct_def headermap_def)

text \<open>
  C21: the streams of a parsed result are bounded. Whatever the data and the limit, when
  the parser returns, standard output is at most the limit, and either both streams
  together are within the limit or standard error has been replaced by the fixed text and
  the exit code by 1.
\<close>

theorem parse_streams_bounded:
  assumes "Parse unmarshal tag ret data m processErr = Returns (r, e)"
  shows "int (length (Stdout r)) \<le> m \<and>
    (int (length (Stdout r) + length (Stderr r)) \<le> m \<or>
     Stderr r = LimitReachedText \<and> Code r = 1)"
proof -
  from assms obtain ret' where "trim_streams ret' m = Returns r"
    by (auto simp: Parse_def split: outcome.splits prod.splits elim!: bind_outcome_ReturnsE)
  then show ?thesis by (rule trim_streams_bounds)
qed

theorem parse_streams_bounded_witness:
  "(let r = \<lparr>ContainerID = ''c'', Code = 1, Stdout = [1, 2], Stderr = LimitReachedText,
      Response = None, Took = 0, Overhead = 0, Weight = 1, Cached = False\<rparr>
    in int (length (Stdout r)) \<le> 2 \<and> (int (length (Stdout r) + length (Stderr r)) \<le> 2 \<or>
       Stderr r = LimitReachedText \<and> Code r = 1))"
proof -
  have "Parse (\<lambda>_. None) (\<lambda>_ _. True)
     \<lparr>ContainerID = ''c'', Code = 0, Stdout = [1, 2, 3], Stderr = [4], Response = None, Took = 0,
      Overhead = 0, Weight = 1, Cached = False\<rparr> [7] 2 None =
    Returns (\<lparr>ContainerID = ''c'', Code = 1, Stdout = [1, 2], Stderr = LimitReachedText,
      Response = None, Took = 0, Overhead = 0, Weight = 1, Cached = False\<rparr>, None)"
    by (simp add: Parse_def parse_exit_code_def trim_streams_def numeral_eq_Suc)
  from parse_streams_bounded [OF this] show ?thesis by simp
qed

text \<open>
  C22: a custom response the parser accepts is safe to relay. If the result had no response
  before, a response after parsing has a status code between 100 and 599, a printable
  content type of at most 255 characters, at most 50 headers, each printable with a name
  of at most 127 and a value of at most 4096 characters, and together at most 8192 bytes
  (three more than name and value counted for each).
\<close>

theorem parse_response_valid:
  assumes "validator_documented tag" and "Response ret = None"
    and "Parse unmarshal tag ret data m processErr = Returns (r, e)"
    and "Response r = Some res"
  shows "100 \<le> StatusCode res \<and> StatusCode res \<le> 599 \<and>
    printable (ContentType res) \<and> length (ContentType res) \<le> 255 \<and>
    length (Headers res) \<le> 50 \<and>
    (\<forall>(k, v) \<in> set (Headers res). printable k \<and> printable v \<and> length k \<le> 127 \<and> length v \<le> 4096) \<and>
    sum_list (map (\<lambda>(k, v). 3 + length k + length v) (Headers res)) \<le> 8192"
proof -
  from assms(3) obtain ret' err where
    loop: "parse_loop unmarshal tag (parse_exit_code ret data processErr) (tl data) = Returns (ret', err)"
    and trim: "trim_streams ret' m = Returns r"
    by (auto simp: Parse_def elim!: bind_outcome_ReturnsE)
  have none: "Response (parse_exit_code ret data processErr) = None"
    using assms(2) by (simp add: parse_exit_code_def)
  from trim have "Response r = Response ret'"
    by (auto simp: trim_streams_def split: if_splits)
  with parse_loop_response_valid [OF loop, of res] none assms(4)
  have "validate_Struct tag res" by simp
  from validate_StructD [OF assms(1) this] show ?thesis by auto
qed

text \<open>The tags as their documentation has them, for the witnesses.\<close>

fun documented_tag :: "vtag \<Rightarrow> vfield \<Rightarrow> bool" where
  "documented_tag (TMin n) (FInt i) = (n \<le> i)"
| "documented_tag (TMax n) (FInt i) = (i \<le> n)"
| "documented_tag (TMax n) (FLen k) = (int k \<le> n)"
| "documented_tag (TMax n) (FStr s) = (int (length s) \<le> n)"
| "documented_tag TPrintASCII (FStr s) = printable s"
| "documented_tag (TContainsRune c) (FStr s) = (c \<in> set s)"
| "documented_tag _ _ = False"

lemma validator_documented_tag: "validator_documented documented_tag"
  by (simp add: validator_documented_def)

theorem parse_response_valid_witness:
  "length (Headers \<lparr>StatusCode = 200, ContentType = ''text/html'',
      Headers = [(''A'', ''b'')], Content = [60]\<rparr>) \<le> 50"
proof -
  let ?res = "\<lparr>StatusCode = 200, ContentType = ''text/html'', Headers = [(''A'', ''b'')],
     Content = [60]\<rparr>"
  let ?ret = "\<lparr>ContainerID = ''c'', Code = 0, Stdout = [], Stderr = [], Response = None, Took = 0,
      Overhead = 0, Weight = 1, Cached = False\<rparr>"
  have valid: "validate_Struct documented_tag ?res"
    by (simp add: validate_Struct_def headermap_def validate_Var_def printable_def)
  have "Parse (\<lambda>_. Some ?res) documented_tag ?ret (3 # sendData StreamResponse [123, 125] @ [60]) 10 None
     = Returns (?ret\<lparr>Code := 3, Response := Some ?res\<rparr>, None)"
    using valid by (simp add: Parse_def parse_exit_code_def trim_streams_def
        parse_loop_response [where ?res0.0 = ?res])
  from parse_response_valid [OF validator_documented_tag _ this] show ?thesis by simp
qed

text \<open>
  A frame that declares a length of at least \<open>2^32 - 5\<close> panics the worker. The sum
  \<open>dataLen + 5\<close> wraps below 5, passes the length check and is then the upper bound of a
  slice that starts at 5. The output comes from the script's own process.
\<close>

theorem parse_huge_frame_panics:
  assumes "6 \<le> length data" and "2 ^ 32 - 5 \<le> unat (of_le32 (take 4 (drop 2 data)))"
  shows "Parse unmarshal tag ret data m processErr = Panics"
proof -
  have "drop 1 (tl data) = drop 2 data" by (simp add: drop_Suc [symmetric] numeral_2_eq_2 drop_tl)
  with assms have "parseData unmarshal tag ret' (tl data) = Panics" for ret'
    by (simp add: parseData_panics_iff)
  moreover have "tl data \<noteq> []" using assms(1) by (cases data) auto
  ultimately show ?thesis
    by (simp add: Parse_def parse_loop.simps [of _ _ _ "tl data"])
qed

theorem parse_huge_frame_panics_witness:
  "Parse (\<lambda>_. None) (\<lambda>_ _. True)
     \<lparr>ContainerID = ''c'', Code = 0, Stdout = [], Stderr = [], Response = None, Took = 0, Overhead = 0,
      Weight = 1, Cached = False\<rparr> [0, 0, 255, 255, 255, 255] 1024 None = Panics"
  by (rule parse_huge_frame_panics) (simp_all add: of_le32_def)

text \<open>
  An exit code between 128 and 2047 is lost. The wrapper writes it as a two-byte UTF-8
  character, the parser takes the first byte for the code and the second for a frame
  type, and the run ends as malformed output with code 1, whatever else was written.
\<close>

theorem parse_wide_exit_code:
  assumes "128 \<le> n" and "n < 2048"
    and "Stdout ret = []" and "int (length IncorrectDataText) \<le> m"
  shows "\<exists>r. Parse unmarshal tag ret (sendResponse (Some n) out err response) m None =
      Returns (r, Some EIncorrectData) \<and> Code r = 1 \<and> Stderr r = IncorrectDataText"
proof -
  let ?rest = "(if out \<noteq> [] then sendData StreamStdout out else [])
     @ (if err \<noteq> [] then sendData StreamStderr err else [])
     @ (case response of None \<Rightarrow> [] | Some (header, content) \<Rightarrow> sendData StreamResponse header @ content)"
  define b where "b = (of_nat (128 + n mod 64) :: u8)"
  have data: "sendResponse (Some n) out err response = of_nat (192 + n div 64) # b # ?rest"
    using assms(1,2) by (simp add: sendResponse_def utf8_char_two b_def)
  have "unat b = 128 + n mod 64" unfolding b_def by (simp only: unat_of_nat) simp
  then have "b \<notin> {StreamStdout, StreamStderr, StreamResponse}"
    by (auto simp: stream_types)
  moreover have "length (b # ?rest) < 5 \<or> unat ((b # ?rest) ! 1) < 251"
    using length_utf8_frames_first [OF refl, of out err response] by auto
  ultimately have pd: "parseData unmarshal tag ret' (b # ?rest) = Returns (ret', [], Some EIncorrectData)"
    for ret' by (intro parseData_bad_type) simp_all
  have "parse_loop unmarshal tag ret' (b # ?rest) =
      Returns (ret'\<lparr>Stderr := IncorrectDataText, Code := 1\<rparr>, Some EIncorrectData)" for ret'
    by (simp add: parse_loop.simps [of _ _ _ "b # ?rest"] pd)
  then show ?thesis
    using assms(3,4) by (simp add: Parse_def data parse_exit_code_def trim_streams_def)
qed

theorem parse_wide_exit_code_witness:
  "\<exists>r. Parse (\<lambda>_. None) (\<lambda>_ _. True)
      \<lparr>ContainerID = ''c'', Code = 0, Stdout = [], Stderr = [], Response = None, Took = 0,
       Overhead = 0, Weight = 1, Cached = False\<rparr>
      (sendResponse (Some 137) [104] [] None) 1024 None =
      Returns (r, Some EIncorrectData) \<and> Code r = 1 \<and> Stderr r = IncorrectDataText"
  by (rule parse_wide_exit_code) (simp_all add: IncorrectDataText_def)

text \<open>
  The content of a response that fails validation is parsed as frames. The branch that
  has set the validation error returns the content as the rest of the data; one to four
  bytes of it are malformed, so the validation error is overwritten and an error returned.
\<close>

theorem parse_invalid_response_content:
  assumes "unmarshal header = Some res" and "\<not> validate_Struct tag (res\<lparr>Content := content\<rparr>)"
    and "length header + 5 < 2 ^ 32" and "content \<noteq> []" and "length content < 5"
    and "Stdout ret = []" and "int (length IncorrectDataText) \<le> m"
  shows "\<exists>r. Parse unmarshal tag ret (code # sendData StreamResponse header @ content) m None =
      Returns (r, Some EIncorrectData) \<and> Stderr r = IncorrectDataText"
proof -
  have rest: "parse_loop unmarshal tag ret' content =
      Returns (ret'\<lparr>Stderr := IncorrectDataText, Code := 1\<rparr>, Some EIncorrectData)" for ret'
    using assms(4,5) by (simp add: parse_loop.simps [of _ _ _ content] parseData_def)
  with parse_loop_invalid_response [where d = header and rest = content and ?res0.0 = res and unmarshal = unmarshal and tag = tag, OF assms(3,1,2)] assms(6,7) show ?thesis
    by (simp add: Parse_def parse_exit_code_def trim_streams_def)
qed

theorem parse_invalid_response_content_witness:
  "\<exists>r. Parse (\<lambda>_. Some \<lparr>StatusCode = 600, ContentType = ''text/html'', Headers = [], Content = []\<rparr>)
      documented_tag
      \<lparr>ContainerID = ''c'', Code = 0, Stdout = [], Stderr = [], Response = None, Took = 0,
       Overhead = 0, Weight = 1, Cached = False\<rparr>
      (0 # sendData StreamResponse [123, 125] @ [97, 98, 99]) 1024 None =
      Returns (r, Some EIncorrectData) \<and> Stderr r = IncorrectDataText"
  by (rule parse_invalid_response_content [where res = "\<lparr>StatusCode = 600, ContentType = ''text/html'',
        Headers = [], Content = []\<rparr>"])
    (simp_all add: validate_Struct_def IncorrectDataText_def)

end
