(* ===== verification/User_Cache.thy ===== *)
theory User_Cache
  imports Script_Result
begin

text \<open>
  The cache a script may use while it runs (app/script/user_cache.go): the commands GET and
  SET, read from the container's third stream, answered from redis. The redis client and
  the commands its Lua interpreter runs are arguments; the two Lua scripts are part of the
  source and are translated. A connection is its remaining input, what was written to it,
  and the error (if any) of each of the following writes.
\<close>

section \<open>Data\<close>

record cache_constraints =
  MaxKeyLen :: int
  MaxValueLen :: int
  CardinalityLimit :: int
  SizeLimit :: int
  DefaultTimeout :: int

definition DefaultUserCacheConstraints :: cache_constraints where
  "DefaultUserCacheConstraints =
     \<lparr>MaxKeyLen = 128, MaxValueLen = 5 * 2 ^ 20, CardinalityLimit = 50,
      SizeLimit = 25 * 2 ^ 20, DefaultTimeout = 24 * 3600 * 10 ^ 9\<rparr>"

definition sizeKey :: string where
  "sizeKey = ''__size__''"

record conn =
  inp :: bytes
  outp :: bytes
  write_errors :: "go_error option list"

definition conn_write :: "bytes \<Rightarrow> conn \<Rightarrow> unit result \<times> conn" where
  "conn_write b c =
     (case write_errors c of
        [] \<Rightarrow> (Inr (), c\<lparr>outp := outp c @ b\<rparr>)
      | None # es \<Rightarrow> (Inr (), c\<lparr>outp := outp c @ b, write_errors := es\<rparr>)
      | Some e # es \<Rightarrow> (Inl e, c\<lparr>write_errors := es\<rparr>))"

datatype redis_cmd =
    CmdEvalSha string "string list"
  | CmdZAdd string int string
  | CmdZAddXX string int string
  | CmdHSet string string bytes
  | CmdHIncrBy string string int
  | CmdExpire string int

datatype lua_script = PopCacheScript | DecrSizeScript

text \<open>The methods of the redis client the source calls, and the clock. The bytes of a value may
  come as a nil slice (\<open>None\<close>).\<close>

record 'w redis_client =
  rd_HGet :: "string \<Rightarrow> string \<Rightarrow> ('w, bytes option) eff"
  rd_Pipelined :: "redis_cmd list \<Rightarrow> ('w, unit) eff"
  rd_EvalSha :: "string \<Rightarrow> string list \<Rightarrow> int list \<Rightarrow> ('w, unit) eff"
  rd_ScriptLoad :: "lua_script \<Rightarrow> ('w, string) eff"
  rd_Now :: "'w \<Rightarrow> int"

record cache_globals =
  initOnceCache :: bool
  redisPopCacheSHA :: string
  redisDecrSizeSHA :: string

record user_cache =
  uc_userID :: string
  uc_constraints :: cache_constraints

section \<open>The Lua scripts\<close>

text \<open>
  Values of Lua as redis makes them (a missing field is \<open>false\<close>, an array is a table
  whose first index is 1), \<open>None\<close> for \<open>nil\<close>. \<open>redis.call\<close> raises an error when an
  argument is neither a string nor a number. What redis does for a command, and how Lua
  reads a number from a string, are arguments.
\<close>

datatype lua_value = LFalse | LNum int | LStr string | LTable "lua_value list"

record 'w lua =
  lua_redis :: "string list \<Rightarrow> ('w, lua_value) eff"
  lua_parse :: "string \<Rightarrow> int option"

definition lua_index :: "lua_value \<Rightarrow> nat \<Rightarrow> lua_value option result" where
  "lua_index v i =
     (case v of
        LTable xs \<Rightarrow> Inr (if 1 \<le> i \<and> i \<le> length xs then Some (xs ! (i - 1)) else None)
      | LStr _ \<Rightarrow> Inr None
      | _ \<Rightarrow> Inl (EOther ''attempt to index a value that is not a table''))"

definition tonumber :: "'w lua \<Rightarrow> lua_value \<Rightarrow> int option" where
  "tonumber L v = (case v of LNum n \<Rightarrow> Some n | LStr s \<Rightarrow> lua_parse L s | _ \<Rightarrow> None)"

fun lua_arg :: "lua_value option \<Rightarrow> string option" where
  "lua_arg (Some (LStr s)) = Some s"
| "lua_arg (Some (LNum n)) = Some (show_int n)"
| "lua_arg _ = None"

definition lua_bad_argument :: go_error where
  "lua_bad_argument = EOther ''Lua redis() command arguments must be strings or integers''"

definition lua_call :: "'w lua \<Rightarrow> string option list \<Rightarrow> ('w, lua_value) eff" where
  "lua_call L args =
     (if None \<in> set args then eff_fail lua_bad_argument else lua_redis L (map the args))"

text \<open>
  The body both branches of the pop script share: pop the oldest member, look up the length
  of its value, drop the field, lower the counter. The script indexes the reply with 0.
\<close>

definition pop_oldest :: "'w lua \<Rightarrow> string \<Rightarrow> string \<Rightarrow> ('w, unit) eff" where
  "pop_oldest L zset hset =
     eff_bind (lua_call L [Some ''ZPOPMIN'', Some zset]) (\<lambda>ele.
     case lua_index ele 0 of
       Inl e \<Rightarrow> eff_fail e
     | Inr el \<Rightarrow>
         eff_bind (lua_call L [Some ''HSTRLEN'', Some hset, lua_arg el]) (\<lambda>len.
         eff_bind (lua_call L [Some ''HDEL'', Some hset, lua_arg el]) (\<lambda>_.
         eff_bind (lua_call L [Some ''HDECRBY'', Some hset, Some sizeKey,
                               map_option show_int (tonumber L len)]) (\<lambda>_.
         eff_return ()))))"

text \<open>
  \<open>while size > sl do ... end\<close>: the body does not change \<open>size\<close>, so the loop ends only
  with an error. \<open>None\<close> is a loop that does not end.
\<close>

partial_function (option) pop_loop ::
  "'w lua \<Rightarrow> string \<Rightarrow> string \<Rightarrow> int \<Rightarrow> int \<Rightarrow> 'w \<Rightarrow> (unit result \<times> 'w) option" where
  "pop_loop L zset hset sz sl w =
     (if sl < sz then
        (case pop_oldest L zset hset w of
           (Inl e, w1) \<Rightarrow> Some (Inl e, w1)
         | (Inr _, w1) \<Rightarrow> pop_loop L zset hset sz sl w1)
      else Some (Inr (), w))"

definition redisPopCacheScript ::
  "'w lua \<Rightarrow> string \<Rightarrow> string \<Rightarrow> int \<Rightarrow> int \<Rightarrow> 'w \<Rightarrow> (unit result \<times> 'w) option" where
  "redisPopCacheScript L zset hset cl sl w =
     (case eff_bind (lua_call L [Some ''ZCARD'', Some zset]) (\<lambda>crd.
           eff_bind (lua_call L [Some ''HGET'', Some hset, Some sizeKey]) (\<lambda>sz.
           eff_return (crd, tonumber L sz))) w of
        (Inl e, w1) \<Rightarrow> Some (Inl e, w1)
      | (Inr (crd, sz), w1) \<Rightarrow>
          (if (case sz of None \<Rightarrow> False | Some n \<Rightarrow> sl < n)
           then pop_loop L zset hset (the sz) sl w1
           else (case crd of
                   LNum n \<Rightarrow> if cl < n then Some (pop_oldest L zset hset w1)
                             else Some (Inr (), w1)
                 | _ \<Rightarrow> Some (Inl (EOther ''attempt to compare''), w1))))"

definition redisDecrSizeScript :: "'w lua \<Rightarrow> string \<Rightarrow> string \<Rightarrow> ('w, lua_value) eff" where
  "redisDecrSizeScript L hset key =
     eff_bind (lua_call L [Some ''HSTRLEN'', Some hset, Some key]) (\<lambda>r.
     case tonumber L r of
       None \<Rightarrow> eff_return (LNum 13)
     | Some l \<Rightarrow>
         if 0 < l
         then lua_call L [Some ''HINCRBY'', Some hset, Some sizeKey, Some (show_int (- l))]
         else eff_return (LNum 13))"

section \<open>Operations\<close>

text \<open>
  \<open>NewUserCache\<close>: the first call of the process loads the scripts, and \<open>util.Must\<close> panics
  when that fails (\<open>sync.Once\<close> counts the call all the same). \<open>merge\<close> is mergo's.
\<close>

definition NewUserCache ::
  "(cache_constraints \<Rightarrow> cache_constraints \<Rightarrow> cache_constraints) \<Rightarrow> 'w redis_client
   \<Rightarrow> string \<Rightarrow> cache_constraints option \<Rightarrow> cache_globals \<Rightarrow> 'w
   \<Rightarrow> (user_cache \<times> cache_globals \<times> 'w) outcome" where
  "NewUserCache merge rd userID constr g w =
     (let uc = \<lparr>uc_userID = userID,
                uc_constraints = (case constr of None \<Rightarrow> DefaultUserCacheConstraints
                                  | Some c \<Rightarrow> merge DefaultUserCacheConstraints c)\<rparr>
      in if initOnceCache g then Returns (uc, g, w)
         else (case rd_ScriptLoad rd PopCacheScript w of
                 (Inl _, _) \<Rightarrow> Panics
               | (Inr pop, w1) \<Rightarrow>
                   (case rd_ScriptLoad rd DecrSizeScript w1 of
                      (Inl _, _) \<Rightarrow> Panics
                    | (Inr decr, w2) \<Rightarrow>
                        Returns (uc, \<lparr>initOnceCache = True, redisPopCacheSHA = pop,
                                      redisDecrSizeSHA = decr\<rparr>, w2))))"

text \<open>The state of a cache's loop is the connection and the state of redis.\<close>

definition on_conn :: "(conn \<Rightarrow> 'a result \<times> conn) \<Rightarrow> (conn \<times> 'w, 'a) eff" where
  "on_conn f = (\<lambda>(c, w). let (r, c') = f c in (r, (c', w)))"

definition on_redis :: "('w, 'a) eff \<Rightarrow> (conn \<times> 'w, 'a) eff" where
  "on_redis f = (\<lambda>(c, w). let (r, w') = f w in (r, (c, w')))"

definition conn_read_u32 :: "(conn \<times> 'w, u32) eff" where
  "conn_read_u32 = on_conn (\<lambda>c. let (r, rest) = read_u32 (inp c) in (r, c\<lparr>inp := rest\<rparr>))"

definition conn_read_full :: "nat \<Rightarrow> (conn \<times> 'w, bytes) eff" where
  "conn_read_full n = on_conn (\<lambda>c. let (r, rest) = read_full n (inp c) in (r, c\<lparr>inp := rest\<rparr>))"

definition readPart :: "int \<Rightarrow> (conn \<times> 'w, bytes) eff" where
  "readPart maxLen =
     eff_bind conn_read_u32 (\<lambda>l.
     if 0 < maxLen \<and> word_of_int maxLen < l then eff_fail ELengthExceeded
     else conn_read_full (unat l))"

text \<open>\<open>if err == errLengthExceeded { return ..., other }\<close>\<close>

definition on_length_exceeded :: "go_error \<Rightarrow> ('s, 'a) eff \<Rightarrow> ('s, 'a) eff" where
  "on_length_exceeded other m =
     eff_case m (\<lambda>e. eff_fail (if e = ELengthExceeded then other else e)) eff_return"

definition readCommand :: "(conn \<times> 'w, bytes) eff" where
  "readCommand =
     eff_bind (on_length_exceeded ECacheKeyLengthExceeded (readPart 3)) (\<lambda>cmd.
     if length cmd < 3 \<or> 3 < length cmd then eff_fail ECacheCommandUnrecognized
     else eff_return cmd)"

definition readKey :: "user_cache \<Rightarrow> (conn \<times> 'w, bytes) eff" where
  "readKey uc = on_length_exceeded ECacheKeyLengthExceeded (readPart (MaxKeyLen (uc_constraints uc)))"

definition readValue :: "user_cache \<Rightarrow> (conn \<times> 'w, bytes) eff" where
  "readValue uc =
     on_length_exceeded ECacheKeyLengthExceeded (readPart (MaxValueLen (uc_constraints uc)))"

definition cacheZSet :: "user_cache \<Rightarrow> string" where
  "cacheZSet uc = uc_userID uc @ '':user_cache:zset''"

definition cacheHSet :: "user_cache \<Rightarrow> string" where
  "cacheHSet uc = uc_userID uc @ '':user_cache:hset''"

definition cacheKey :: "bytes \<Rightarrow> string" where
  "cacheKey key = (if string_of_bytes key = sizeKey then sizeKey @ ''_'' else string_of_bytes key)"

text \<open>\<open>send\<close>: the length counts itself; \<open>None\<close> is the nil slice.\<close>

definition send :: "bytes option \<Rightarrow> (conn \<times> 'w, unit) eff" where
  "send data =
     (case data of
        None \<Rightarrow> on_conn (conn_write (le32 (word_of_int (- 1))))
      | Some d \<Rightarrow>
          eff_bind (on_conn (conn_write (le32 (of_nat (length d + 4))))) (\<lambda>_.
          if d = [] then eff_return () else on_conn (conn_write d)))"

text \<open>\<open>fmt.Errorf(msg + ": %w", err)\<close>\<close>

definition wrap_error :: "string \<Rightarrow> ('s, 'a) eff \<Rightarrow> ('s, 'a) eff" where
  "wrap_error msg m = eff_case m (\<lambda>e. eff_fail (EWrap msg e)) eff_return"

definition get_touch :: "user_cache \<Rightarrow> string \<Rightarrow> int \<Rightarrow> redis_cmd list" where
  "get_touch uc storKey now =
     [CmdZAddXX (cacheZSet uc) now storKey,
      CmdExpire (cacheHSet uc) (DefaultTimeout (uc_constraints uc)),
      CmdExpire (cacheZSet uc) (DefaultTimeout (uc_constraints uc))]"

definition processGET :: "'w redis_client \<Rightarrow> user_cache \<Rightarrow> u32 \<Rightarrow> (conn \<times> 'w, unit) eff" where
  "processGET rd uc parts =
     (if parts \<noteq> 2 then eff_fail ECacheCommandMalformed
      else eff_bind (readKey uc) (\<lambda>key.
        eff_case (on_redis (rd_HGet rd (cacheHSet uc) (cacheKey key)))
          (\<lambda>err. if err = ERedisNil then send None else eff_fail err)
          (\<lambda>ret.
            eff_bind (wrap_error ''user cache get error''
              (on_redis (\<lambda>w. rd_Pipelined rd (get_touch uc (cacheKey key) (rd_Now rd w)) w)))
              (\<lambda>_. send ret))))"

definition set_commands ::
  "cache_globals \<Rightarrow> user_cache \<Rightarrow> string \<Rightarrow> bytes \<Rightarrow> int \<Rightarrow> redis_cmd list" where
  "set_commands g uc storKey val now =
     [CmdEvalSha (redisDecrSizeSHA g) [cacheHSet uc, storKey],
      CmdZAdd (cacheZSet uc) now storKey,
      CmdHSet (cacheHSet uc) storKey val,
      CmdHIncrBy (cacheHSet uc) sizeKey (int (length val)),
      CmdExpire (cacheHSet uc) (DefaultTimeout (uc_constraints uc)),
      CmdExpire (cacheZSet uc) (DefaultTimeout (uc_constraints uc))]"

definition processSET ::
  "cache_globals \<Rightarrow> 'w redis_client \<Rightarrow> user_cache \<Rightarrow> u32 \<Rightarrow> (conn \<times> 'w, unit) eff" where
  "processSET g rd uc parts =
     (if parts \<noteq> 3 then eff_fail ECacheCommandMalformed
      else eff_bind (readKey uc) (\<lambda>key.
           eff_bind (readValue uc) (\<lambda>val.
           eff_bind (wrap_error ''user cache set error''
             (on_redis (\<lambda>w. rd_Pipelined rd (set_commands g uc (cacheKey key) val (rd_Now rd w)) w)))
             (\<lambda>_.
           eff_bind (wrap_error ''user cache eval error''
             (on_redis (rd_EvalSha rd (redisPopCacheSHA g) [cacheZSet uc, cacheHSet uc]
                [CardinalityLimit (uc_constraints uc), SizeLimit (uc_constraints uc)])))
             (\<lambda>_. send (Some (bytes_of_string ''OK'')))))))"

text \<open>
  One turn of the loop of \<open>Process\<close>. A command of three letters that is neither GET nor
  SET falls through the switch and changes nothing.
\<close>

definition process_command ::
  "cache_globals \<Rightarrow> 'w redis_client \<Rightarrow> user_cache \<Rightarrow> (conn \<times> 'w, unit) eff" where
  "process_command g rd uc =
     eff_bind conn_read_u32 (\<lambda>parts.
     if parts = 0 then eff_fail ECacheCommandUnrecognized
     else eff_bind readCommand (\<lambda>cmd.
       if string_of_bytes cmd = ''GET'' then processGET rd uc parts
       else if string_of_bytes cmd = ''SET'' then processSET g rd uc parts
       else eff_return ()))"

section \<open>The loop ends\<close>

text \<open>No step gives input back, and each turn of the loop reads at least four bytes.\<close>

definition shrinks :: "(conn \<times> 'w, 'a) eff \<Rightarrow> bool" where
  "shrinks m \<longleftrightarrow> (\<forall>s. length (inp (fst (snd (m s)))) \<le> length (inp (fst s)))"

lemma shrinksD: "shrinks m \<Longrightarrow> m s = (r, s') \<Longrightarrow> length (inp (fst s')) \<le> length (inp (fst s))"
  unfolding shrinks_def by (metis snd_conv)

lemma shrinks_case [intro!]:
  assumes "shrinks m" "\<And>e. shrinks (h e)" "\<And>x. shrinks (f x)"
  shows "shrinks (eff_case m h f)"
  unfolding shrinks_def
proof
  fix s
  obtain r1 s1 where m: "m s = (r1, s1)" by (cases "m s")
  have "length (inp (fst (snd (eff_case m h f s)))) \<le> length (inp (fst s1))"
    using assms(2,3) m unfolding shrinks_def
    by (cases r1) (simp_all del: split_paired_All)
  with shrinksD [OF assms(1) m]
  show "length (inp (fst (snd (eff_case m h f s)))) \<le> length (inp (fst s))" by simp
qed

lemma shrinks_return [intro]: "shrinks (eff_return x)"
  by (simp add: shrinks_def)

lemma shrinks_fail [intro]: "shrinks (eff_fail e)"
  by (simp add: shrinks_def)

lemma shrinks_bind [intro!]:
  "shrinks m \<Longrightarrow> (\<And>x. shrinks (f x)) \<Longrightarrow> shrinks (eff_bind m f)"
  unfolding eff_bind_eq_case by (intro shrinks_case shrinks_fail)

lemma shrinks_redis [intro]: "shrinks (on_redis f)"
  by (auto simp: shrinks_def on_redis_def split: prod.splits)

lemma conn_write_inp [simp]: "inp (snd (conn_write b c)) = inp c"
  by (simp add: conn_write_def split: list.split option.split)

lemma shrinks_write [intro]: "shrinks (on_conn (conn_write b))"
  by (auto simp: shrinks_def on_conn_def case_prod_unfold Let_def)

lemma shrinks_read_u32 [intro]: "shrinks conn_read_u32"
  by (auto simp: shrinks_def conn_read_u32_def on_conn_def dest: read_u32_shrinks split: prod.splits)

lemma shrinks_read_full [intro]: "shrinks (conn_read_full n)"
  by (auto simp: shrinks_def conn_read_full_def on_conn_def dest: read_full_shrinks split: prod.splits)

lemma shrinks_length_exceeded [intro]: "shrinks m \<Longrightarrow> shrinks (on_length_exceeded e m)"
  unfolding on_length_exceeded_def by auto

lemma shrinks_wrap [intro]: "shrinks m \<Longrightarrow> shrinks (wrap_error msg m)"
  unfolding wrap_error_def by auto

lemma shrinks_readPart [intro]: "shrinks (readPart n)"
  unfolding readPart_def by auto

lemma shrinks_readers [intro]: "shrinks readCommand" "shrinks (readKey uc)" "shrinks (readValue uc)"
  unfolding readCommand_def readKey_def readValue_def by auto

lemma shrinks_send [intro]: "shrinks (send d)"
  unfolding send_def by (auto split: option.split)

lemma shrinks_GET: "shrinks (processGET rd uc parts)"
  unfolding processGET_def by auto

lemma shrinks_SET: "shrinks (processSET g rd uc parts)"
  unfolding processSET_def by auto

lemma process_command_consumes:
  assumes "process_command g rd uc s = (Inr u, s')"
  shows "length (inp (fst s')) < length (inp (fst s))"
proof -
  obtain c w where s: "s = (c, w)" by force
  from assms obtain parts s1 where r: "conn_read_u32 s = (Inr parts, s1)"
    and rest: "(if parts = 0 then eff_fail ECacheCommandUnrecognized
       else eff_bind readCommand (\<lambda>cmd.
         if string_of_bytes cmd = ''GET'' then processGET rd uc parts
         else if string_of_bytes cmd = ''SET'' then processSET g rd uc parts
         else eff_return ())) s1 = (Inr u, s')"
    unfolding process_command_def by (rule eff_bind_InrE)
  from r have "length (inp (fst s)) = length (inp (fst s1)) + 4"
    by (auto simp: s conn_read_u32_def on_conn_def dest: read_u32_InrD split: prod.splits)
  moreover have "shrinks (if parts = 0 then eff_fail ECacheCommandUnrecognized
       else eff_bind readCommand (\<lambda>cmd.
         if string_of_bytes cmd = ''GET'' then processGET rd uc parts
         else if string_of_bytes cmd = ''SET'' then processSET g rd uc parts
         else eff_return ()))"
    by (auto intro: shrinks_GET shrinks_SET)
  from shrinksD [OF this rest] have "length (inp (fst s')) \<le> length (inp (fst s1))" .
  ultimately show ?thesis by simp
qed

text \<open>\<open>Process\<close> ends only with an error, as the source has it.\<close>

function Process ::
  "cache_globals \<Rightarrow> 'w redis_client \<Rightarrow> user_cache \<Rightarrow> conn \<times> 'w \<Rightarrow> go_error \<times> conn \<times> 'w" where
  "Process g rd uc s =
     (case process_command g rd uc s of
        (Inl err, s') \<Rightarrow> (err, s')
      | (Inr _, s') \<Rightarrow> Process g rd uc s')"
  by pat_completeness auto
termination
  by (relation "measure (\<lambda>(g, rd, uc, s). length (inp (fst s)))")
    (auto dest: process_command_consumes [OF sym])

declare Process.simps [simp del]

section \<open>Requests and replies\<close>

text \<open>
  What the client in the container writes, \<open>Cache._sendCommand\<close> of assets/wrappers/node.js:
  the number of parts, then each part with its length in front; and what it gets back.
\<close>

definition cache_part :: "bytes \<Rightarrow> bytes" where
  "cache_part b = le32 (of_nat (length b)) @ b"

definition sendCommand :: "bytes list \<Rightarrow> bytes" where
  "sendCommand cmdArray = le32 (of_nat (length cmdArray)) @ concat (map cache_part cmdArray)"

definition cache_set :: "bytes \<Rightarrow> bytes \<Rightarrow> bytes" where
  "cache_set k v = sendCommand [bytes_of_string ''SET'', k, v]"

definition cache_get :: "bytes \<Rightarrow> bytes" where
  "cache_get k = sendCommand [bytes_of_string ''GET'', k]"

definition cache_reply :: "bytes \<Rightarrow> bytes" where
  "cache_reply d = le32 (of_nat (length d + 4)) @ d"

definition fits :: "nat \<Rightarrow> int \<Rightarrow> bool" where
  "fits n maxLen \<longleftrightarrow> n < 2 ^ 32 \<and> (0 < maxLen \<longrightarrow> int n \<le> maxLen \<and> maxLen < 2 ^ 32)"

lemma on_conn_eq: "f c = (r, c') \<Longrightarrow> on_conn f (c, w) = (r, c', w)"
  by (simp add: on_conn_def)

lemma conn_read_u32_le32:
  "inp c = le32 n @ rest \<Longrightarrow> conn_read_u32 (c, w) = (Inr n, c\<lparr>inp := rest\<rparr>, w)"
  by (simp add: conn_read_u32_def on_conn_def)

lemma conn_read_full_append:
  "inp c = b @ rest \<Longrightarrow> length b = n \<Longrightarrow> conn_read_full n (c, w) = (Inr b, c\<lparr>inp := rest\<rparr>, w)"
  by (simp add: conn_read_full_def on_conn_def)

lemma conn_read_u32_Nil: "inp c = [] \<Longrightarrow> conn_read_u32 (c, w) = (Inl EEOF, c, w)"
  by (simp add: conn_read_u32_def on_conn_def read_u32_def read_full_def)

lemma fits_not_less:
  assumes "fits n maxLen" "0 < maxLen"
  shows "\<not> (word_of_int maxLen :: u32) < of_nat n"
proof -
  from assms have n: "n < 2 ^ 32" "int n \<le> maxLen" "maxLen < 2 ^ 32" by (auto simp: fits_def)
  then have "uint (of_nat n :: u32) = int n" "uint (word_of_int maxLen :: u32) = maxLen"
    using assms(2) by (simp_all add: unsigned_of_nat unsigned_of_int take_bit_nat_eq_self take_bit_int_eq_self)
  with n show ?thesis by (simp add: word_less_def)
qed

lemma fits_unat: "fits n maxLen \<Longrightarrow> unat (of_nat n :: u32) = n"
  by (simp add: fits_def unat_of_nat)

lemma readPart_fits:
  assumes "fits (length b) maxLen" "inp c = cache_part b @ rest"
  shows "readPart maxLen (c, w) = (Inr b, c\<lparr>inp := rest\<rparr>, w)"
proof -
  have "conn_read_u32 (c, w) = (Inr (of_nat (length b)), c\<lparr>inp := b @ rest\<rparr>, w)"
    using assms(2) by (intro conn_read_u32_le32) (simp add: cache_part_def)
  moreover have "conn_read_full (unat (of_nat (length b) :: u32)) (c\<lparr>inp := b @ rest\<rparr>, w)
    = (Inr b, c\<lparr>inp := rest\<rparr>, w)"
    using fits_unat [OF assms(1)] by (subst conn_read_full_append) auto
  ultimately show ?thesis
    using fits_not_less [OF assms(1)] by (auto simp: readPart_def)
qed

text \<open>A part above the limit is refused after its length was read.\<close>

lemma readPart_exceeds:
  assumes "0 < maxLen" "maxLen < int (length b)" "length b < 2 ^ 32" "inp c = cache_part b @ rest"
  shows "readPart maxLen (c, w) = (Inl ELengthExceeded, c\<lparr>inp := b @ rest\<rparr>, w)"
proof -
  have "conn_read_u32 (c, w) = (Inr (of_nat (length b)), c\<lparr>inp := b @ rest\<rparr>, w)"
    using assms(4) by (intro conn_read_u32_le32) (simp add: cache_part_def)
  moreover have "(word_of_int maxLen :: u32) < of_nat (length b)"
    using assms(1-3)
    by (simp add: word_less_def unsigned_of_nat unsigned_of_int take_bit_nat_eq_self take_bit_int_eq_self)
  ultimately show ?thesis using assms(1) by (simp add: readPart_def)
qed

lemma readKey_fits:
  assumes "fits (length k) (MaxKeyLen (uc_constraints uc))" "inp c = cache_part k @ rest"
  shows "readKey uc (c, w) = (Inr k, c\<lparr>inp := rest\<rparr>, w)"
  using readPart_fits [OF assms, of w] by (simp add: readKey_def on_length_exceeded_def)

lemma readValue_fits:
  assumes "fits (length v) (MaxValueLen (uc_constraints uc))" "inp c = cache_part v @ rest"
  shows "readValue uc (c, w) = (Inr v, c\<lparr>inp := rest\<rparr>, w)"
  using readPart_fits [OF assms, of w] by (simp add: readValue_def on_length_exceeded_def)

lemma readCommand_fits:
  assumes "length cmd = 3" "inp c = cache_part cmd @ rest"
  shows "readCommand (c, w) = (Inr cmd, c\<lparr>inp := rest\<rparr>, w)"
proof -
  have "readPart 3 (c, w) = (Inr cmd, c\<lparr>inp := rest\<rparr>, w)"
    by (rule readPart_fits) (use assms in \<open>simp_all add: fits_def\<close>)
  with assms(1) show ?thesis by (simp add: readCommand_def on_length_exceeded_def)
qed

lemma send_ok:
  assumes "write_errors c = []"
  shows "send (Some d) (c, w) = (Inr (), c\<lparr>outp := outp c @ cache_reply d\<rparr>, w)"
  using assms by (simp add: send_def on_conn_def conn_write_def cache_reply_def eff_bind_def)

section \<open>Redis\<close>

text \<open>
  What is relied on of redis, with \<open>hval w h k\<close> the value of field \<open>k\<close> of the hash \<open>h\<close> in the
  state \<open>w\<close>: the server answers, HGET returns the value of the field (the nil reply when
  there is none, and possibly a nil slice for an empty value) and changes no value; a
  pipeline changes the fields other than the counter exactly as its HSET commands say.
\<close>

fun hset_effect :: "redis_cmd \<Rightarrow> (string \<Rightarrow> string \<Rightarrow> bytes option) \<Rightarrow> string \<Rightarrow> string \<Rightarrow> bytes option" where
  "hset_effect (CmdHSet h k v) m = m(h := (m h)(k := Some v))"
| "hset_effect _ m = m"

definition redis_keeps ::
  "'w redis_client \<Rightarrow> ('w \<Rightarrow> string \<Rightarrow> string \<Rightarrow> bytes option) \<Rightarrow> bool" where
  "redis_keeps rd hval \<longleftrightarrow>
     (\<forall>w h k. case rd_HGet rd h k w of (r, w') \<Rightarrow> hval w' = hval w \<and>
        (case hval w h k of
           None \<Rightarrow> r = Inl ERedisNil
         | Some v \<Rightarrow> r = Inr (Some v) \<or> v = [] \<and> r = Inr None)) \<and>
     (\<forall>cmds w. case rd_Pipelined rd cmds w of (r, w') \<Rightarrow> r = Inr () \<and>
        (\<forall>h k. k \<noteq> sizeKey \<longrightarrow> hval w' h k = fold hset_effect cmds (hval w) h k))"

text \<open>The pop script finds nothing to drop: it succeeds and keeps every value.\<close>

definition pop_idle ::
  "cache_globals \<Rightarrow> 'w redis_client \<Rightarrow> user_cache \<Rightarrow> ('w \<Rightarrow> string \<Rightarrow> string \<Rightarrow> bytes option) \<Rightarrow> bool" where
  "pop_idle g rd uc hval \<longleftrightarrow>
     (\<forall>w. case rd_EvalSha rd (redisPopCacheSHA g) [cacheZSet uc, cacheHSet uc]
            [CardinalityLimit (uc_constraints uc), SizeLimit (uc_constraints uc)] w of
        (r, w') \<Rightarrow> r = Inr () \<and> hval w' = hval w)"

lemma cacheKey_neq_sizeKey [simp]: "cacheKey k \<noteq> sizeKey"
  by (simp add: cacheKey_def sizeKey_def)

text \<open>The escape of the counter's name is itself a key a script may use: these two meet.\<close>

lemma cacheKey_eq_iff:
  "cacheKey k = cacheKey k' \<longleftrightarrow>
     k = k' \<or> {string_of_bytes k, string_of_bytes k'} = {sizeKey, sizeKey @ ''_''}"
  using string_of_bytes_inject [of k k']
  by (auto simp: cacheKey_def doubleton_eq_iff)

lemma redis_keeps_HGet:
  assumes "redis_keeps rd hval" "hval w h k = Some v" "v \<noteq> []"
  obtains w' where "rd_HGet rd h k w = (Inr (Some v), w')" "hval w' = hval w"
proof -
  obtain r w' where r: "rd_HGet rd h k w = (r, w')" by force
  with assms have "hval w' = hval w" "r = Inr (Some v)"
    unfolding redis_keeps_def by (force split: prod.splits)+
  with r that show thesis by blast
qed

lemma redis_keeps_Pipelined:
  assumes "redis_keeps rd hval"
  obtains w' where "rd_Pipelined rd cmds w = (Inr (), w')"
    "\<And>h k. k \<noteq> sizeKey \<Longrightarrow> hval w' h k = fold hset_effect cmds (hval w) h k"
proof -
  obtain r w' where r: "rd_Pipelined rd cmds w = (r, w')" by force
  with assms have "r = Inr ()" "\<And>h k. k \<noteq> sizeKey \<Longrightarrow> hval w' h k = fold hset_effect cmds (hval w) h k"
    unfolding redis_keeps_def by (force split: prod.splits)+
  with r that show thesis by blast
qed

lemma pop_idle_EvalSha:
  assumes "pop_idle g rd uc hval"
  obtains w' where "rd_EvalSha rd (redisPopCacheSHA g) [cacheZSet uc, cacheHSet uc]
       [CardinalityLimit (uc_constraints uc), SizeLimit (uc_constraints uc)] w = (Inr (), w')"
    "hval w' = hval w"
  using assms [unfolded pop_idle_def, rule_format, of w] that by (force split: prod.splits)

lemma process_SET_step:
  assumes "inp c = cache_set k v @ rest"
    and "fits (length k) (MaxKeyLen (uc_constraints uc))"
    and "fits (length v) (MaxValueLen (uc_constraints uc))"
    and "rd_Pipelined rd (set_commands g uc (cacheKey k) v (rd_Now rd w)) w = (Inr (), w1)"
    and "rd_EvalSha rd (redisPopCacheSHA g) [cacheZSet uc, cacheHSet uc]
       [CardinalityLimit (uc_constraints uc), SizeLimit (uc_constraints uc)] w1 = (r, w2)"
  shows "process_command g rd uc (c, w) =
    (case r of
       Inl e \<Rightarrow> (Inl (EWrap ''user cache eval error'' e), c\<lparr>inp := rest\<rparr>, w2)
     | Inr _ \<Rightarrow> send (Some (bytes_of_string ''OK'')) (c\<lparr>inp := rest\<rparr>, w2))"
proof -
  let ?SET = "bytes_of_string ''SET''"
  have inp: "inp c = le32 3 @ cache_part ?SET @ cache_part k @ cache_part v @ rest"
    using assms(1) by (simp add: cache_set_def sendCommand_def)
  have 1: "conn_read_u32 (c, w) = (Inr 3, c\<lparr>inp := cache_part ?SET @ cache_part k @ cache_part v @ rest\<rparr>, w)"
    using inp by (rule conn_read_u32_le32)
  have 2: "readCommand (c\<lparr>inp := cache_part ?SET @ cache_part k @ cache_part v @ rest\<rparr>, w)
    = (Inr ?SET, c\<lparr>inp := cache_part k @ cache_part v @ rest\<rparr>, w)"
    by (subst readCommand_fits) auto
  have 3: "readKey uc (c\<lparr>inp := cache_part k @ cache_part v @ rest\<rparr>, w)
    = (Inr k, c\<lparr>inp := cache_part v @ rest\<rparr>, w)"
    by (subst readKey_fits [OF assms(2)]) auto
  have 4: "readValue uc (c\<lparr>inp := cache_part v @ rest\<rparr>, w) = (Inr v, c\<lparr>inp := rest\<rparr>, w)"
    by (subst readValue_fits [OF assms(3)]) auto
  show ?thesis
    using 1 2 3 4 assms(4,5)
    by (cases r) (simp_all add: process_command_def processSET_def wrap_error_def on_redis_def)
qed

lemma process_GET_step:
  assumes "inp c = cache_get k @ rest"
    and "fits (length k) (MaxKeyLen (uc_constraints uc))"
    and "rd_HGet rd (cacheHSet uc) (cacheKey k) w = (Inr ret, w1)"
    and "rd_Pipelined rd (get_touch uc (cacheKey k) (rd_Now rd w1)) w1 = (Inr (), w2)"
  shows "process_command g rd uc (c, w) = send ret (c\<lparr>inp := rest\<rparr>, w2)"
proof -
  let ?GET = "bytes_of_string ''GET''"
  have inp: "inp c = le32 2 @ cache_part ?GET @ cache_part k @ rest"
    using assms(1) by (simp add: cache_get_def sendCommand_def)
  have 1: "conn_read_u32 (c, w) = (Inr 2, c\<lparr>inp := cache_part ?GET @ cache_part k @ rest\<rparr>, w)"
    using inp by (rule conn_read_u32_le32)
  have 2: "readCommand (c\<lparr>inp := cache_part ?GET @ cache_part k @ rest\<rparr>, w)
    = (Inr ?GET, c\<lparr>inp := cache_part k @ rest\<rparr>, w)"
    by (subst readCommand_fits) auto
  have 3: "readKey uc (c\<lparr>inp := cache_part k @ rest\<rparr>, w) = (Inr k, c\<lparr>inp := rest\<rparr>, w)"
    by (subst readKey_fits [OF assms(2)]) auto
  show ?thesis
    using 1 2 3 assms(3,4)
    by (simp add: process_command_def processGET_def wrap_error_def on_redis_def)
qed

lemma process_Nil: "inp c = [] \<Longrightarrow> process_command g rd uc (c, w) = (Inl EEOF, c, w)"
  by (simp add: process_command_def conn_read_u32_Nil)

section \<open>Properties\<close>


text \<open>A small redis for the witness: the hash fields, without a counter.\<close>

definition toy_redis :: "(string \<Rightarrow> string \<Rightarrow> bytes option) redis_client" where
  "toy_redis =
     \<lparr>rd_HGet = \<lambda>h k w. (case w h k of None \<Rightarrow> Inl ERedisNil | Some v \<Rightarrow> Inr (Some v), w),
      rd_Pipelined = \<lambda>cmds w. (Inr (), fold hset_effect cmds w),
      rd_EvalSha = \<lambda>sha ks args w. (Inr (), w),
      rd_ScriptLoad = \<lambda>s w. (Inr ''sha'', w), rd_Now = \<lambda>w. 0\<rparr>"

definition toy_cache :: user_cache where
  "toy_cache = \<lparr>uc_userID = ''u'', uc_constraints = DefaultUserCacheConstraints\<rparr>"

definition toy_globals :: cache_globals where
  "toy_globals = \<lparr>initOnceCache = True, redisPopCacheSHA = ''pop'', redisDecrSizeSHA = ''decr''\<rparr>"

lemma toy_redis_keeps: "redis_keeps toy_redis (\<lambda>w. w)"
  by (simp add: redis_keeps_def toy_redis_def split: option.split)

lemma toy_pop_idle: "pop_idle toy_globals toy_redis toy_cache (\<lambda>w. w)"
  by (simp add: pop_idle_def toy_redis_def)


text \<open>
  The key of redis a command works on. The decrement script gets its hash and, as a second
  key, the field.
\<close>

fun cmd_key :: "redis_cmd \<Rightarrow> string" where
  "cmd_key (CmdEvalSha sha ks) = hd ks"
| "cmd_key (CmdZAdd z n x) = z"
| "cmd_key (CmdZAddXX z n x) = z"
| "cmd_key (CmdHSet h k v) = h"
| "cmd_key (CmdHIncrBy h k n) = h"
| "cmd_key (CmdExpire h t) = h"

definition user_keys :: "user_cache \<Rightarrow> string set" where
  "user_keys uc = {cacheZSet uc, cacheHSet uc}"

text \<open>Two clients that do the same on the keys of a set, and may differ on all others.\<close>

definition agree_on :: "string set \<Rightarrow> 'w redis_client \<Rightarrow> 'w redis_client \<Rightarrow> bool" where
  "agree_on K rd rd' \<longleftrightarrow>
     (\<forall>h\<in>K. rd_HGet rd h = rd_HGet rd' h) \<and>
     (\<forall>cmds. cmd_key ` set cmds \<subseteq> K \<longrightarrow> rd_Pipelined rd cmds = rd_Pipelined rd' cmds) \<and>
     (\<forall>sha ks. set ks \<subseteq> K \<longrightarrow> rd_EvalSha rd sha ks = rd_EvalSha rd' sha ks) \<and>
     rd_Now rd = rd_Now rd'"

lemma user_keys_disjoint:
  assumes "uc_userID uc \<noteq> uc_userID uc'"
  shows "user_keys uc \<inter> user_keys uc' = {}"
proof -
  have "a @ '':user_cache:zset'' \<noteq> b @ '':user_cache:hset''" for a b :: string
  proof
    assume eq: "a @ '':user_cache:zset'' = b @ '':user_cache:hset''"
    then have "length a = length b" using arg_cong [OF eq, of length] by simp
    with eq show False by simp
  qed
  with assms show ?thesis by (auto simp: user_keys_def cacheZSet_def cacheHSet_def)
qed

lemma agree_on_process_command:
  assumes "agree_on (user_keys uc) rd rd'"
  shows "process_command g rd uc = process_command g rd' uc"
proof -
  have now: "rd_Now rd = rd_Now rd'" using assms by (simp add: agree_on_def)
  have get: "rd_HGet rd (cacheHSet uc) = rd_HGet rd' (cacheHSet uc)"
    using assms by (simp add: agree_on_def user_keys_def)
  have touch: "rd_Pipelined rd (get_touch uc k n) = rd_Pipelined rd' (get_touch uc k n)" for k n
    using assms by (simp add: agree_on_def user_keys_def get_touch_def)
  have set: "rd_Pipelined rd (set_commands g uc k v n) = rd_Pipelined rd' (set_commands g uc k v n)"
    for k v n
    using assms by (simp add: agree_on_def user_keys_def set_commands_def)
  have pop: "rd_EvalSha rd sha [cacheZSet uc, cacheHSet uc] = rd_EvalSha rd' sha [cacheZSet uc, cacheHSet uc]"
    for sha using assms by (simp add: agree_on_def user_keys_def)
  have "processGET rd uc n = processGET rd' uc n" for n
    unfolding processGET_def now get touch ..
  moreover have "processSET g rd uc n = processSET g rd' uc n" for n
    unfolding processSET_def now set pop ..
  ultimately show ?thesis unfolding process_command_def by presburger
qed

text \<open>
  C20: a script reaches only its own user's cache. Whatever it writes to the cache stream
  (lengths, commands, keys, values), the commands sent to redis work on the two keys of its
  user: two redis clients that agree on those two keys, and may differ on any other key,
  give the same replies, the same end and the same state. The keys of two users differ.
\<close>

theorem cache_user_isolated:
  assumes "agree_on (user_keys uc) rd rd'"
  shows "Process g rd uc s = Process g rd' uc s \<and>
    (uc_userID uc' \<noteq> uc_userID uc \<longrightarrow> user_keys uc' \<inter> user_keys uc = {})"
proof
  show "Process g rd uc s = Process g rd' uc s"
    using assms
  proof (induction g rd uc s rule: Process.induct)
    case (1 g rd uc s)
    note cong = agree_on_process_command [OF "1.prems", of g]
    show ?case
      using "1.IH" "1.prems" cong
      by (subst (1 2) Process.simps) (auto split: prod.split sum.split)
  qed
qed (use user_keys_disjoint in blast)

text \<open>A second client that shows other users' values, which no run for the first user sees.\<close>

definition leaking_redis :: "(string \<Rightarrow> string \<Rightarrow> bytes option) redis_client" where
  "leaking_redis = toy_redis\<lparr>rd_HGet := \<lambda>h k w.
     if h \<in> user_keys toy_cache then rd_HGet toy_redis h k w else (Inr (Some [7]), w)\<rparr>"

theorem cache_user_isolated_witness:
  "Process toy_globals leaking_redis toy_cache
     (\<lparr>inp = cache_get [1], outp = [], write_errors = []\<rparr>, \<lambda>h k. Some [9]) =
   Process toy_globals toy_redis toy_cache
     (\<lparr>inp = cache_get [1], outp = [], write_errors = []\<rparr>, \<lambda>h k. Some [9])"
  by (rule conjunct1 [OF cache_user_isolated]) (simp add: agree_on_def leaking_redis_def)

section \<open>Beyond the limits\<close>

text \<open>The index 0 of a reply of redis is nil, so the script's next command raises an error.\<close>

lemma pop_oldest_fails:
  assumes "lua_redis L [''ZPOPMIN'', zset] w = (Inr (LTable xs), w')"
  shows "pop_oldest L zset hset w = (Inl lua_bad_argument, w')"
  using assms by (simp add: pop_oldest_def lua_call_def lua_index_def)

lemma pop_script_fails:
  assumes "lua_redis L [''ZCARD'', zset] w = (Inr (LNum n), w1)"
    and "lua_redis L [''HGET'', hset, sizeKey] w1 = (Inr v, w2)"
    and "lua_redis L [''ZPOPMIN'', zset] w2 = (Inr (LTable xs), w3)"
    and "cl < n \<or> (\<exists>m. tonumber L v = Some m \<and> sl < m)"
  shows "redisPopCacheScript L zset hset cl sl w = Some (Inl lua_bad_argument, w3)"
  using assms pop_oldest_fails [OF assms(3), of hset]
  by (auto simp: redisPopCacheScript_def lua_call_def pop_loop.simps split: option.split)

text \<open>
  Once a user's cache is above its number of entries or its size, SET fails. The value
  has been stored by the pipeline; then the pop script, run by redis as it was loaded, pops
  the oldest member of the sorted set, indexes the reply with 0 (nil in Lua, where tables
  start at 1) and raises an error, so the field is not deleted and the counter not lowered.
  The loop of the stream ends with that error, without a reply.
\<close>

theorem cache_set_over_limit:
  assumes "inp c = cache_set k v @ rest"
    and "fits (length k) (MaxKeyLen (uc_constraints uc))"
    and "fits (length v) (MaxValueLen (uc_constraints uc))"
    and "rd_Pipelined rd (set_commands g uc (cacheKey k) v (rd_Now rd w)) w = (Inr (), w1)"
    and runs: "\<And>w'. Some (rd_EvalSha rd (redisPopCacheSHA g) [cacheZSet uc, cacheHSet uc]
           [CardinalityLimit (uc_constraints uc), SizeLimit (uc_constraints uc)] w') =
         redisPopCacheScript L (cacheZSet uc) (cacheHSet uc)
           (CardinalityLimit (uc_constraints uc)) (SizeLimit (uc_constraints uc)) w'"
    and "lua_redis L [''ZCARD'', cacheZSet uc] w1 = (Inr (LNum n), w2)"
    and "lua_redis L [''HGET'', cacheHSet uc, sizeKey] w2 = (Inr sz, w3)"
    and "lua_redis L [''ZPOPMIN'', cacheZSet uc] w3 = (Inr (LTable xs), w4)"
    and "CardinalityLimit (uc_constraints uc) < n \<or>
         (\<exists>m. tonumber L sz = Some m \<and> SizeLimit (uc_constraints uc) < m)"
  shows "Process g rd uc (c, w) =
    (EWrap ''user cache eval error'' lua_bad_argument, c\<lparr>inp := rest\<rparr>, w4)"
proof -
  have "rd_EvalSha rd (redisPopCacheSHA g) [cacheZSet uc, cacheHSet uc]
      [CardinalityLimit (uc_constraints uc), SizeLimit (uc_constraints uc)] w1 =
      (Inl lua_bad_argument, w4)"
    using runs [of w1] pop_script_fails [OF assms(6-9)] by simp
  with process_SET_step [OF assms(1-4)] show ?thesis
    by (simp add: Process.simps)
qed

text \<open>A redis with 51 entries, whose scripts run as loaded.\<close>

definition full_lua :: "unit lua" where
  "full_lua = \<lparr>lua_redis = \<lambda>cmd w.
       (Inr (if cmd ! 0 = ''ZCARD'' then LNum 51
             else if cmd ! 0 = ''HGET'' then LStr ''1000'' else LTable [LStr ''old'', LStr ''1'']), w),
     lua_parse = \<lambda>s. if s = ''1000'' then Some 1000 else None\<rparr>"

definition full_redis :: "unit redis_client" where
  "full_redis = \<lparr>rd_HGet = \<lambda>h k w. (Inl ERedisNil, w), rd_Pipelined = \<lambda>cmds w. (Inr (), w),
     rd_EvalSha = \<lambda>sha ks args w.
       (case redisPopCacheScript full_lua (ks ! 0) (ks ! 1) (args ! 0) (args ! 1) w of
          None \<Rightarrow> (Inl EDeadlineExceeded, w) | Some r \<Rightarrow> r),
     rd_ScriptLoad = \<lambda>s w. (Inr ''sha'', w), rd_Now = \<lambda>w. 0\<rparr>"

lemma full_script:
  "redisPopCacheScript full_lua z h 50 26214400 w = Some (Inl lua_bad_argument, w)"
  by (rule pop_script_fails [where n = 51 and v = "LStr ''1000''" and xs = "[LStr ''old'', LStr ''1'']"])
    (simp_all add: full_lua_def tonumber_def)

lemma full_runs:
  "Some (rd_EvalSha full_redis sha [z, h] [50, 25 * 2 ^ 20] w) =
   redisPopCacheScript full_lua z h 50 (25 * 2 ^ 20) w"
  by (simp add: full_redis_def full_script)

theorem cache_set_over_limit_witness:
  "Process toy_globals full_redis toy_cache
     (\<lparr>inp = cache_set [1] [2, 3] @ cache_get [1], outp = [], write_errors = []\<rparr>, ()) =
   (EWrap ''user cache eval error'' lua_bad_argument,
    \<lparr>inp = cache_get [1], outp = [], write_errors = []\<rparr>, ())"
proof -
  let ?c = "\<lparr>inp = cache_set [1] [2, 3] @ cache_get [1], outp = [], write_errors = []\<rparr>"
  have lim: "CardinalityLimit (uc_constraints toy_cache) = 50"
    "SizeLimit (uc_constraints toy_cache) = 25 * 2 ^ 20"
    "fits (Suc 0) (MaxKeyLen (uc_constraints toy_cache))" "fits (Suc (Suc 0)) (MaxValueLen (uc_constraints toy_cache))"
    by (simp_all add: toy_cache_def DefaultUserCacheConstraints_def fits_def)
  have "Process toy_globals full_redis toy_cache (?c, ()) =
    (EWrap ''user cache eval error'' lua_bad_argument, ?c\<lparr>inp := cache_get [1]\<rparr>, ())"
  proof (rule cache_set_over_limit [where k = "[1]" and v = "[2, 3]" and L = full_lua and n = 51
          and sz = "LStr ''1000''" and xs = "[LStr ''old'', LStr ''1'']"])
    show "Some (rd_EvalSha full_redis (redisPopCacheSHA toy_globals) [cacheZSet toy_cache, cacheHSet toy_cache]
        [CardinalityLimit (uc_constraints toy_cache), SizeLimit (uc_constraints toy_cache)] w') =
      redisPopCacheScript full_lua (cacheZSet toy_cache) (cacheHSet toy_cache)
        (CardinalityLimit (uc_constraints toy_cache)) (SizeLimit (uc_constraints toy_cache)) w'" for w'
      unfolding lim by (rule full_runs)
  qed (use lim in \<open>simp_all add: full_redis_def full_lua_def\<close>)
  then show ?thesis by simp
qed

end
