(* ===== verification/Container.thy ===== *)
theory Container
  imports User_Cache
begin

text \<open>
  One container (app/script/container.go): its life from fresh to stopped, the connections
  reserved in it, the setup sent when it is taken from the pool, and the packet a run
  writes. The network (dialling, yamux, streams) and the JSON encoder are arguments; the
  rate limiters, which only delay, and the hijacked docker connection are left out.
\<close>

section \<open>Data\<close>

datatype container_state =
    ContainerStateFresh
  | ContainerStateRunning
  | ContainerStateStopping
  | ContainerStateStopped

text \<open>
  The field \<open>session\<close> is an interface: nil, an interface that holds a nil pointer (what a
  failed \<open>yamux.Client\<close> leaves), or a session.
\<close>

datatype session_ref = NoSession | NilSession | Session nat

record container_options =
  co_Timeout :: int

record container =
  c_Definition :: script_def
  c_ID :: string
  c_state :: container_state
  c_conns :: "string list option"
  c_connLimit :: int
  c_calls :: u64
  c_session :: session_ref
  c_stdout :: "nat option"
  c_stderr :: "nat option"
  c_cache :: "nat option"
  c_addr :: string
  c_volumeKey :: string
  c_opts :: "container_options option"
  c_userCache :: "user_cache option"
  c_userCacheConstraints :: "cache_constraints option"

record file_data =
  f_Filename :: string
  f_ContentType :: string
  f_Data :: bytes

record run_options =
  OutputLimit :: u32
  Timeout :: int
  Memory :: u64
  Weight :: u64
  Args :: bytes
  Meta :: bytes
  Config :: bytes
  Files :: "(string, file_data) gomap"

record context_file =
  cf_Name :: string
  cf_Filename :: string
  cf_ContentType :: string
  cf_Length :: nat

record script_context =
  sc_Delim :: string
  sc_Files :: "context_file list"
  sc_Args :: bytes
  sc_Config :: bytes
  sc_Meta :: bytes

text \<open>
  The network, with streams and sessions as numbers, and the encoders. \<open>enc_context\<close> fails
  when one of the raw messages is not JSON.
\<close>

record 'w network =
  net_Dial :: "string \<Rightarrow> ('w, nat) eff"
  net_Client :: "nat \<Rightarrow> ('w, nat) eff"
  net_Open :: "nat \<Rightarrow> ('w, nat) eff"
  net_CloseSession :: "nat \<Rightarrow> ('w, unit) eff"
  net_Write :: "nat \<Rightarrow> bytes \<Rightarrow> ('w, unit) eff"
  net_Close :: "nat \<Rightarrow> ('w, unit) eff"
  enc_setup :: "string list \<Rightarrow> bytes result"
  enc_script_setup :: "u32 \<Rightarrow> string \<Rightarrow> int \<Rightarrow> bytes result"
  enc_context :: "script_context \<Rightarrow> bytes result"

definition NewContainer :: "string \<Rightarrow> container" where
  "NewContainer runtime =
     \<lparr>c_Definition = \<lparr>Index = \<lparr>Runtime = runtime, SourceHash = [], UserID = []\<rparr>,
        Environment = [], Entrypoint = [], MCPU = 0, Async = 0\<rparr>,
      c_ID = [], c_state = ContainerStateFresh, c_conns = Some [], c_connLimit = 0, c_calls = 0,
      c_session = NoSession, c_stdout = None, c_stderr = None, c_cache = None, c_addr = [],
      c_volumeKey = [], c_opts = None, c_userCache = None, c_userCacheConstraints = None\<rparr>"

definition Calls :: "container \<Rightarrow> u64" where
  "Calls c = c_calls c"

definition IncreaseCalls :: "container \<Rightarrow> container" where
  "IncreaseCalls c = c\<lparr>c_calls := c_calls c + 1\<rparr>"

definition Configure :: "container_options \<Rightarrow> cache_constraints option \<Rightarrow> container \<Rightarrow> container" where
  "Configure options ucc c =
     c\<lparr>c_opts := Some options, c_userCacheConstraints := ucc,
       c_connLimit := (if Async (c_Definition c) = 0 then 1 else uint (Async (c_Definition c)))\<rparr>"

definition LogChannel :: "container \<Rightarrow> string" where
  "LogChannel c = ''stream:'' @ UserID (Index (c_Definition c)) @ '':''
     @ SourceHash (Index (c_Definition c)) @ '':log''"

section \<open>Accepting connections\<close>

text \<open>\<open>atomic.CompareAndSwapUint32(&c.state, old, new)\<close>\<close>

definition cas_state :: "container_state \<Rightarrow> container_state \<Rightarrow> container \<Rightarrow> container \<times> bool" where
  "cas_state old new c = (if c_state c = old then (c\<lparr>c_state := new\<rparr>, True) else (c, False))"

definition IsAcceptingConnections :: "container \<Rightarrow> bool" where
  "IsAcceptingConnections c \<longleftrightarrow> c_state c = ContainerStateRunning"

definition StopAcceptingConnections :: "container \<Rightarrow> container" where
  "StopAcceptingConnections c =
     (case cas_state ContainerStateRunning ContainerStateStopping c of
        (c1, ok) \<Rightarrow> if ok then c1 else fst (cas_state ContainerStateFresh ContainerStateStopping c1))"

definition ConnsNum :: "container \<Rightarrow> nat" where
  "ConnsNum c = (case c_conns c of None \<Rightarrow> 0 | Some ids \<Rightarrow> length ids)"

text \<open>
  \<open>Reserve\<close> and \<open>Release\<close> run a callback of the caller under the container's lock, so they
  are steps on the caller's state; \<open>sel\<close> and \<open>upd\<close> reach the container in it. The callback
  gets the number of connections; its error is returned, and the connection stays reserved.
\<close>

definition Reserve ::
  "('s \<Rightarrow> container) \<Rightarrow> ((container \<Rightarrow> container) \<Rightarrow> 's \<Rightarrow> 's) \<Rightarrow> string
   \<Rightarrow> (nat \<Rightarrow> ('s, unit) proc) option \<Rightarrow> ('s, unit) proc" where
  "Reserve sel upd connID success =
     andThen (get_state sel) (\<lambda>c.
     case c_conns c of
       None \<Rightarrow> throw ETooManyConnections
     | Some ids \<Rightarrow>
         if c_connLimit c \<le> int (length ids) then throw ETooManyConnections
         else if connID \<in> set ids then throw EConnectionIDReserved
         else andThen (modify (upd (c_conns_update (\<lambda>_. Some (ids @ [connID]))))) (\<lambda>_.
              case success of None \<Rightarrow> return () | Some f \<Rightarrow> f (length ids + 1)))"

definition Release ::
  "('s \<Rightarrow> container) \<Rightarrow> ((container \<Rightarrow> container) \<Rightarrow> 's \<Rightarrow> 's) \<Rightarrow> string
   \<Rightarrow> (nat \<Rightarrow> ('s, unit) proc) option \<Rightarrow> ('s, unit) proc" where
  "Release sel upd connID success =
     andThen (get_state sel) (\<lambda>c.
     andThen (modify (upd (c_conns_update (map_option (removeAll connID))))) (\<lambda>_.
     case success of
       None \<Rightarrow> return ()
     | Some f \<Rightarrow> f (ConnsNum (c\<lparr>c_conns := map_option (removeAll connID) (c_conns c)\<rparr>))))"

text \<open>\<open>Stop\<close>: the session is closed by the one call that moves the state to stopped.\<close>

definition Stop :: "'w network \<Rightarrow> container \<Rightarrow> 'w \<Rightarrow> (bool \<times> container \<times> 'w) outcome" where
  "Stop net c w =
     (case cas_state ContainerStateStopping ContainerStateStopped (StopAcceptingConnections c) of
        (c1, False) \<Rightarrow> Returns (False, c1, w)
      | (c1, True) \<Rightarrow>
          (case c_session c1 of
             NoSession \<Rightarrow> Returns (True, c1, w)
           | NilSession \<Rightarrow> Panics
           | Session s \<Rightarrow>
               Returns (True, c1\<lparr>c_session := NoSession\<rparr>, snd (net_CloseSession net s w))))"

section \<open>Setup\<close>

record 'w cont_env =
  ce_cont :: container
  ce_globals :: cache_globals
  ce_world :: 'w

definition on_net :: "('w, 'a) eff \<Rightarrow> ('w cont_env, 'a) proc" where
  "on_net m = lift_eff ce_world (\<lambda>w. ce_world_update (\<lambda>_. w)) m"

definition on_cont :: "(container \<Rightarrow> container) \<Rightarrow> ('w cont_env, unit) proc" where
  "on_cont f = modify (ce_cont_update f)"

text \<open>\<open>c.session.Open()\<close>: a method of a nil interface or of a nil session panics.\<close>

definition session_open :: "'w network \<Rightarrow> ('w cont_env, nat) proc" where
  "session_open net =
     andThen (get_state (\<lambda>s. c_session (ce_cont s))) (\<lambda>ses.
     case ses of Session n \<Rightarrow> on_net (net_Open net n) | _ \<Rightarrow> panic)"

text \<open>\<open>c.stdout, err = c.session.Open()\<close>, for one of the three streams.\<close>

definition open_stream ::
  "'w network \<Rightarrow> (nat option \<Rightarrow> container \<Rightarrow> container) \<Rightarrow> ('w cont_env, unit) proc" where
  "open_stream net set_field =
     try_catch (session_open net)
       (\<lambda>e. andThen (on_cont (set_field None)) (\<lambda>_. throw e))
       (\<lambda>n. on_cont (set_field (Some n)))"

definition new_user_cache ::
  "(cache_constraints \<Rightarrow> cache_constraints \<Rightarrow> cache_constraints) \<Rightarrow> 'w redis_client
   \<Rightarrow> ('w cont_env, unit) proc" where
  "new_user_cache merge rd = (\<lambda>s.
     case NewUserCache merge rd (UserID (Index (c_Definition (ce_cont s))))
            (c_userCacheConstraints (ce_cont s)) (ce_globals s) (ce_world s) of
       Returns (uc, g, w) \<Rightarrow>
         Returns (Inr (), s\<lparr>ce_cont := (ce_cont s)\<lparr>c_userCache := Some uc\<rparr>, ce_globals := g,
                            ce_world := w\<rparr>)
     | Panics \<Rightarrow> Panics
     | Blocks \<Rightarrow> Blocks)"

definition open_session ::
  "'w network \<Rightarrow> (cache_constraints \<Rightarrow> cache_constraints \<Rightarrow> cache_constraints)
   \<Rightarrow> 'w redis_client \<Rightarrow> ('w cont_env, unit) proc" where
  "open_session net merge rd =
     andThen (get_state (\<lambda>s. c_addr (ce_cont s))) (\<lambda>addr.
     andThen (on_net (net_Dial net addr)) (\<lambda>conn.
     andThen (try_catch (on_net (net_Client net conn))
                (\<lambda>e. andThen (on_cont (c_session_update (\<lambda>_. NilSession))) (\<lambda>_. throw e))
                (\<lambda>n. on_cont (c_session_update (\<lambda>_. Session n)))) (\<lambda>_.
     andThen (open_stream net (\<lambda>n. c_stdout_update (\<lambda>_. n))) (\<lambda>_.
     andThen (open_stream net (\<lambda>n. c_stderr_update (\<lambda>_. n))) (\<lambda>_.
     andThen (open_stream net (\<lambda>n. c_cache_update (\<lambda>_. n))) (\<lambda>_.
     new_user_cache merge rd))))))"

definition write_stream :: "'w network \<Rightarrow> nat option \<Rightarrow> bytes \<Rightarrow> ('w cont_env, unit) proc" where
  "write_stream net stream b =
     (case stream of None \<Rightarrow> panic | Some n \<Rightarrow> on_net (net_Write net n b))"

definition setupCodewrapper :: "'w network \<Rightarrow> string list \<Rightarrow> ('w cont_env, unit) proc" where
  "setupCodewrapper net cmd =
     andThen (get_state (\<lambda>s. c_stdout (ce_cont s))) (\<lambda>conn.
     case enc_setup net cmd of
       Inl e \<Rightarrow> throw e
     | Inr data \<Rightarrow>
         andThen (write_stream net conn data) (\<lambda>_. write_stream net conn [10]))"

definition setupSocket :: "'w network \<Rightarrow> nat \<Rightarrow> ('w cont_env, unit) proc" where
  "setupSocket net conn =
     andThen (get_state ce_cont) (\<lambda>c.
     case c_opts c of
       None \<Rightarrow> panic
     | Some opts \<Rightarrow>
         (case enc_script_setup net (Async (c_Definition c)) (Entrypoint (c_Definition c))
                 (co_Timeout opts) of
            Inl _ \<Rightarrow> panic
          | Inr setupBytes \<Rightarrow>
              andThen (on_net (net_Write net conn (le32 (of_nat (length setupBytes + 4))))) (\<lambda>_.
              on_net (net_Write net conn setupBytes))))"

text \<open>
  \<open>SendSetup\<close>. When the setup of the socket fails the connection is closed, and the state
  still moves from fresh to running before the error is returned.
\<close>

definition SendSetup ::
  "'w network \<Rightarrow> (cache_constraints \<Rightarrow> cache_constraints \<Rightarrow> cache_constraints)
   \<Rightarrow> 'w redis_client \<Rightarrow> string list \<Rightarrow> ('w cont_env, nat) proc" where
  "SendSetup net merge rd cmd =
     andThen (get_state (\<lambda>s. c_session (ce_cont s))) (\<lambda>ses.
     andThen (if ses = NoSession then open_session net merge rd else return ()) (\<lambda>_.
     andThen (setupCodewrapper net cmd) (\<lambda>_.
     andThen (session_open net) (\<lambda>conn.
     let running = on_cont (\<lambda>c. fst (cas_state ContainerStateFresh ContainerStateRunning c))
     in try_catch (setupSocket net conn)
          (\<lambda>e. andThen (attempt (on_net (net_Close net conn))) (\<lambda>_.
               andThen running (\<lambda>_. throw e)))
          (\<lambda>_. andThen running (\<lambda>_. return conn))))))"

section \<open>The packet of a run\<close>

definition context_files :: "(string, file_data) gomap \<Rightarrow> context_file list" where
  "context_files files = map (\<lambda>(f, data).
     \<lparr>cf_Name = f, cf_Filename = f_Filename data, cf_ContentType = f_ContentType data,
      cf_Length = length (f_Data data)\<rparr>) files"

definition run_context :: "string \<Rightarrow> run_options \<Rightarrow> script_context" where
  "run_context delim options =
     \<lparr>sc_Delim = delim, sc_Files = context_files (Files options), sc_Args = Args options,
      sc_Config = Config options, sc_Meta = Meta options\<rparr>"

fun write_all :: "'w network \<Rightarrow> nat \<Rightarrow> bytes list \<Rightarrow> ('w, unit) proc" where
  "write_all net conn [] = return ()"
| "write_all net conn (b # bs) =
     andThen (lift_eff (\<lambda>w. w) (\<lambda>w _. w) (net_Write net conn b)) (\<lambda>_. write_all net conn bs)"

text \<open>What the run writes, one element for each write: both sizes are \<open>uint32\<close>.\<close>

definition run_writes :: "bytes \<Rightarrow> (string, file_data) gomap \<Rightarrow> bytes list" where
  "run_writes ctx files =
     (let filesSize = sum_list (map (\<lambda>(f, data). length (f_Data data)) files)
      in [le32 (of_nat (length ctx + filesSize + 8)), le32 (of_nat (length ctx)), ctx]
         @ map (\<lambda>(f, data). f_Data data) files)"

text \<open>\<open>Run\<close>, with the key \<open>util.GenerateKey\<close> made; a context that cannot be encoded panics.\<close>

definition Run :: "'w network \<Rightarrow> string \<Rightarrow> nat \<Rightarrow> run_options \<Rightarrow> ('w, string) proc" where
  "Run net delim conn options =
     (case enc_context net (run_context delim options) of
        Inl _ \<Rightarrow> panic
      | Inr ctx \<Rightarrow>
          andThen (write_all net conn (run_writes ctx (Files options))) (\<lambda>_. return delim))"

text \<open>
  The other end, \<open>processData\<close> of assets/wrappers/node.js, on a packet that has arrived: the
  announced size, the bytes of the context, and the files cut by the lengths in it. A slice
  of a buffer is clipped to it.
\<close>

definition js_slice :: "nat \<Rightarrow> nat \<Rightarrow> bytes \<Rightarrow> bytes" where
  "js_slice a b buf = take (b - a) (drop a buf)"

definition packet_size :: "bytes \<Rightarrow> nat" where
  "packet_size buf = unat (of_le32 buf)"

definition packet_context :: "bytes \<Rightarrow> bytes" where
  "packet_context buf = js_slice 8 (8 + unat (of_le32 (drop 4 buf))) buf"

fun packet_files :: "nat \<Rightarrow> context_file list \<Rightarrow> bytes \<Rightarrow> (string \<times> bytes) list" where
  "packet_files cursor [] buf = []"
| "packet_files cursor (f # fs) buf =
     (cf_Name f, js_slice cursor (cursor + cf_Length f) buf) # packet_files (cursor + cf_Length f) fs buf"

section \<open>The life of a container\<close>

text \<open>
  The three operations that change the state are made of single compare-and-swap
  instructions, which other goroutines may interleave: \<open>StopAcceptingConnections\<close> is
  \<open>CasStopRunning\<close> and, if it failed, \<open>CasStopFresh\<close>; \<open>Stop\<close> goes on with \<open>CasStopped\<close>;
  \<open>SendSetup\<close> ends with \<open>CasSetup\<close>.
\<close>

datatype state_cas = CasSetup | CasStopRunning | CasStopFresh | CasStopped

fun do_cas :: "state_cas \<Rightarrow> container \<Rightarrow> container \<times> bool" where
  "do_cas CasSetup c = cas_state ContainerStateFresh ContainerStateRunning c"
| "do_cas CasStopRunning c = cas_state ContainerStateRunning ContainerStateStopping c"
| "do_cas CasStopFresh c = cas_state ContainerStateFresh ContainerStateStopping c"
| "do_cas CasStopped c = cas_state ContainerStateStopping ContainerStateStopped c"

text \<open>A sequence of instructions, of any number of goroutines: the results, and the end.\<close>

fun cas_trace :: "state_cas list \<Rightarrow> container \<Rightarrow> (state_cas \<times> bool) list \<times> container" where
  "cas_trace [] c = ([], c)"
| "cas_trace (a # as) c =
     (let (c1, ok) = do_cas a c; (rs, c2) = cas_trace as c1 in ((a, ok) # rs, c2))"

fun state_rank :: "container_state \<Rightarrow> nat" where
  "state_rank ContainerStateFresh = 0"
| "state_rank ContainerStateRunning = 1"
| "state_rank ContainerStateStopping = 2"
| "state_rank ContainerStateStopped = 3"

lemma cas_state_run:
  "c_state c = old \<Longrightarrow> cas_state old new c = (c\<lparr>c_state := new\<rparr>, True)"
  "c_state c \<noteq> old \<Longrightarrow> cas_state old new c = (c, False)"
  by (simp_all add: cas_state_def)

lemma do_cas_rank: "do_cas a c = (c', ok) \<Longrightarrow> state_rank (c_state c) \<le> state_rank (c_state c')"
  by (cases a) (auto simp: cas_state_def split: if_splits)

lemma do_cas_conns: "do_cas a c = (c', ok) \<Longrightarrow> c' = c\<lparr>c_state := c_state c'\<rparr>"
  by (cases a) (auto simp: cas_state_def split: if_splits)

lemma cas_trace_rank: "cas_trace as c = (rs, c') \<Longrightarrow> state_rank (c_state c) \<le> state_rank (c_state c')"
  by (induction as arbitrary: c rs) (fastforce simp: Let_def split: prod.splits dest: do_cas_rank)+

lemma cas_trace_stopped:
  assumes "cas_trace as c = (rs, c')" "c_state c = ContainerStateStopped"
  shows "filter (\<lambda>r. r = (CasStopped, True)) rs = [] \<and> c_state c' = ContainerStateStopped"
  using assms
proof (induction as arbitrary: rs)
  case (Cons a as)
  have "do_cas a c = (c, False)" using Cons.prems(2) by (cases a) (simp_all add: cas_state_run)
  with Cons show ?case by (auto simp: Let_def split: prod.splits)
qed simp

lemma do_cas_stopped: "do_cas CasStopped c = (c', True) \<Longrightarrow> c_state c' = ContainerStateStopped"
  by (auto simp: cas_state_def split: if_splits)

lemma cas_trace_once:
  assumes "cas_trace as c = (rs, c')"
  shows "length (filter (\<lambda>r. r = (CasStopped, True)) rs) \<le> 1 \<and>
    ((CasStopped, True) \<in> set rs \<longrightarrow> c_state c' = ContainerStateStopped)"
  using assms
proof (induction as arbitrary: c rs)
  case (Cons a as)
  obtain c1 ok where a: "do_cas a c = (c1, ok)" by force
  obtain rs1 where tr: "cas_trace as c1 = (rs1, c')" and rs: "rs = (a, ok) # rs1"
    using Cons.prems a by (auto simp: Let_def split: prod.splits)
  show ?case
  proof (cases "(a, ok) = (CasStopped, True)")
    case True
    with a have "c_state c1 = ContainerStateStopped" using do_cas_stopped by auto
    from cas_trace_stopped [OF tr this] True rs show ?thesis by simp
  next
    case False
    with Cons.IH [OF tr] rs show ?thesis by auto
  qed
qed simp

text \<open>The operations, run without interruption, are these sequences.\<close>

lemma StopAcceptingConnections_trace:
  "StopAcceptingConnections c = snd (cas_trace [CasStopRunning, CasStopFresh] c)"
  by (cases "c_state c") (simp_all add: StopAcceptingConnections_def cas_state_def)

lemma StopAcceptingConnections_state [simp]:
  "c_state (StopAcceptingConnections c) =
    (if c_state c = ContainerStateStopped then ContainerStateStopped else ContainerStateStopping)"
  by (cases "c_state c") (simp_all add: StopAcceptingConnections_def cas_state_def)

lemma StopAcceptingConnections_other:
  "StopAcceptingConnections c = c\<lparr>c_state := c_state (StopAcceptingConnections c)\<rparr>"
  by (cases "c_state c") (simp_all add: StopAcceptingConnections_def cas_state_def)

lemma Stop_trace:
  assumes "Stop net c w = Returns (b, c', w')"
  shows "c_state c' = c_state (snd (cas_trace [CasStopRunning, CasStopFresh, CasStopped] c))"
    and "b = ((CasStopped, True) \<in> set (fst (cas_trace [CasStopRunning, CasStopFresh, CasStopped] c)))"
  using assms
  by (cases "c_state c"; auto simp: Stop_def StopAcceptingConnections_def cas_state_def
      split: session_ref.splits)+

text \<open>
  \<open>StopAcceptingConnections\<close> is not atomic: when the setup ends between its two
  instructions both fail, so the container goes on running, and \<open>Stop\<close> reports false and
  closes nothing. Every other interleaving of a stop with the end of the setup stops it.
\<close>

lemma stop_races_with_setup:
  assumes "as \<in> shuffles [CasStopRunning, CasStopFresh, CasStopped] [CasSetup]"
    and "c_state c = ContainerStateFresh"
  shows "c_state (snd (cas_trace as c)) =
    (if as = [CasStopRunning, CasSetup, CasStopFresh, CasStopped] then ContainerStateRunning
     else ContainerStateStopped)"
  using assms by (auto simp: cas_state_def)

section \<open>Connections\<close>

lemma Reserve_run:
  assumes "c_conns (sel s) = Some ids"
  shows "Reserve sel upd connID success s =
    (if c_connLimit (sel s) \<le> int (length ids) then Returns (Inl ETooManyConnections, s)
     else if connID \<in> set ids then Returns (Inl EConnectionIDReserved, s)
     else (case success of None \<Rightarrow> return () | Some f \<Rightarrow> f (length ids + 1))
            (upd (c_conns_update (\<lambda>_. Some (ids @ [connID]))) s))"
  using assms by (simp add: Reserve_def proc_simps andThen_def try_catch_def split: option.split)

lemma Release_run:
  assumes "c_conns (sel s) = Some ids"
  shows "Release sel upd connID success s =
    (case success of None \<Rightarrow> return () | Some f \<Rightarrow> f (length (removeAll connID ids)))
      (upd (c_conns_update (map_option (removeAll connID))) s)"
  using assms
  by (simp add: Release_def proc_simps andThen_def try_catch_def ConnsNum_def split: option.split)

text \<open>The operations on one container, one at a time.\<close>

inductive cont_step :: "container \<Rightarrow> container \<Rightarrow> bool" where
  reserve: "Reserve (\<lambda>c. c) (\<lambda>f. f) i None c = Returns (r, c') \<Longrightarrow> cont_step c c'"
| release: "Release (\<lambda>c. c) (\<lambda>f. f) i None c = Returns (r, c') \<Longrightarrow> cont_step c c'"
| stop_accepting: "cont_step c (StopAcceptingConnections c)"
| stop: "Stop (net :: unit network) c w = Returns (b, c', w') \<Longrightarrow> cont_step c c'"
| set_up: "cont_step c (fst (cas_state ContainerStateFresh ContainerStateRunning c))"
| called: "cont_step c (IncreaseCalls c)"

inductive_cases cont_stepE: "cont_step c c'"

definition conns_ok :: "container \<Rightarrow> bool" where
  "conns_ok c \<longleftrightarrow> (case c_conns c of
     None \<Rightarrow> False
   | Some ids \<Rightarrow> distinct ids \<and> int (length ids) \<le> c_connLimit c)"

lemma conns_ok_cong:
  "c_conns c' = c_conns c \<Longrightarrow> c_connLimit c' = c_connLimit c \<Longrightarrow> conns_ok c' = conns_ok c"
  by (simp add: conns_ok_def split: option.split)

lemma conns_ok_state [simp]: "conns_ok (c\<lparr>c_state := st\<rparr>) = conns_ok c"
  by (rule conns_ok_cong) simp_all

lemma Stop_other:
  assumes "Stop net c w = Returns (b, c', w')"
  shows "c_conns c' = c_conns c" "c_connLimit c' = c_connLimit c"
    "state_rank (c_state c) \<le> state_rank (c_state c')"
  using assms
  by (cases "c_state c"; auto simp: Stop_def StopAcceptingConnections_def cas_state_def
      split: session_ref.splits)+

lemma cont_step_keeps:
  assumes "cont_step c c'"
  shows "c_connLimit c' = c_connLimit c \<and> (conns_ok c \<longrightarrow> conns_ok c') \<and>
    state_rank (c_state c) \<le> state_rank (c_state c')"
  using assms
proof cases
  case (reserve i r)
  show ?thesis
  proof (cases "c_conns c")
    case None
    with reserve show ?thesis by (simp add: Reserve_def proc_simps)
  next
    case (Some ids)
    with reserve show ?thesis
      by (auto simp: Reserve_run proc_simps conns_ok_def split: if_splits)
  qed
next
  case (release i r)
  then have c': "c' = c\<lparr>c_conns := map_option (removeAll i) (c_conns c)\<rparr>"
    by (auto simp: Release_def proc_simps)
  have "int (length (removeAll i ids)) \<le> n" if "int (length ids) \<le> n" for ids :: "string list" and n
    using that length_filter_le [of "\<lambda>x. i \<noteq> x" ids] by (simp only: removeAll_filter_not_eq)
  then show ?thesis
    by (auto simp: c' conns_ok_def distinct_removeAll split: option.splits)
next
  case stop_accepting
  then show ?thesis
    by (cases "c_state c") (simp_all add: StopAcceptingConnections_def cas_state_def)
next
  case (stop net w b w')
  from Stop_other [OF stop] conns_ok_cong [OF Stop_other(1,2) [OF stop]] show ?thesis by simp
next
  case set_up
  then show ?thesis by (simp add: cas_state_def)
next
  case called
  with conns_ok_cong [of c' c] show ?thesis by (simp add: IncreaseCalls_def)
qed

lemma cont_steps_keep:
  assumes "cont_step\<^sup>*\<^sup>* c c'"
  shows "c_connLimit c' = c_connLimit c \<and> (conns_ok c \<longrightarrow> conns_ok c') \<and>
    state_rank (c_state c) \<le> state_rank (c_state c')"
  using assms by induction (auto dest: cont_step_keeps)

section \<open>The packet of a run\<close>

lemma js_slice_append:
  "length pre = a \<Longrightarrow> length mid = n \<Longrightarrow> js_slice a (a + n) (pre @ mid @ post) = mid"
  by (simp add: js_slice_def)

lemma packet_files_append:
  assumes "length pre = cursor"
  shows "packet_files cursor (context_files files) (pre @ concat (map (\<lambda>(f, d). f_Data d) files)) =
    map (\<lambda>(f, d). (f, f_Data d)) files"
  using assms
proof (induction files arbitrary: cursor pre)
  case (Cons x files)
  obtain f d where x: "x = (f, d)" by force
  have "packet_files (cursor + length (f_Data d)) (context_files files)
      ((pre @ f_Data d) @ concat (map (\<lambda>(f, d). f_Data d) files)) = map (\<lambda>(f, d). (f, f_Data d)) files"
    by (rule Cons.IH) (use Cons.prems in simp)
  with Cons.prems show ?case
    by (simp add: x context_files_def js_slice_append)
qed (simp add: context_files_def)

lemma write_all_appends:
  assumes "\<And>b w. net_Write net conn b w = (Inr (), w @ b)"
  shows "write_all net conn bs w = Returns (Inr (), w @ concat bs)"
proof (induction bs arbitrary: w)
  case (Cons b bs)
  have "lift_eff (\<lambda>w. w) (\<lambda>w _. w) (net_Write net conn b) w = Returns (Inr (), w @ b)"
    by (simp add: lift_eff_def assms)
  then show ?case by (simp add: proc_simps Cons.IH)
qed (simp add: proc_simps)

lemma length_run_writes:
  "length (concat (run_writes ctx files)) =
    length ctx + sum_list (map (\<lambda>(f, d). length (f_Data d)) files) + 8"
  by (simp add: run_writes_def length_concat comp_def case_prod_unfold)

lemma run_packet_read:
  fixes ctx files
  defines "pkt \<equiv> concat (run_writes ctx files)"
  assumes "length pkt < 2 ^ 32"
  shows "packet_size pkt = length pkt" "packet_context pkt = ctx"
    "packet_files (8 + length ctx) (context_files files) pkt = map (\<lambda>(f, d). (f, f_Data d)) files"
proof -
  let ?n = "length ctx + sum_list (map (\<lambda>(f, d). length (f_Data d)) files) + 8"
  let ?data = "concat (map (\<lambda>(f, d). f_Data d) files)"
  have len: "length pkt = ?n" unfolding pkt_def by (rule length_run_writes)
  have pkt: "pkt = le32 (of_nat ?n) @ le32 (of_nat (length ctx)) @ ctx @ ?data"
    unfolding pkt_def run_writes_def by simp
  from assms(2) len have "?n < 2 ^ 32" "length ctx < 2 ^ 32" by linarith+
  then have small: "unat (of_nat ?n :: u32) = ?n" "unat (of_nat (length ctx) :: u32) = length ctx"
    by (simp_all only: unat_of_nat) (simp_all add: take_bit_nat_eq_self)
  show "packet_size pkt = length pkt"
    unfolding packet_size_def len unfolding pkt of_le32_le32 small ..
  have "of_le32 (drop 4 pkt) = of_nat (length ctx)" unfolding pkt take_drop_le32 of_le32_le32 ..
  then show "packet_context pkt = ctx"
    using js_slice_append [of "le32 (of_nat ?n) @ le32 (of_nat (length ctx))" 8 ctx "length ctx" ?data]
    by (simp add: packet_context_def small pkt)
  show "packet_files (8 + length ctx) (context_files files) pkt = map (\<lambda>(f, d). (f, f_Data d)) files"
    using packet_files_append [of "le32 (of_nat ?n) @ le32 (of_nat (length ctx)) @ ctx"
        "8 + length ctx" files]
    by (simp add: pkt)
qed

section \<open>Properties\<close>

text \<open>
  C16: a container never holds more connections than its limit (the number of concurrent runs
  of an asynchronous script, one for a synchronous one), never the same request twice, and
  its state only moves on from fresh to running to stopping to stopped, after any sequence
  of operations on a container that was created, given a script and configured.
\<close>

theorem container_connections_bounded:
  assumes "cont_step\<^sup>*\<^sup>* (Configure opts ucc ((NewContainer rt)\<lparr>c_Definition := d\<rparr>)) c1"
    and "cont_step\<^sup>*\<^sup>* c1 c2"
  shows "(\<exists>ids. c_conns c2 = Some ids \<and> distinct ids \<and> int (length ids) \<le> max 1 (uint (Async d))) \<and>
    state_rank (c_state c1) \<le> state_rank (c_state c2)"
proof (rule conjI)
  let ?c0 = "Configure opts ucc ((NewContainer rt)\<lparr>c_Definition := d\<rparr>)"
  have "0 \<le> uint (Async d)" by simp
  then have "uint (Async d) = 0 \<or> 1 \<le> uint (Async d)" by linarith
  then have lim: "c_connLimit ?c0 = max 1 (uint (Async d))"
    by (auto simp: Configure_def NewContainer_def max_def uint_0_iff)
  have "conns_ok ?c0" by (simp add: conns_ok_def Configure_def NewContainer_def)
  then have "conns_ok c2 \<and> c_connLimit c2 = max 1 (uint (Async d))"
    using cont_steps_keep [OF assms(1)] cont_steps_keep [OF assms(2)] lim by simp
  then show "\<exists>ids. c_conns c2 = Some ids \<and> distinct ids \<and> int (length ids) \<le> max 1 (uint (Async d))"
    by (auto simp: conns_ok_def split: option.splits)
  show "state_rank (c_state c1) \<le> state_rank (c_state c2)"
    using cont_steps_keep [OF assms(2)] by simp
qed

definition toy_definition :: script_def where
  "toy_definition = \<lparr>Index = \<lparr>Runtime = ''nodejs_v8'', SourceHash = ''abc'', UserID = ''u''\<rparr>,
     Environment = [], Entrypoint = [], MCPU = 125, Async = 2\<rparr>"

definition toy_container :: container where
  "toy_container = Configure \<lparr>co_Timeout = 5\<rparr> None ((NewContainer ''nodejs_v8'')\<lparr>c_Definition := toy_definition\<rparr>)"

lemma toy_reserve:
  "cont_step toy_container (toy_container\<lparr>c_conns := Some [''r1'']\<rparr>)"
  by (rule cont_step.reserve [where i = "''r1''" and r = "Inr ()"])
    (simp add: Reserve_run proc_simps toy_container_def Configure_def NewContainer_def toy_definition_def)

theorem container_connections_bounded_witness:
  "\<exists>ids. c_conns (StopAcceptingConnections (toy_container\<lparr>c_conns := Some [''r1'']\<rparr>)) = Some ids \<and>
     distinct ids \<and> int (length ids) \<le> max 1 (uint (Async toy_definition))"
  by (rule conjunct1 [OF container_connections_bounded
      [where opts = "\<lparr>co_Timeout = 5\<rparr>" and ucc = None and rt = "''nodejs_v8''"
         and ?c1.0 = "toy_container\<lparr>c_conns := Some [''r1'']\<rparr>"]])
    (auto simp: toy_container_def [symmetric] intro!: r_into_rtranclp toy_reserve cont_step.stop_accepting)

text \<open>
  C17: of all calls of \<open>Stop\<close> on a container, by any number of goroutines and in any
  interleaving of their instructions with each other and with the end of a setup, at most one
  reports that it stopped the container (and closes its session); once one did, the container
  is stopped for good.
\<close>

theorem container_stops_once:
  "length (filter (\<lambda>r. r = (CasStopped, True)) (fst (cas_trace as c))) \<le> 1 \<and>
   ((CasStopped, True) \<in> set (fst (cas_trace as c)) \<longrightarrow>
     c_state (snd (cas_trace (as @ bs) c)) = ContainerStateStopped) \<and>
   (\<forall>net w b c' w'. Stop net c w = Returns (b, c', w') \<longrightarrow>
     c_state c' = c_state (snd (cas_trace [CasStopRunning, CasStopFresh, CasStopped] c)) \<and>
     b = ((CasStopped, True) \<in> set (fst (cas_trace [CasStopRunning, CasStopFresh, CasStopped] c))))"
proof (intro conjI impI allI)
  obtain rs c1 where tr: "cas_trace as c = (rs, c1)" by force
  from cas_trace_once [OF this]
  show "length (filter (\<lambda>r. r = (CasStopped, True)) (fst (cas_trace as c))) \<le> 1"
    by (simp add: tr)
  assume "(CasStopped, True) \<in> set (fst (cas_trace as c))"
  with cas_trace_once [OF tr] tr have "c_state c1 = ContainerStateStopped" by simp
  moreover obtain rs2 c2 where tr2: "cas_trace bs c1 = (rs2, c2)" by force
  moreover have "cas_trace (as @ bs) c = (rs @ rs2, c2)"
    using tr tr2
    by (induction as arbitrary: c rs) (auto simp: Let_def split: prod.splits)
  ultimately show "c_state (snd (cas_trace (as @ bs) c)) = ContainerStateStopped"
    using cas_trace_stopped by simp
qed (erule Stop_trace(1), erule Stop_trace(2))

theorem container_stops_once_witness:
  "length (filter (\<lambda>r. r = (CasStopped, True))
     (fst (cas_trace [CasStopRunning, CasStopRunning, CasStopFresh, CasStopped, CasStopped]
             toy_container))) \<le> 1"
  using container_stops_once by blast

text \<open>
  C18: the wrapper in the container reads from the packet of a run exactly what the run was
  given. When the writes succeed, the context can be encoded and the packet is shorter than
  4 GiB, \<open>Run\<close> writes one packet: the size the wrapper waits for is its length, the context
  it parses is the encoded one, and the files it cuts out, by the lengths in the context,
  are the files of the request with their names, in order.
\<close>

theorem run_packet_roundtrip:
  assumes "\<And>b w. net_Write net conn b w = (Inr (), w @ b)"
    and "enc_context net (run_context delim options) = Inr ctx"
    and "length (concat (run_writes ctx (Files options))) < 2 ^ 32"
  shows "\<exists>pkt. Run net delim conn options w = Returns (Inr delim, w @ pkt) \<and>
    packet_size pkt = length pkt \<and> packet_context pkt = ctx \<and>
    packet_files (8 + length ctx) (sc_Files (run_context delim options)) pkt =
      map (\<lambda>(f, d). (f, f_Data d)) (Files options)"
proof (intro exI conjI)
  let ?pkt = "concat (run_writes ctx (Files options))"
  show "Run net delim conn options w = Returns (Inr delim, w @ ?pkt)"
    using write_all_appends [of net conn "run_writes ctx (Files options)" w] assms(1,2)
    by (simp add: Run_def proc_simps)
  show "packet_size ?pkt = length ?pkt" "packet_context ?pkt = ctx"
    using run_packet_read(1,2) [OF assms(3)] .
  show "packet_files (8 + length ctx) (sc_Files (run_context delim options)) ?pkt =
      map (\<lambda>(f, d). (f, f_Data d)) (Files options)"
    using run_packet_read(3) [OF assms(3)] by (simp add: run_context_def)
qed

definition toy_network :: "bytes network" where
  "toy_network = \<lparr>net_Dial = \<lambda>a w. (Inr 0, w), net_Client = \<lambda>c w. (Inr 0, w),
     net_Open = \<lambda>s w. (Inr 1, w), net_CloseSession = \<lambda>s w. (Inr (), w),
     net_Write = \<lambda>n b w. (Inr (), w @ b), net_Close = \<lambda>n w. (Inr (), w),
     enc_setup = \<lambda>cmd. Inr [], enc_script_setup = \<lambda>a e t. Inr [],
     enc_context = \<lambda>ctx. Inr (sc_Args ctx)\<rparr>"

definition toy_options :: run_options where
  "toy_options = \<lparr>OutputLimit = 10, Timeout = 5, Memory = 0, Weight = 0, Args = [123, 125],
     Meta = [], Config = [],
     Files = [(''a'', \<lparr>f_Filename = ''a.txt'', f_ContentType = ''text/plain'', f_Data = [1, 2, 3]\<rparr>),
              (''b'', \<lparr>f_Filename = ''b.txt'', f_ContentType = ''text/plain'', f_Data = [4]\<rparr>)]\<rparr>"

theorem run_packet_roundtrip_witness:
  "\<exists>pkt. Run toy_network ''delim'' 1 toy_options [9] = Returns (Inr ''delim'', [9] @ pkt) \<and>
     packet_size pkt = length pkt \<and> packet_context pkt = [123, 125] \<and>
     packet_files (8 + length [123 :: u8, 125]) (sc_Files (run_context ''delim'' toy_options)) pkt =
       map (\<lambda>(f, d). (f, f_Data d)) (Files toy_options)"
  by (rule run_packet_roundtrip)
    (simp_all add: toy_network_def toy_options_def run_context_def run_writes_def)

end
