(* ===== verification/Cache_Api.thy ===== *)
theory Cache_Api
  imports Errors
begin

text \<open>
  The interface of the LRU cache of the library \<open>pkg-go/cache\<close>, whose code is not in the
  repository: its operations are arguments on a state of their own. The handler the program
  installs with \<open>OnValueEvicted\<close> is called by the cache for every value that leaves it; here
  an operation returns the values it evicts, and the model feeds them to the handler.
\<close>

record ('c, 'v) lru_cache =
  lc_Get :: "string \<Rightarrow> 'c \<Rightarrow> 'v option \<times> 'c"
  lc_Add :: "string \<Rightarrow> 'v \<Rightarrow> 'c \<Rightarrow> bool \<times> (string \<times> 'v) list \<times> 'c"
  lc_Delete :: "string \<Rightarrow> 'c \<Rightarrow> bool \<times> (string \<times> 'v) list \<times> 'c"
  lc_DeleteLRU :: "'c \<Rightarrow> bool \<times> (string \<times> 'v) list \<times> 'c"
  lc_Flush :: "'c \<Rightarrow> (string \<times> 'v) list \<times> 'c"

text \<open>
  What is relied on, with \<open>ent c\<close> the entries of a cache: a lookup finds the entry and
  changes no entry; \<open>Add\<close> stores a value only under a new key, and may evict others;
  \<open>Delete\<close>, \<open>DeleteLRU\<close> and \<open>Flush\<close> evict exactly what they remove.
\<close>

definition get_documented :: "('c, 'v, 'z) lru_cache_scheme \<Rightarrow> ('c \<Rightarrow> string \<Rightarrow> 'v option) \<Rightarrow> bool" where
  "get_documented lc ent \<longleftrightarrow>
     (\<forall>c k r c'. lc_Get lc k c = (r, c') \<longrightarrow> r = ent c k \<and> ent c' = ent c)"

definition add_documented :: "('c, 'v, 'z) lru_cache_scheme \<Rightarrow> ('c \<Rightarrow> string \<Rightarrow> 'v option) \<Rightarrow> bool" where
  "add_documented lc ent \<longleftrightarrow>
     (\<forall>c k v ok ev c'. lc_Add lc k v c = (ok, ev, c') \<longrightarrow>
        ok = (ent c k = None) \<and>
        (\<not> ok \<longrightarrow> ev = [] \<and> ent c' = ent c) \<and>
        (ok \<longrightarrow> k \<notin> fst ` set ev \<and> (\<forall>j u. (j, u) \<in> set ev \<longrightarrow> ent c j = Some u) \<and>
           ent c' = (\<lambda>j. if j \<in> fst ` set ev then None else ((ent c)(k \<mapsto> v)) j)))"

definition delete_documented :: "('c, 'v, 'z) lru_cache_scheme \<Rightarrow> ('c \<Rightarrow> string \<Rightarrow> 'v option) \<Rightarrow> bool" where
  "delete_documented lc ent \<longleftrightarrow>
     (\<forall>c k ok ev c'. lc_Delete lc k c = (ok, ev, c') \<longrightarrow>
        ok = (ent c k \<noteq> None) \<and>
        ev = (case ent c k of None \<Rightarrow> [] | Some v \<Rightarrow> [(k, v)]) \<and> ent c' = (ent c)(k := None))"

definition delete_lru_documented :: "('c, 'v, 'z) lru_cache_scheme \<Rightarrow> ('c \<Rightarrow> string \<Rightarrow> 'v option) \<Rightarrow> bool" where
  "delete_lru_documented lc ent \<longleftrightarrow>
     (\<forall>c ok ev c'. lc_DeleteLRU lc c = (ok, ev, c') \<longrightarrow>
        (if ok then \<exists>k v. ent c k = Some v \<and> ev = [(k, v)] \<and> ent c' = (ent c)(k := None)
         else ev = [] \<and> ent c' = ent c \<and> ent c = (\<lambda>_. None)))"

definition flush_documented :: "('c, 'v, 'z) lru_cache_scheme \<Rightarrow> ('c \<Rightarrow> string \<Rightarrow> 'v option) \<Rightarrow> bool" where
  "flush_documented lc ent \<longleftrightarrow>
     (\<forall>c ev c'. lc_Flush lc c = (ev, c') \<longrightarrow>
        set ev = {(k, v). ent c k = Some v} \<and> ent c' = (\<lambda>_. None))"

definition lru_documented :: "('c, 'v, 'z) lru_cache_scheme \<Rightarrow> ('c \<Rightarrow> string \<Rightarrow> 'v option) \<Rightarrow> bool" where
  "lru_documented lc ent \<longleftrightarrow> get_documented lc ent \<and> add_documented lc ent \<and>
     delete_documented lc ent \<and> delete_lru_documented lc ent \<and> flush_documented lc ent \<and>
     (\<forall>c. finite (dom (ent c)))"

lemma lru_Get:
  assumes "lru_documented lc ent" "lc_Get lc k c = (r, c')"
  shows "r = ent c k" "ent c' = ent c"
  using assms by (auto simp: lru_documented_def get_documented_def)

lemma lru_Add:
  assumes "lru_documented lc ent" "lc_Add lc k v c = (ok, ev, c')"
  shows "ok \<longleftrightarrow> ent c k = None"
    and "\<not> ok \<Longrightarrow> ev = [] \<and> ent c' = ent c"
    and "ok \<Longrightarrow> k \<notin> fst ` set ev"
    and "ok \<Longrightarrow> (j, u) \<in> set ev \<Longrightarrow> ent c j = Some u"
    and "ok \<Longrightarrow> ent c' = (\<lambda>j. if j \<in> fst ` set ev then None else ((ent c)(k \<mapsto> v)) j)"
  using assms unfolding lru_documented_def add_documented_def by blast+

lemma lru_Delete:
  assumes "lru_documented lc ent" "lc_Delete lc k c = (ok, ev, c')"
  shows "ok \<longleftrightarrow> ent c k \<noteq> None" "ev = (case ent c k of None \<Rightarrow> [] | Some v \<Rightarrow> [(k, v)])"
    "ent c' = (ent c)(k := None)"
  using assms unfolding lru_documented_def delete_documented_def by blast+

lemma lru_DeleteLRU:
  assumes "lru_documented lc ent" "lc_DeleteLRU lc c = (ok, ev, c')"
  shows "if ok then \<exists>k v. ent c k = Some v \<and> ev = [(k, v)] \<and> ent c' = (ent c)(k := None)
         else ev = [] \<and> ent c' = ent c \<and> ent c = (\<lambda>_. None)"
  using assms unfolding lru_documented_def delete_lru_documented_def by blast

lemma lru_Flush:
  assumes "lru_documented lc ent" "lc_Flush lc c = (ev, c')"
  shows "set ev = {(k, v). ent c k = Some v}" "ent c' = (\<lambda>_. None)"
  using assms unfolding lru_documented_def flush_documented_def by blast+

lemma lru_finite: "lru_documented lc ent \<Longrightarrow> finite (dom (ent c))"
  by (simp add: lru_documented_def)

text \<open>
  An instance, which shows that the documented behaviour can be had: an association list
  with the oldest entry first, and a capacity.
\<close>

definition list_lru :: "nat \<Rightarrow> ((string \<times> 'v) list, 'v) lru_cache" where
  "list_lru cap =
     \<lparr>lc_Get = \<lambda>k c. (map_of c k, c),
      lc_Add = \<lambda>k v c.
        (if map_of c k \<noteq> None then (False, [], c)
         else if length c < cap \<or> c = [] then (True, [], c @ [(k, v)])
         else (True, [hd c], AList.delete (fst (hd c)) c @ [(k, v)])),
      lc_Delete = \<lambda>k c. (map_of c k \<noteq> None,
         (case map_of c k of None \<Rightarrow> [] | Some v \<Rightarrow> [(k, v)]), AList.delete k c),
      lc_DeleteLRU = \<lambda>c.
        (if c = [] then (False, [], c) else (True, [hd c], AList.delete (fst (hd c)) c)),
      lc_Flush = \<lambda>c. (AList.clearjunk c, [])\<rparr>"

lemma list_lru_documented:
  "lru_documented (list_lru cap :: ((string \<times> 'v) list, 'v) lru_cache) map_of"
proof -
  have hd: "map_of c (fst (hd c)) = Some (snd (hd c))" if "c \<noteq> []" for c :: "(string \<times> 'v) list"
    using that by (cases c) auto
  have "get_documented (list_lru cap :: ((string \<times> 'v) list, 'v) lru_cache) map_of"
    by (simp add: get_documented_def list_lru_def)
  moreover have "delete_documented (list_lru cap :: ((string \<times> 'v) list, 'v) lru_cache) map_of"
    by (auto simp: delete_documented_def list_lru_def)
  moreover have "delete_lru_documented (list_lru cap :: ((string \<times> 'v) list, 'v) lru_cache) map_of"
    unfolding delete_lru_documented_def
  proof (intro allI impI)
    fix c :: "(string \<times> 'v) list" and ok ev c'
    assume "lc_DeleteLRU (list_lru cap) c = (ok, ev, c')"
    then show "if ok then \<exists>k v. map_of c k = Some v \<and> ev = [(k, v)] \<and> map_of c' = (map_of c)(k := None)
         else ev = [] \<and> map_of c' = map_of c \<and> map_of c = (\<lambda>_. None)"
      using hd [of c] by (cases "hd c") (auto simp: list_lru_def split: if_splits)
  qed
  moreover have "flush_documented (list_lru cap :: ((string \<times> 'v) list, 'v) lru_cache) map_of"
  proof -
    have "set (AList.clearjunk c) = {(k, v). map_of c k = Some v}" for c :: "(string \<times> 'v) list"
      using map_of_clearjunk [of c] distinct_clearjunk [of c] by (auto simp flip: map_of_eq_Some_iff)
    then show ?thesis by (auto simp: flush_documented_def list_lru_def)
  qed
  moreover have "add_documented (list_lru cap :: ((string \<times> 'v) list, 'v) lru_cache) map_of"
    unfolding add_documented_def
  proof (intro allI impI)
    fix c :: "(string \<times> 'v) list" and k v ok ev c'
    assume a: "lc_Add (list_lru cap) k v c = (ok, ev, c')"
    have app: "map_of (d @ [(k, v)]) = (map_of d)(k \<mapsto> v)" if "map_of d k = None" for d
      using that by (auto simp: map_add_def split: option.split)
    consider "map_of c k \<noteq> None" | "map_of c k = None" "length c < cap \<or> c = []"
      | "map_of c k = None" "\<not> (length c < cap \<or> c = [])" by blast
    then show "ok = (map_of c k = None) \<and> (\<not> ok \<longrightarrow> ev = [] \<and> map_of c' = map_of c) \<and>
        (ok \<longrightarrow> k \<notin> fst ` set ev \<and> (\<forall>j u. (j, u) \<in> set ev \<longrightarrow> map_of c j = Some u) \<and>
           map_of c' = (\<lambda>j. if j \<in> fst ` set ev then None else ((map_of c)(k \<mapsto> v)) j))"
    proof cases
      case 3
      with hd [of c] have ne: "fst (hd c) \<noteq> k" by auto
      with 3 have "map_of c' = ((map_of c)(fst (hd c) := None))(k \<mapsto> v)"
        using a app [of "AList.delete (fst (hd c)) c"] by (auto simp: list_lru_def)
      with 3 ne a hd [of c] show ?thesis
        by (cases "hd c") (auto simp: list_lru_def)
    qed (use a app [of c] in \<open>auto simp: list_lru_def\<close>)
  qed
  ultimately show ?thesis by (simp add: lru_documented_def finite_dom_map_of)
qed

end
