(* ===== verification/File_Repo.thy ===== *)
theory File_Repo
  imports Container Cache_Api
begin

text \<open>
  The file repository (app/filerepo/repo.go): a cache of uploaded sources, a permanent store,
  volumes with links and mounts, and the protocol of locks around an upload. The file system,
  the command runner and the disk check are arguments; the LRU cache is the interface of
  \<open>Cache_Api\<close>.
\<close>

section \<open>Paths\<close>

text \<open>\<open>filepath.Clean\<close> and \<open>filepath.Join\<close> on Unix paths.\<close>

fun path_split :: "string \<Rightarrow> string list" where
  "path_split [] = [[]]"
| "path_split (c # cs) =
     (if c = CHR ''/'' then [] # path_split cs
      else (case path_split cs of [] \<Rightarrow> [[c]] | s # ss \<Rightarrow> (c # s) # ss))"

fun path_unsplit :: "string list \<Rightarrow> string" where
  "path_unsplit [] = []"
| "path_unsplit [s] = s"
| "path_unsplit (s # ss) = s @ ''/'' @ path_unsplit ss"

text \<open>The components kept so far, last first.\<close>

fun clean_parts :: "bool \<Rightarrow> string list \<Rightarrow> string list \<Rightarrow> string list" where
  "clean_parts rooted acc [] = rev acc"
| "clean_parts rooted acc (s # ss) =
     (if s = [] \<or> s = ''.'' then clean_parts rooted acc ss
      else if s = ''..'' then
        (case acc of
           [] \<Rightarrow> clean_parts rooted (if rooted then [] else [s]) ss
         | t # ts \<Rightarrow> clean_parts rooted (if t = ''..'' then s # acc else ts) ss)
      else clean_parts rooted (s # acc) ss)"

definition path_clean :: "string \<Rightarrow> string" where
  "path_clean p =
     (let rooted = (p \<noteq> [] \<and> hd p = CHR ''/'');
          parts = clean_parts rooted [] (path_split p)
      in if rooted then CHR ''/'' # path_unsplit parts
         else if parts = [] then ''.'' else path_unsplit parts)"

definition path_join :: "string list \<Rightarrow> string" where
  "path_join elems =
     (case filter (\<lambda>s. s \<noteq> []) elems of [] \<Rightarrow> [] | es \<Rightarrow> path_clean (path_unsplit es))"

section \<open>Data\<close>

record repo_options =
  BasePath :: string
  MaxDiskUsage :: int
  TTL :: int
  Capacity :: int
  CleanupInterval :: int
  StoreLockTimeout :: int

definition DefaultRepoOptions :: repo_options where
  "DefaultRepoOptions =
     \<lparr>BasePath = ''/home/codebox/storage'', MaxDiskUsage = 90, TTL = 3 * 3600 * 10 ^ 9,
      Capacity = 300, CleanupInterval = 30 * 10 ^ 9, StoreLockTimeout = 5 * 10 ^ 9\<rparr>"

record volume =
  Path :: string
  mounts :: "string list"

text \<open>
  The environment: the file system (\<open>fs_Walk\<close> is the list of visits of \<open>afero.Walk\<close>, each
  with whether it is a directory, or \<open>None\<close> when its \<open>os.FileInfo\<close> is nil because of an
  error), the commands, the disk usage in percent, and \<open>util.GenerateKey\<close>.
\<close>

record 'w fs_env =
  fs_MkdirAll :: "string \<Rightarrow> ('w, unit) eff"
  fs_Mkdir :: "string \<Rightarrow> ('w, unit) eff"
  fs_Create :: "string \<Rightarrow> ('w, nat) eff"
  fs_Chmod :: "string \<Rightarrow> nat \<Rightarrow> ('w, unit) eff"
  fs_CopyTo :: "nat \<Rightarrow> bytes result \<Rightarrow> ('w, unit) eff"
  fs_CloseFile :: "nat \<Rightarrow> ('w, unit) eff"
  fs_RemoveAll :: "string \<Rightarrow> ('w, unit) eff"
  fs_Link :: "string \<Rightarrow> string \<Rightarrow> ('w, unit) eff"
  fs_Walk :: "string \<Rightarrow> 'w \<Rightarrow> (string \<times> bool option) list"
  fs_Rel :: "string \<Rightarrow> string \<Rightarrow> string result"
  fs_ReadDir :: "string \<Rightarrow> ('w, string list) eff"
  fs_ReadMounts :: "'w \<Rightarrow> (string \<times> string) list result option"
  fs_Command :: "string list \<Rightarrow> ('w, unit) eff"
  fs_DiskUsage :: "string \<Rightarrow> 'w \<Rightarrow> int"
  fs_GenerateKey :: "'w \<Rightarrow> string \<times> 'w"

text \<open>
  The repository. A lock channel is a number; \<open>closed_chs\<close> are the closed channels. A cached
  resource is its path.
\<close>

record ('c, 'w) fs_repo =
  storeID :: string
  fileCache :: 'c
  repo_options :: repo_options
  permStore :: "(string, string) gomap"
  volumes :: "(string, volume) gomap"
  storeLocks :: "(string, nat) gomap"
  next_ch :: nat
  closed_chs :: "nat list"
  fs_world :: 'w

definition on_fs :: "('w, 'a) eff \<Rightarrow> (('c, 'w) fs_repo, 'a) proc" where
  "on_fs m = lift_eff fs_world (\<lambda>w. fs_world_update (\<lambda>_. w)) m"

definition GenerateKey :: "'w fs_env \<Rightarrow> (('c, 'w) fs_repo, string) proc" where
  "GenerateKey fs = on_fs (\<lambda>w. case fs_GenerateKey fs w of (k, w') \<Rightarrow> (Inr k, w'))"

section \<open>The cache of files\<close>

text \<open>The handler of an eviction panics when the files cannot be removed.\<close>

definition onValueEvictedHandler :: "'w fs_env \<Rightarrow> string \<times> string \<Rightarrow> (('c, 'w) fs_repo, unit) proc" where
  "onValueEvictedHandler fs = (\<lambda>(key, path).
     andThen (modify (\<lambda>s. s\<lparr>storeLocks := AList.delete key (storeLocks s)\<rparr>)) (\<lambda>_.
     must (on_fs (fs_RemoveAll fs path))))"

fun evict_all :: "'w fs_env \<Rightarrow> (string \<times> string) list \<Rightarrow> (('c, 'w) fs_repo, unit) proc" where
  "evict_all fs [] = return ()"
| "evict_all fs (x # xs) = andThen (onValueEvictedHandler fs x) (\<lambda>_. evict_all fs xs)"

text \<open>An operation of the cache, followed by the handlers of what it evicted.\<close>

definition cache_op ::
  "'w fs_env \<Rightarrow> ('c \<Rightarrow> 'a \<times> (string \<times> string) list \<times> 'c) \<Rightarrow> (('c, 'w) fs_repo, 'a) proc" where
  "cache_op fs f = (\<lambda>s.
     case f (fileCache s) of (x, ev, c') \<Rightarrow>
       andThen (evict_all fs ev) (\<lambda>_. return x) (s\<lparr>fileCache := c'\<rparr>))"

definition StoragePath :: "('c, 'w) fs_repo \<Rightarrow> string" where
  "StoragePath r = path_join [BasePath (repo_options r), storeID r]"

definition RepoOptions :: "('c, 'w) fs_repo \<Rightarrow> repo_options" where
  "RepoOptions r = repo_options r"

definition NewRepo ::
  "(repo_options \<Rightarrow> repo_options \<Rightarrow> repo_options) \<Rightarrow> repo_options option \<Rightarrow> 'w fs_env \<Rightarrow> 'c
   \<Rightarrow> 'w \<Rightarrow> ('c, 'w) fs_repo outcome" where
  "NewRepo merge opts fs empty_cache w =
     (let options = (case opts of None \<Rightarrow> DefaultRepoOptions
                     | Some o' \<Rightarrow> merge DefaultRepoOptions o')
      in case fs_MkdirAll fs (BasePath options) w of
           (Inl _, _) \<Rightarrow> Panics
         | (Inr _, w1) \<Rightarrow>
             (case fs_GenerateKey fs w1 of (k, w2) \<Rightarrow>
                Returns \<lparr>storeID = k, fileCache = empty_cache, repo_options = options,
                         permStore = [], volumes = [], storeLocks = [], next_ch = 0,
                         closed_chs = [], fs_world = w2\<rparr>))"

definition getPermStore :: "string \<Rightarrow> ('c, 'w) fs_repo \<Rightarrow> string" where
  "getPermStore key r = (case map_of (permStore r) key of None \<Rightarrow> [] | Some p \<Rightarrow> p)"

definition Get ::
  "('c, string) lru_cache \<Rightarrow> string \<Rightarrow> ('c, 'w) fs_repo \<Rightarrow> string \<times> ('c, 'w) fs_repo" where
  "Get lc key r =
     (if getPermStore key r \<noteq> [] then (getPermStore key r, r)
      else (case lc_Get lc key (fileCache r) of
              (res, c') \<Rightarrow> (case res of None \<Rightarrow> [] | Some p \<Rightarrow> p, r\<lparr>fileCache := c'\<rparr>)))"

definition Delete ::
  "('c, string) lru_cache \<Rightarrow> 'w fs_env \<Rightarrow> string \<Rightarrow> (('c, 'w) fs_repo, unit) proc" where
  "Delete lc fs key = andThen (cache_op fs (lc_Delete lc key)) (\<lambda>_. return ())"

section \<open>Storing a file\<close>

text \<open>
  The loop that makes room: \<open>None\<close> is a loop that never ends. The error of the disk check is
  dropped by the source.
\<close>

partial_function (option) make_room ::
  "('c, string) lru_cache \<Rightarrow> 'w fs_env \<Rightarrow> ('c, 'w) fs_repo
   \<Rightarrow> (unit result \<times> ('c, 'w) fs_repo) outcome option" where
  "make_room lc fs s =
     (if fs_DiskUsage fs (BasePath (repo_options s)) (fs_world s) < MaxDiskUsage (repo_options s)
      then Some (Returns (Inr (), s))
      else (case cache_op fs (lc_DeleteLRU lc) s of
              Returns (Inr removed, s') \<Rightarrow>
                if removed then make_room lc fs s' else Some (Returns (Inl ENotEnoughDiskSpace, s'))
            | Returns (Inl e, s') \<Rightarrow> Some (Returns (Inl e, s'))
            | Panics \<Rightarrow> Some Panics
            | Blocks \<Rightarrow> Some Blocks))"

definition make_room_proc ::
  "('c, string) lru_cache \<Rightarrow> 'w fs_env \<Rightarrow> (('c, 'w) fs_repo, unit) proc" where
  "make_room_proc lc fs = (\<lambda>s. case make_room lc fs s of None \<Rightarrow> Blocks | Some r \<Rightarrow> r)"

definition path_dir :: "string \<Rightarrow> string" where
  "path_dir p = path_clean (path_unsplit (butlast (path_split p)))"

text \<open>The source to copy is its bytes, or the error its reader returns.\<close>

definition storeFile ::
  "('c, string) lru_cache \<Rightarrow> 'w fs_env \<Rightarrow> string \<Rightarrow> bytes result \<Rightarrow> string \<Rightarrow> nat
   \<Rightarrow> (('c, 'w) fs_repo, unit) proc" where
  "storeFile lc fs path src filename mode =
     andThen (make_room_proc lc fs) (\<lambda>_.
     let filePath = path_join [path, filename] in
     andThen (on_fs (fs_MkdirAll fs (path_dir filePath))) (\<lambda>_.
     andThen (on_fs (fs_Create fs filePath)) (\<lambda>file.
     andThen (if mode \<noteq> 0 then on_fs (fs_Chmod fs filePath mode) else return ()) (\<lambda>_.
     try_catch (on_fs (fs_CopyTo fs file src))
       (\<lambda>e. andThen (attempt (on_fs (fs_CloseFile fs file))) (\<lambda>_. throw e))
       (\<lambda>_. on_fs (fs_CloseFile fs file))))))"

definition store_path :: "('c, 'w) fs_repo \<Rightarrow> string \<Rightarrow> string \<Rightarrow> string" where
  "store_path r key storeKey = path_join [StoragePath r, ''files'', key, storeKey]"

definition Store ::
  "('c, string) lru_cache \<Rightarrow> 'w fs_env \<Rightarrow> string \<Rightarrow> string \<Rightarrow> bytes result \<Rightarrow> string \<Rightarrow> nat
   \<Rightarrow> (('c, 'w) fs_repo, string) proc" where
  "Store lc fs key storeKey src filename mode =
     andThen (get_state (\<lambda>r. store_path r key storeKey)) (\<lambda>path.
     andThen (storeFile lc fs path src filename mode) (\<lambda>_. return path))"

definition PermStore ::
  "('c, string) lru_cache \<Rightarrow> 'w fs_env \<Rightarrow> string \<Rightarrow> bytes result \<Rightarrow> string \<Rightarrow> nat
   \<Rightarrow> (('c, 'w) fs_repo, string) proc" where
  "PermStore lc fs key src filename mode =
     andThen (get_state (\<lambda>r. path_join [StoragePath r, ''files'', key])) (\<lambda>path.
     andThen (storeFile lc fs path src filename mode) (\<lambda>_.
     andThen (modify (\<lambda>s. s\<lparr>permStore := AList.update key path (permStore s)\<rparr>)) (\<lambda>_. return path)))"

section \<open>The protocol of an upload\<close>

text \<open>
  \<open>StoreLock\<close> without the wait: take the lock when nobody holds it. Otherwise the caller
  waits on the channel found, and goes on with \<open>store_lock_woken\<close> when it is closed, or with
  \<open>store_lock_retry\<close> when the time is up.
\<close>

datatype store_lock = Acquired nat string | WaitFor nat | AlreadyStored | Retry

definition store_lock_try :: "'w fs_env \<Rightarrow> string \<Rightarrow> (('c, 'w) fs_repo, store_lock) proc" where
  "store_lock_try fs key =
     andThen (get_state (\<lambda>s. map_of (storeLocks s) key)) (\<lambda>lock.
     case lock of
       Some ch \<Rightarrow> return (WaitFor ch)
     | None \<Rightarrow>
         andThen (get_state next_ch) (\<lambda>ch.
         andThen (modify (\<lambda>s. s\<lparr>storeLocks := AList.update key ch (storeLocks s), next_ch := ch + 1\<rparr>))
           (\<lambda>_.
         andThen (GenerateKey fs) (\<lambda>storeKey. return (Acquired ch storeKey)))))"

definition removeStoreLock :: "string \<Rightarrow> nat \<Rightarrow> (('c, 'w) fs_repo, unit) proc" where
  "removeStoreLock key ch =
     modify (\<lambda>s. if map_of (storeLocks s) key = Some ch
                 then s\<lparr>storeLocks := AList.delete key (storeLocks s)\<rparr> else s)"

definition store_lock_retry :: "string \<Rightarrow> nat \<Rightarrow> (('c, 'w) fs_repo, store_lock) proc" where
  "store_lock_retry key ch = andThen (removeStoreLock key ch) (\<lambda>_. return Retry)"

definition repo_get :: "('c, string) lru_cache \<Rightarrow> string \<Rightarrow> (('c, 'w) fs_repo, string) proc" where
  "repo_get lc key = (\<lambda>s. case Get lc key s of (p, s') \<Rightarrow> Returns (Inr p, s'))"

definition store_lock_woken ::
  "('c, string) lru_cache \<Rightarrow> string \<Rightarrow> nat \<Rightarrow> (('c, 'w) fs_repo, store_lock) proc" where
  "store_lock_woken lc key ch =
     andThen (repo_get lc key) (\<lambda>p.
     if p \<noteq> [] then return AlreadyStored else store_lock_retry key ch)"

text \<open>
  The whole \<open>StoreLock\<close> when nobody else changes the repository while it waits: a channel
  that is not closed lets the time run out.
\<close>

definition StoreLock ::
  "('c, string) lru_cache \<Rightarrow> 'w fs_env \<Rightarrow> string \<Rightarrow> (('c, 'w) fs_repo, store_lock) proc" where
  "StoreLock lc fs key =
     andThen (store_lock_try fs key) (\<lambda>l.
     case l of
       WaitFor ch \<Rightarrow>
         andThen (get_state (\<lambda>s. ch \<in> set (closed_chs s))) (\<lambda>woken.
         andThen (if woken then store_lock_woken lc key ch else store_lock_retry key ch) (\<lambda>l'.
         if l' = Retry then store_lock_try fs key else return l'))
     | _ \<Rightarrow> return l)"

text \<open>\<open>close(ch)\<close> panics on a channel that is closed.\<close>

definition close_ch :: "nat \<Rightarrow> (('c, 'w) fs_repo, unit) proc" where
  "close_ch ch = (\<lambda>s. if ch \<in> set (closed_chs s) then Panics
                      else Returns (Inr (), s\<lparr>closed_chs := ch # closed_chs s\<rparr>))"

definition StoreUnlock ::
  "('c, string) lru_cache \<Rightarrow> 'w fs_env \<Rightarrow> string \<Rightarrow> string \<Rightarrow> nat \<Rightarrow> bool
   \<Rightarrow> (('c, 'w) fs_repo, unit) proc" where
  "StoreUnlock lc fs key storeKey ch save =
     andThen (get_state (\<lambda>r. store_path r key storeKey)) (\<lambda>path.
     andThen (if save then cache_op fs (lc_Add lc key path) else return False) (\<lambda>saved.
     andThen (if \<not> saved then
                andThen (attempt (on_fs (fs_RemoveAll fs path))) (\<lambda>_. removeStoreLock key ch)
              else return ()) (\<lambda>_.
     close_ch ch)))"

section \<open>Volumes\<close>

definition volume_path :: "('c, 'w) fs_repo \<Rightarrow> string \<Rightarrow> string" where
  "volume_path r volKey = path_join [StoragePath r, ''volumes'', volKey]"

definition CreateVolume :: "'w fs_env \<Rightarrow> (('c, 'w) fs_repo, string \<times> string) proc" where
  "CreateVolume fs =
     andThen (GenerateKey fs) (\<lambda>volKey.
     andThen (get_state (\<lambda>r. volume_path r volKey)) (\<lambda>path.
     andThen (on_fs (fs_MkdirAll fs path)) (\<lambda>_.
     andThen (modify (\<lambda>s. s\<lparr>volumes := AList.update volKey \<lparr>Path = path, mounts = []\<rparr> (volumes s)\<rparr>)) (\<lambda>_.
     return (volKey, path)))))"

definition umount :: "'w fs_env \<Rightarrow> string \<Rightarrow> (('c, 'w) fs_repo, unit) proc" where
  "umount fs path = on_fs (fs_Command fs [''fusermount'', ''-uz'', path])"

text \<open>The loop over the mounts, with the first error met so far.\<close>

fun umount_all ::
  "'w fs_env \<Rightarrow> string \<Rightarrow> string list \<Rightarrow> go_error option \<Rightarrow> (('c, 'w) fs_repo, go_error option) proc" where
  "umount_all fs path [] err = return err"
| "umount_all fs path (m # ms) err =
     andThen (attempt (umount fs (path_join [path, m]))) (\<lambda>r.
     umount_all fs path ms (case (err, r) of (None, Inl e) \<Rightarrow> Some e | _ \<Rightarrow> err))"

definition deleteVolume :: "'w fs_env \<Rightarrow> volume \<Rightarrow> (('c, 'w) fs_repo, unit) proc" where
  "deleteVolume fs vol =
     andThen (umount_all fs (Path vol) (mounts vol) None) (\<lambda>err.
     andThen (attempt (on_fs (fs_RemoveAll fs (Path vol)))) (\<lambda>r.
     case (err, r) of
       (Some e, _) \<Rightarrow> throw e
     | (None, Inl e) \<Rightarrow> throw e
     | (None, Inr _) \<Rightarrow> return ()))"

definition find_volume :: "string \<Rightarrow> (('c, 'w) fs_repo, volume) proc" where
  "find_volume volKey =
     andThen (get_state (\<lambda>r. map_of (volumes r) volKey)) (\<lambda>v.
     case v of None \<Rightarrow> throw EVolumeNotFound | Some vol \<Rightarrow> return vol)"

definition DeleteVolume :: "'w fs_env \<Rightarrow> string \<Rightarrow> (('c, 'w) fs_repo, unit) proc" where
  "DeleteVolume fs volKey =
     andThen (find_volume volKey) (\<lambda>vol.
     andThen (modify (\<lambda>s. s\<lparr>volumes := AList.delete volKey (volumes s)\<rparr>)) (\<lambda>_.
     deleteVolume fs vol))"

text \<open>A volume is a pointer: what the source assigns through it is in the map.\<close>

definition CleanupVolume :: "'w fs_env \<Rightarrow> string \<Rightarrow> (('c, 'w) fs_repo, unit) proc" where
  "CleanupVolume fs volKey =
     andThen (find_volume volKey) (\<lambda>vol.
     andThen (deleteVolume fs vol) (\<lambda>_.
     andThen (modify (\<lambda>s. s\<lparr>volumes := AList.update volKey (vol\<lparr>mounts := []\<rparr>) (volumes s)\<rparr>)) (\<lambda>_.
     on_fs (fs_MkdirAll fs (Path vol)))))"

text \<open>
  \<open>Link\<close>: the callback of the walk ignores its error argument and reads \<open>info.IsDir()\<close>, so
  a visit whose file info is nil panics. \<open>fs_Rel\<close> is \<open>filepath.Rel\<close>.
\<close>

fun link_visits ::
  "'w fs_env \<Rightarrow> string \<Rightarrow> string \<Rightarrow> (string \<times> bool option) list \<Rightarrow> (('c, 'w) fs_repo, unit) proc" where
  "link_visits fs resPath destDir [] = return ()"
| "link_visits fs resPath destDir ((path, info) # vs) =
     (let destRel = (case fs_Rel fs resPath path of Inl _ \<Rightarrow> [] | Inr p \<Rightarrow> p);
          destPath = path_join [destDir, destRel]
      in case info of
           None \<Rightarrow> panic
         | Some dir \<Rightarrow>
             andThen (on_fs (if dir then fs_MkdirAll fs destPath else fs_Link fs path destPath))
               (\<lambda>_. link_visits fs resPath destDir vs))"

definition Link ::
  "('c, string) lru_cache \<Rightarrow> 'w fs_env \<Rightarrow> string \<Rightarrow> string \<Rightarrow> string
   \<Rightarrow> (('c, 'w) fs_repo, unit) proc" where
  "Link lc fs volKey resKey destName =
     andThen (repo_get lc resKey) (\<lambda>resPath.
     if resPath = [] then throw EResourceNotFound
     else andThen (find_volume volKey) (\<lambda>vol.
          andThen (get_state (\<lambda>s. fs_Walk fs resPath (fs_world s))) (\<lambda>visits.
          link_visits fs resPath (path_join [Path vol, destName]) visits)))"

definition Mount ::
  "('c, string) lru_cache \<Rightarrow> 'w fs_env \<Rightarrow> string \<Rightarrow> string \<Rightarrow> string \<Rightarrow> string
   \<Rightarrow> (('c, 'w) fs_repo, unit) proc" where
  "Mount lc fs volKey resKey fileName destName =
     andThen (repo_get lc resKey) (\<lambda>resPath.
     if resPath = [] then throw EResourceNotFound
     else andThen (find_volume volKey) (\<lambda>vol.
          let destPath = path_join [Path vol, destName] in
          andThen (on_fs (fs_Mkdir fs destPath)) (\<lambda>_.
          andThen (on_fs (fs_Command fs [''squashfuse_ll'', path_join [resPath, fileName], destPath,
                     ''-o'', ''allow_other''])) (\<lambda>_.
          modify (\<lambda>s. s\<lparr>volumes := AList.update volKey (vol\<lparr>mounts := mounts vol @ [destName]\<rparr>) (volumes s)\<rparr>)))))"

section \<open>Cleaning up\<close>

text \<open>
  \<open>fs_ReadMounts\<close> is the content of /proc/mounts, a type and a directory for each line:
  \<open>None\<close> when it cannot be opened, \<open>Inl\<close> when reading it fails.
\<close>

fun umount_squashfs :: "'w fs_env \<Rightarrow> (string \<times> string) list \<Rightarrow> (('c, 'w) fs_repo, unit) proc" where
  "umount_squashfs fs [] = return ()"
| "umount_squashfs fs ((kind, dir) # ms) =
     andThen (if kind = ''squashfuse_ll'' then must (umount fs dir) else return ())
       (\<lambda>_. umount_squashfs fs ms)"

definition cleanupMounts :: "'w fs_env \<Rightarrow> (('c, 'w) fs_repo, unit) proc" where
  "cleanupMounts fs =
     andThen (get_state (\<lambda>s. fs_ReadMounts fs (fs_world s))) (\<lambda>f.
     case f of
       None \<Rightarrow> return ()
     | Some (Inl _) \<Rightarrow> panic
     | Some (Inr ms) \<Rightarrow> umount_squashfs fs ms)"

fun remove_others :: "'w fs_env \<Rightarrow> string list \<Rightarrow> (('c, 'w) fs_repo, unit) proc" where
  "remove_others fs [] = return ()"
| "remove_others fs (name # ns) =
     andThen (get_state (\<lambda>s. s)) (\<lambda>s.
     andThen (if name = storeID s then return ()
              else must (on_fs (fs_RemoveAll fs (path_join [BasePath (repo_options s), name]))))
       (\<lambda>_. remove_others fs ns))"

definition CleanupUnused :: "'w fs_env \<Rightarrow> (('c, 'w) fs_repo, unit) proc" where
  "CleanupUnused fs =
     andThen (cleanupMounts fs) (\<lambda>_.
     andThen (get_state (\<lambda>s. BasePath (repo_options s))) (\<lambda>base.
     andThen (must (on_fs (fs_ReadDir fs base))) (\<lambda>files.
     remove_others fs files)))"

fun delete_volumes :: "'w fs_env \<Rightarrow> volume list \<Rightarrow> (('c, 'w) fs_repo, unit) proc" where
  "delete_volumes fs [] = return ()"
| "delete_volumes fs (v # vs) =
     andThen (attempt (deleteVolume fs v)) (\<lambda>_. delete_volumes fs vs)"

definition Flush :: "('c, string) lru_cache \<Rightarrow> 'w fs_env \<Rightarrow> (('c, 'w) fs_repo, unit) proc" where
  "Flush lc fs =
     andThen (modify (\<lambda>s. s\<lparr>permStore := []\<rparr>)) (\<lambda>_.
     andThen (get_state (\<lambda>s. map snd (volumes s))) (\<lambda>vols.
     andThen (delete_volumes fs vols) (\<lambda>_.
     andThen (modify (\<lambda>s. s\<lparr>volumes := []\<rparr>)) (\<lambda>_.
     andThen (cache_op fs (\<lambda>c. case lc_Flush lc c of (ev, c') \<Rightarrow> ((), ev, c'))) (\<lambda>_.
     andThen (get_state StoragePath) (\<lambda>path.
     must (on_fs (fs_RemoveAll fs path))))))))"

text \<open>\<open>Shutdown\<close> also stops the goroutine that drops what has expired.\<close>

definition repo_Shutdown :: "('c, string) lru_cache \<Rightarrow> 'w fs_env \<Rightarrow> (('c, 'w) fs_repo, unit) proc" where
  "repo_Shutdown lc fs = Flush lc fs"

definition RelativePath :: "'w fs_env \<Rightarrow> string \<Rightarrow> ('c, 'w) fs_repo \<Rightarrow> string result" where
  "RelativePath fs path r = fs_Rel fs (BasePath (repo_options r)) path"

section \<open>What the operations keep\<close>

text \<open>Operations of the file system change only the state of the file system.\<close>

definition only_fs :: "('c, 'w) fs_repo \<Rightarrow> ('c, 'w) fs_repo \<Rightarrow> bool" where
  "only_fs s s' \<longleftrightarrow> s' = s\<lparr>fs_world := fs_world s'\<rparr>"

lemma only_fs_reflp: "reflp only_fs"
  by (simp add: only_fs_def reflp_def)

lemma only_fs_transp: "transp only_fs"
proof (rule transpI)
  fix x y z :: "('c, 'w) fs_repo"
  assume "only_fs x y" and z: "only_fs y z"
  then have y: "x\<lparr>fs_world := fs_world y\<rparr> = y" by (simp add: only_fs_def)
  have "z = x\<lparr>fs_world := fs_world y\<rparr>\<lparr>fs_world := fs_world z\<rparr>"
    unfolding y using z by (simp add: only_fs_def)
  then show "only_fs x z" by (simp add: only_fs_def)
qed

lemma on_fs_run: "m (fs_world s) = (r, w) \<Longrightarrow> on_fs m s = Returns (r, s\<lparr>fs_world := w\<rparr>)"
  by (simp add: on_fs_def lift_eff_def)

lemma on_fs_nonblocking [nonblocking_intros]: "nonblocking (on_fs m)"
  unfolding on_fs_def by (rule nonblocking_basic)

lemma on_fs_keeps: "keeps only_fs (on_fs m)"
  unfolding on_fs_def by (rule keeps_lift) (simp add: only_fs_def)

lemma GenerateKey_keeps: "keeps only_fs (GenerateKey fs)"
  unfolding GenerateKey_def by (rule on_fs_keeps)

text \<open>The handlers drop the locks of the evicted keys.\<close>

lemma evict_all_run:
  assumes "evict_all fs ev s = Returns (r, s')"
  shows "r = Inr () \<and> map_of (storeLocks s') = map_of (storeLocks s) |` (- fst ` set ev) \<and>
    fileCache s' = fileCache s \<and> next_ch s' = next_ch s \<and> closed_chs s' = closed_chs s \<and>
    permStore s' = permStore s \<and> volumes s' = volumes s \<and> repo_options s' = repo_options s \<and>
    storeID s' = storeID s"
  using assms
proof (induction ev arbitrary: s)
  case Nil
  then show ?case by (auto simp: proc_simps restrict_map_def)
next
  case (Cons x ev)
  obtain k p where x: "x = (k, p)" by force
  obtain r1 w1 where rm: "fs_RemoveAll fs p (fs_world s) = (r1, w1)" by force
  let ?s1 = "s\<lparr>storeLocks := AList.delete k (storeLocks s)\<rparr>"
  from rm have on: "on_fs (fs_RemoveAll fs p) ?s1 = Returns (r1, ?s1\<lparr>fs_world := w1\<rparr>)"
    by (simp add: on_fs_run)
  show ?case
  proof (cases r1)
    case (Inl e)
    with on Cons.prems show ?thesis
      by (simp add: x onValueEvictedHandler_def proc_simps)
  next
    case (Inr u)
    with on Cons.prems have "evict_all fs ev (?s1\<lparr>fs_world := w1\<rparr>) = Returns (r, s')"
      by (simp add: x onValueEvictedHandler_def proc_simps)
    moreover have "(map_of (storeLocks s))(k := None) |` (- fst ` set ev) =
        map_of (storeLocks s) |` (- fst ` set (x # ev))"
      by (rule ext) (simp add: x restrict_map_def)
    ultimately show ?thesis using Cons.IH by fastforce
  qed
qed

lemma cache_op_run:
  assumes "cache_op fs f s = Returns (r, s')" "f (fileCache s) = (x, ev, c')"
  shows "r = Inr x \<and> map_of (storeLocks s') = map_of (storeLocks s) |` (- fst ` set ev) \<and>
    fileCache s' = c' \<and> next_ch s' = next_ch s \<and> closed_chs s' = closed_chs s \<and>
    permStore s' = permStore s \<and> volumes s' = volumes s \<and> repo_options s' = repo_options s \<and>
    storeID s' = storeID s"
proof -
  from assms have "andThen (evict_all fs ev) (\<lambda>_. return x) (s\<lparr>fileCache := c'\<rparr>) = Returns (r, s')"
    by (simp add: cache_op_def)
  then show ?thesis
  proof (cases rule: andThen_ReturnsE)
    case (failed e)
    from evict_all_run [OF failed(1)] failed(2) show ?thesis by simp
  next
    case (returned u s1)
    from evict_all_run [OF returned(1)] returned(2) show ?thesis by (simp add: proc_simps)
  qed
qed

lemma evict_all_not_Blocks: "evict_all fs ev s \<noteq> Blocks"
proof (induction ev arbitrary: s)
  case (Cons x ev)
  obtain k p where x: "x = (k, p)" by force
  obtain r1 w1 where rm: "fs_RemoveAll fs p (fs_world s) = (r1, w1)" by force
  have on: "on_fs (fs_RemoveAll fs p) (s\<lparr>storeLocks := AList.delete k (storeLocks s)\<rparr>) =
      Returns (r1, s\<lparr>storeLocks := AList.delete k (storeLocks s), fs_world := w1\<rparr>)"
    by (simp add: on_fs_run rm)
  show ?case by (cases r1) (use on Cons.IH in \<open>simp_all add: x onValueEvictedHandler_def proc_simps\<close>)
qed (simp add: proc_simps)

text \<open>
  Making room ends: each turn removes an entry of the cache, until there is room or the
  cache is empty.
\<close>

lemma make_room_ends:
  assumes lru: "lru_documented lc ent"
  shows "\<exists>r. make_room lc fs s = Some r \<and>
    (\<forall>s'. r = Returns (Inr (), s') \<longrightarrow>
       fs_DiskUsage fs (BasePath (repo_options s)) (fs_world s') < MaxDiskUsage (repo_options s)) \<and>
    (\<forall>e s'. r = Returns (Inl e, s') \<longrightarrow> e = ENotEnoughDiskSpace \<and> ent (fileCache s') = (\<lambda>_. None)) \<and>
    (\<forall>x s'. r = Returns (x, s') \<longrightarrow> ent (fileCache s') \<subseteq>\<^sub>m ent (fileCache s)) \<and> r \<noteq> Blocks"
proof (induction "card (dom (ent (fileCache s)))" arbitrary: s rule: less_induct)
  case less
  show ?case
  proof (cases "fs_DiskUsage fs (BasePath (repo_options s)) (fs_world s) < MaxDiskUsage (repo_options s)")
    case True
    then show ?thesis by (subst make_room.simps) auto
  next
    case full: False
    obtain ok ev c' where del: "lc_DeleteLRU lc (fileCache s) = (ok, ev, c')" by (metis prod_cases3)
    note law = lru_DeleteLRU [OF lru del]
    show ?thesis
    proof (cases "cache_op fs (lc_DeleteLRU lc) s")
      case (Returns p)
      obtain r s1 where p: "p = (r, s1)" by force
      from cache_op_run [OF Returns [unfolded p] del] have r: "r = Inr ok" "fileCache s1 = c'"
        "repo_options s1 = repo_options s" by auto
      show ?thesis
      proof (cases ok)
        case True
        with law obtain k v where k: "ent (fileCache s) k = Some v"
          "ent c' = (ent (fileCache s))(k := None)" by auto
        then have "dom (ent c') = dom (ent (fileCache s)) - {k}" "k \<in> dom (ent (fileCache s))" by auto
        with lru_finite [OF lru] have "card (dom (ent c')) < card (dom (ent (fileCache s)))"
          by (metis card_Diff1_less)
        with less [of s1] r obtain r2 where r2: "make_room lc fs s1 = Some r2"
          "\<forall>s'. r2 = Returns (Inr (), s') \<longrightarrow>
             fs_DiskUsage fs (BasePath (repo_options s)) (fs_world s') < MaxDiskUsage (repo_options s)"
          "\<forall>e s'. r2 = Returns (Inl e, s') \<longrightarrow> e = ENotEnoughDiskSpace \<and> ent (fileCache s') = (\<lambda>_. None)"
          "\<forall>x s'. r2 = Returns (x, s') \<longrightarrow> ent (fileCache s') \<subseteq>\<^sub>m ent c'" "r2 \<noteq> Blocks"
          by auto
        have "ent c' \<subseteq>\<^sub>m ent (fileCache s)" unfolding k(2) by (simp add: map_le_def)
        moreover have "make_room lc fs s = make_room lc fs s1"
          by (subst make_room.simps) (use full Returns p r True in simp)
        ultimately show ?thesis using r2 map_le_trans by (intro exI [of _ r2]) fastforce
      next
        case False
        with law r have "ent c' = (\<lambda>_. None)" by simp
        with full Returns p r False show ?thesis by (subst make_room.simps) auto
      qed
    next
      case Panics
      with full show ?thesis by (subst make_room.simps) auto
    next
      case Blocks
      then have False
        using evict_all_not_Blocks [of fs ev "s\<lparr>fileCache := c'\<rparr>"] del
        by (cases "evict_all fs ev (s\<lparr>fileCache := c'\<rparr>)")
          (auto simp: cache_op_def andThen_def try_catch_def return_def throw_def split: sum.splits prod.splits)
      then show ?thesis ..
    qed
  qed
qed

section \<open>Facts\<close>

text \<open>A joined path with a component is not empty: \<open>Get\<close> tells a stored key by its path.\<close>

lemma clean_parts_neq: "[] \<notin> set acc \<Longrightarrow> [] \<notin> set (clean_parts rooted acc ss)"
proof (induction rooted acc ss rule: clean_parts.induct)
  case (2 rooted acc s ss)
  show ?case
    using 2 by (auto split: list.split)
qed simp

lemma path_unsplit_neq: "parts \<noteq> [] \<Longrightarrow> [] \<notin> set parts \<Longrightarrow> path_unsplit parts \<noteq> []"
  by (induction parts rule: path_unsplit.induct) auto

lemma path_clean_neq [simp]: "path_clean p \<noteq> []"
  using path_unsplit_neq [of "clean_parts False [] (path_split p)"] clean_parts_neq [of "[]" False "path_split p"]
  by (auto simp: path_clean_def Let_def)

lemma path_join_neq: "s \<in> set elems \<Longrightarrow> s \<noteq> [] \<Longrightarrow> path_join elems \<noteq> []"
  by (auto simp: path_join_def filter_empty_conv split: list.split)

lemma store_path_neq [simp]: "store_path r key storeKey \<noteq> []"
  unfolding store_path_def by (rule path_join_neq [of "''files''"]) auto

lemma store_path_cong: "storeID s = storeID s' \<Longrightarrow> repo_options s = repo_options s' \<Longrightarrow> store_path s k j = store_path s' k j"
  by (simp add: store_path_def StoragePath_def)

lemma store_path_update [simp]:
  "store_path (s\<lparr>fileCache := c\<rparr>) k j = store_path s k j"
  "store_path (s\<lparr>closed_chs := chs\<rparr>) k j = store_path s k j"
  "store_path (s\<lparr>fs_world := w\<rparr>) k j = store_path s k j"
  "store_path (s\<lparr>storeLocks := ls\<rparr>) k j = store_path s k j"
  by (simp_all add: store_path_def StoragePath_def)

lemma Get_cached:
  assumes "lru_documented lc ent" "getPermStore key s = []"
  shows "fst (Get lc key s) = (case ent (fileCache s) key of None \<Rightarrow> [] | Some p \<Rightarrow> p)"
proof -
  obtain r c' where "lc_Get lc key (fileCache s) = (r, c')" by force
  with lru_Get [OF assms(1) this] assms(2) show ?thesis by (simp add: Get_def)
qed

lemma removeStoreLock_run:
  "removeStoreLock key ch s = Returns (Inr (), if map_of (storeLocks s) key = Some ch
     then s\<lparr>storeLocks := AList.delete key (storeLocks s)\<rparr> else s)"
  by (simp add: removeStoreLock_def proc_simps)

text \<open>An unlock that saves under a new key stores the path.\<close>

lemma StoreUnlock_saves:
  assumes lru: "lru_documented lc ent" and new: "ent (fileCache s) key = None"
    and run: "StoreUnlock lc fs key sk ch True s = Returns (r, s')"
  shows "ent (fileCache s') key = Some (store_path s key sk)" "permStore s' = permStore s"
    "storeID s' = storeID s" "repo_options s' = repo_options s" "r = Inr ()"
    "ch \<notin> set (closed_chs s)" "closed_chs s' = ch # closed_chs s" "next_ch s' = next_ch s"
    "ent (fileCache s') j = Some p \<Longrightarrow> j = key \<or> ent (fileCache s) j = Some p"
    "map_of (storeLocks s') j = map_of (storeLocks s) j \<or>
       (map_of (storeLocks s') j = None \<and> j \<noteq> key \<and> ent (fileCache s) j \<noteq> None \<and>
        ent (fileCache s') j = None)"
proof -
  obtain ok ev c' where add: "lc_Add lc key (store_path s key sk) (fileCache s) = (ok, ev, c')"
    by (metis prod_cases3)
  note law = lru_Add [OF lru add]
  have ok using law(1) new by simp
  obtain s1 where op: "cache_op fs (lc_Add lc key (store_path s key sk)) s = Returns (Inr True, s1)"
    and close: "close_ch ch s1 = Returns (r, s')"
  proof (cases "cache_op fs (lc_Add lc key (store_path s key sk)) s")
    case (Returns p)
    obtain x s1 where p: "p = (x, s1)" by force
    from cache_op_run [OF Returns [unfolded p] add] \<open>ok\<close> have "x = Inr True" by simp
    with Returns p run that show thesis by (simp add: StoreUnlock_def proc_simps)
  qed (use run in \<open>simp_all add: StoreUnlock_def proc_simps\<close>)
  from cache_op_run [OF op add] have s1: "fileCache s1 = c'" "permStore s1 = permStore s"
    "storeID s1 = storeID s" "repo_options s1 = repo_options s" "closed_chs s1 = closed_chs s"
    "next_ch s1 = next_ch s" "map_of (storeLocks s1) = map_of (storeLocks s) |` (- fst ` set ev)"
    by auto
  from close s1(5) have s': "s' = s1\<lparr>closed_chs := ch # closed_chs s1\<rparr>" and "r = Inr ()"
    and "ch \<notin> set (closed_chs s)"
    by (auto simp: close_ch_def split: if_splits)
  show "r = Inr ()" "ch \<notin> set (closed_chs s)" by fact+
  have ent: "ent c' = (\<lambda>j. if j \<in> fst ` set ev then None else ((ent (fileCache s))(key \<mapsto> store_path s key sk)) j)"
    and key: "key \<notin> fst ` set ev" using law(3,5) \<open>ok\<close> by auto
  show "ent (fileCache s') key = Some (store_path s key sk)"
    by (simp add: s' s1 ent key)
  show "permStore s' = permStore s" "storeID s' = storeID s" "repo_options s' = repo_options s"
    "closed_chs s' = ch # closed_chs s" "next_ch s' = next_ch s" by (simp_all add: s' s1)
  show "ent (fileCache s') j = Some p \<Longrightarrow> j = key \<or> ent (fileCache s) j = Some p"
    by (auto simp: s' s1 ent split: if_splits)
  show "map_of (storeLocks s') j = map_of (storeLocks s) j \<or>
       (map_of (storeLocks s') j = None \<and> j \<noteq> key \<and> ent (fileCache s) j \<noteq> None \<and>
        ent (fileCache s') j = None)"
  proof (cases "j \<in> fst ` set ev")
    case True
    then obtain u where "(j, u) \<in> set ev" by auto
    from law(4) [OF \<open>ok\<close> this] have "ent (fileCache s) j \<noteq> None" by simp
    with True key show ?thesis by (auto simp: s' s1 ent)
  next
    case False
    then show ?thesis by (simp add: s' s1 restrict_map_def)
  qed
qed

lemma close_ch_E:
  assumes "close_ch ch s = Returns (r, s')"
  shows "r = Inr ()" "ch \<notin> set (closed_chs s)" "s' = s\<lparr>closed_chs := ch # closed_chs s\<rparr>"
  using assms by (auto simp: close_ch_def split: if_splits)

text \<open>
  An unlock that discards, on request or because the key was stored in the meantime, keeps
  the cache and removes the upload's directory.
\<close>

lemma StoreUnlock_discards:
  assumes lru: "lru_documented lc ent" and "\<not> save \<or> ent (fileCache s) key \<noteq> None"
    and run: "StoreUnlock lc fs key sk ch save s = Returns (r, s')"
  shows "ent (fileCache s') = ent (fileCache s)" "permStore s' = permStore s" "r = Inr ()"
    "fs_world s' = snd (fs_RemoveAll fs (store_path s key sk) (fs_world s))"
    "closed_chs s' = ch # closed_chs s" "next_ch s' = next_ch s" "ch \<notin> set (closed_chs s)"
    "map_of (storeLocks s') =
       (if map_of (storeLocks s) key = Some ch then (map_of (storeLocks s))(key := None)
        else map_of (storeLocks s))"
    "storeID s' = storeID s" "repo_options s' = repo_options s"
proof -
  obtain ok ev c' where add: "lc_Add lc key (store_path s key sk) (fileCache s) = (ok, ev, c')"
    by (metis prod_cases3)
  note law = lru_Add [OF lru add]
  define s1 where "s1 = (if save then s\<lparr>fileCache := c'\<rparr> else s)"
  have saved: "(if save then cache_op fs (lc_Add lc key (store_path s key sk)) else return False) s =
      Returns (Inr False, s1)"
  proof (cases save)
    case True
    with assms(2) law(1,2) have "\<not> ok" "ev = []" by auto
    with True add show ?thesis by (simp add: s1_def cache_op_def proc_simps)
  qed (simp add: s1_def proc_simps)
  obtain r1 w1 where rm: "fs_RemoveAll fs (store_path s key sk) (fs_world s) = (r1, w1)" by force
  have w: "fs_world s1 = fs_world s" by (simp add: s1_def)
  define s2 where "s2 = (if map_of (storeLocks s) key = Some ch
     then s1\<lparr>fs_world := w1, storeLocks := AList.delete key (storeLocks s)\<rparr> else s1\<lparr>fs_world := w1\<rparr>)"
  have "on_fs (fs_RemoveAll fs (store_path s key sk)) s1 = Returns (r1, s1\<lparr>fs_world := w1\<rparr>)"
    by (simp add: on_fs_run w rm)
  then have "andThen (attempt (on_fs (fs_RemoveAll fs (store_path s key sk)))) (\<lambda>_. removeStoreLock key ch) s1 =
      Returns (Inr (), s2)"
    by (simp add: proc_simps removeStoreLock_run s2_def s1_def)
  with saved have "StoreUnlock lc fs key sk ch save s = close_ch ch s2"
    by (cases save) (simp_all add: StoreUnlock_def proc_eval)
  from run [unfolded this] have s': "s' = s2\<lparr>closed_chs := ch # closed_chs s2\<rparr>" and "r = Inr ()"
    and nc: "ch \<notin> set (closed_chs s2)"
    by (auto dest: close_ch_E)
  have "save \<Longrightarrow> ent c' = ent (fileCache s)" using assms(2) law(1,2) by auto
  then show "ent (fileCache s') = ent (fileCache s)" by (auto simp: s' s2_def s1_def)
  show "permStore s' = permStore s" "r = Inr ()" "closed_chs s' = ch # closed_chs s"
    "next_ch s' = next_ch s" "ch \<notin> set (closed_chs s)"
    "storeID s' = storeID s" "repo_options s' = repo_options s"
    using nc \<open>r = Inr ()\<close> by (auto simp: s' s2_def s1_def split: if_splits)
  show "fs_world s' = snd (fs_RemoveAll fs (store_path s key sk) (fs_world s))"
    by (simp add: s' s2_def s1_def rm)
  show "map_of (storeLocks s') =
       (if map_of (storeLocks s) key = Some ch then (map_of (storeLocks s))(key := None)
        else map_of (storeLocks s))"
    by (simp add: s' s2_def s1_def)
qed

section \<open>The lock protocol\<close>

text \<open>
  Many clients at once. A client has nothing, waits on the channel of another, or holds the
  lock of a key. Each step is an operation of the repository, run under its mutex; besides
  them entries leave the cache (time to live, an explicit delete, no room on the disk). Only
  a wait that times out is left out: after it a client takes the lock over on purpose.
\<close>

datatype client = Idle | Waiting string nat | Holding string string nat

inductive lock_step ::
  "('c, string) lru_cache \<Rightarrow> 'w fs_env \<Rightarrow> ('c, 'w) fs_repo \<times> (nat \<Rightarrow> client)
   \<Rightarrow> ('c, 'w) fs_repo \<times> (nat \<Rightarrow> client) \<Rightarrow> bool"
  for lc fs where
  acquire: "cl i = Idle \<Longrightarrow> store_lock_try fs key s = Returns (Inr (Acquired ch sk), s') \<Longrightarrow>
    lock_step lc fs (s, cl) (s', cl(i := Holding key sk ch))"
| wait: "cl i = Idle \<Longrightarrow> store_lock_try fs key s = Returns (Inr (WaitFor ch), s') \<Longrightarrow>
    lock_step lc fs (s, cl) (s', cl(i := Waiting key ch))"
| woken: "cl i = Waiting key ch \<Longrightarrow> ch \<in> set (closed_chs s) \<Longrightarrow>
    store_lock_woken lc key ch s = Returns (Inr l, s') \<Longrightarrow>
    lock_step lc fs (s, cl) (s', cl(i := Idle))"
| unlock: "cl i = Holding key sk ch \<Longrightarrow> StoreUnlock lc fs key sk ch save s = Returns (r, s') \<Longrightarrow>
    lock_step lc fs (s, cl) (s', cl(i := Idle))"
| expire: "cache_op fs (lc_Delete lc key) s = Returns (r, s') \<Longrightarrow> lock_step lc fs (s, cl) (s', cl)"
| delete_lru: "cache_op fs (lc_DeleteLRU lc) s = Returns (r, s') \<Longrightarrow> lock_step lc fs (s, cl) (s', cl)"

inductive_cases lock_stepE: "lock_step lc fs (s, cl) (s', cl')"

text \<open>
  The invariant. A holder's channel is registered under its key and open, and no two holders
  share one; a cached key has a lock entry (of the upload that stored it) and no holder;
  cached paths are not empty; channels are numbered below \<open>next_ch\<close>.
\<close>

definition holds_registered :: "('c, 'w) fs_repo \<Rightarrow> (nat \<Rightarrow> client) \<Rightarrow> bool" where
  "holds_registered s cl \<longleftrightarrow> (\<forall>i k sk ch. cl i = Holding k sk ch \<longrightarrow>
     map_of (storeLocks s) k = Some ch \<and> ch \<notin> set (closed_chs s))"

definition holds_distinct :: "(nat \<Rightarrow> client) \<Rightarrow> bool" where
  "holds_distinct cl \<longleftrightarrow> (\<forall>i j k k' sk sk' ch.
     cl i = Holding k sk ch \<longrightarrow> cl j = Holding k' sk' ch \<longrightarrow> i = j)"

definition cached_unlocked ::
  "('c \<Rightarrow> string \<Rightarrow> string option) \<Rightarrow> ('c, 'w) fs_repo \<Rightarrow> (nat \<Rightarrow> client) \<Rightarrow> bool" where
  "cached_unlocked ent s cl \<longleftrightarrow> (\<forall>k p. ent (fileCache s) k = Some p \<longrightarrow>
     p \<noteq> [] \<and> map_of (storeLocks s) k \<noteq> None \<and> (\<forall>i sk ch. cl i \<noteq> Holding k sk ch))"

definition channels_bounded :: "('c, 'w) fs_repo \<Rightarrow> (nat \<Rightarrow> client) \<Rightarrow> bool" where
  "channels_bounded s cl \<longleftrightarrow> set (closed_chs s) \<subseteq> {..< next_ch s} \<and>
     (\<forall>k ch. map_of (storeLocks s) k = Some ch \<longrightarrow> ch < next_ch s)"

definition lock_inv ::
  "('c \<Rightarrow> string \<Rightarrow> string option) \<Rightarrow> ('c, 'w) fs_repo \<times> (nat \<Rightarrow> client) \<Rightarrow> bool" where
  "lock_inv ent = (\<lambda>(s, cl). holds_registered s cl \<and> holds_distinct cl \<and> cached_unlocked ent s cl \<and>
     channels_bounded s cl)"

lemmas lock_inv_defs = lock_inv_def holds_registered_def holds_distinct_def cached_unlocked_def
  channels_bounded_def

lemma lock_inv_split:
  "lock_inv ent (s, cl) \<longleftrightarrow> holds_registered s cl \<and> holds_distinct cl \<and> cached_unlocked ent s cl \<and>
     channels_bounded s cl"
  by (simp add: lock_inv_def)

lemma lock_inv_holding:
  assumes "lock_inv ent (s, cl)" "cl i = Holding k sk ch"
  shows "map_of (storeLocks s) k = Some ch" "ch \<notin> set (closed_chs s)" "ch < next_ch s"
    "ent (fileCache s) k = None" "cl j = Holding k' sk' ch \<Longrightarrow> j = i" "cl j = Holding k sk' ch' \<Longrightarrow> j = i"
proof -
  from assms(1) have inv: "holds_registered s cl" "holds_distinct cl" "cached_unlocked ent s cl"
    "channels_bounded s cl" by (simp_all add: lock_inv_split)
  show reg: "map_of (storeLocks s) k = Some ch" "ch \<notin> set (closed_chs s)"
    using inv(1) assms(2) unfolding holds_registered_def by blast+
  then show "ch < next_ch s" using inv(4) unfolding channels_bounded_def by blast
  show "ent (fileCache s) k = None"
    using inv(3) assms(2) unfolding cached_unlocked_def by (cases "ent (fileCache s) k") blast+
  show same: "cl j = Holding k' sk' ch \<Longrightarrow> j = i" for j k' sk'
    using inv(2) assms(2) unfolding holds_distinct_def by blast
  show "cl j = Holding k sk' ch' \<Longrightarrow> j = i"
    using inv(1) reg(1) same unfolding holds_registered_def by (metis option.inject)
qed

lemma store_lock_try_cases:
  assumes "store_lock_try fs key s = Returns (Inr l, s')"
  shows "(\<exists>ch. l = WaitFor ch \<and> map_of (storeLocks s) key = Some ch \<and> s' = s) \<or>
    (\<exists>sk w. l = Acquired (next_ch s) sk \<and> map_of (storeLocks s) key = None \<and>
       s' = s\<lparr>storeLocks := AList.update key (next_ch s) (storeLocks s), next_ch := next_ch s + 1, fs_world := w\<rparr>)"
proof (cases "map_of (storeLocks s) key")
  case None
  obtain sk w where gk: "fs_GenerateKey fs (fs_world s) = (sk, w)" by force
  from assms None gk
  have "Acquired (next_ch s) sk = l" and
    "s\<lparr>storeLocks := AList.update key (next_ch s) (storeLocks s), next_ch := next_ch s + 1, fs_world := w\<rparr> = s'"
    by (simp_all add: store_lock_try_def proc_eval GenerateKey_def on_fs_def lift_eff_def)
  with None show ?thesis by blast
next
  case (Some ch)
  with assms show ?thesis by (simp add: store_lock_try_def proc_eval)
qed

lemma store_lock_woken_cases:
  assumes lru: "lru_documented lc ent" and "store_lock_woken lc key ch s = Returns (r, s')"
  shows "ent (fileCache s') = ent (fileCache s) \<and> closed_chs s' = closed_chs s \<and> next_ch s' = next_ch s \<and>
    (map_of (storeLocks s') = map_of (storeLocks s) \<or>
     map_of (storeLocks s) key = Some ch \<and> map_of (storeLocks s') = (map_of (storeLocks s))(key := None) \<and>
     (case ent (fileCache s) key of None \<Rightarrow> True | Some p \<Rightarrow> p = []))"
proof -
  obtain p s1 where g: "Get lc key s = (p, s1)" by force
  obtain q c' where lg: "lc_Get lc key (fileCache s) = (q, c')" by force
  note law = lru_Get [OF lru lg]
  have s1: "ent (fileCache s1) = ent (fileCache s)" "storeLocks s1 = storeLocks s"
    "closed_chs s1 = closed_chs s" "next_ch s1 = next_ch s"
    using g lg law by (auto simp: Get_def split: if_splits)
  have "(case ent (fileCache s) key of None \<Rightarrow> True | Some p \<Rightarrow> p = [])" if "p = []"
    using that g lg law by (auto simp: Get_def split: if_splits option.splits)
  with assms(2) g s1 show ?thesis
    by (auto simp: store_lock_woken_def repo_get_def store_lock_retry_def proc_eval removeStoreLock_def
        split: if_splits)
qed

text \<open>Entries that leave the cache take their locks along, which nobody holds.\<close>

lemma lock_inv_evict:
  assumes inv: "lock_inv ent (s, cl)"
    and locks: "map_of (storeLocks s') = map_of (storeLocks s) |` (- K)"
    and K: "\<And>k. k \<in> K \<Longrightarrow> ent (fileCache s) k \<noteq> None"
    and ent: "ent (fileCache s') = ent (fileCache s) |` (- K)"
    and same: "closed_chs s' = closed_chs s" "next_ch s' = next_ch s"
  shows "lock_inv ent (s', cl)"
proof -
  have held: "k \<notin> K" if "cl i = Holding k sk ch" for i k sk ch
    using lock_inv_holding(4) [OF inv that] K by blast
  have "holds_registered s' cl"
    using inv held unfolding lock_inv_defs locks same by (simp add: restrict_map_def)
  moreover have "holds_distinct cl" using inv by (simp add: lock_inv_def)
  moreover have "cached_unlocked ent s' cl"
    using inv unfolding lock_inv_split cached_unlocked_def locks ent
    by (auto simp: restrict_map_def split: if_splits)
  moreover have "channels_bounded s' cl"
    using inv unfolding lock_inv_split channels_bounded_def locks same
    by (auto simp: restrict_map_def split: if_splits)
  ultimately show ?thesis by (simp add: lock_inv_def)
qed

lemma lock_inv_acquire:
  assumes inv: "lock_inv ent (s, cl)" and "cl i = Idle" and free: "map_of (storeLocks s) key = None"
  shows "lock_inv ent (s\<lparr>storeLocks := AList.update key (next_ch s) (storeLocks s),
      next_ch := next_ch s + 1, fs_world := w\<rparr>, cl(i := Holding key sk (next_ch s)))"
    (is "lock_inv ent (?s, ?cl)")
proof -
  have reg: "map_of (storeLocks s) k = Some ch" "ch \<notin> set (closed_chs s)" "k \<noteq> key" "ch < next_ch s"
    if "cl j = Holding k sk' ch" for j k sk' ch
    using lock_inv_holding(1-3) [OF inv that] free by auto
  have fresh: "next_ch s \<notin> set (closed_chs s)"
    using inv unfolding lock_inv_split channels_bounded_def by auto
  have nocache: "ent (fileCache s) key = None"
    using inv free unfolding lock_inv_split cached_unlocked_def
    by (metis not_None_eq)
  have "holds_registered ?s ?cl"
    using reg fresh unfolding holds_registered_def by auto
  moreover have "holds_distinct ?cl"
    using inv reg(4) unfolding lock_inv_split holds_distinct_def by (auto split: if_splits)
  moreover have "cached_unlocked ent ?s ?cl"
    using inv nocache unfolding lock_inv_split cached_unlocked_def by auto
  moreover have "channels_bounded ?s ?cl"
    using inv unfolding lock_inv_split channels_bounded_def by (auto simp: less_Suc_eq)
  ultimately show ?thesis by (simp add: lock_inv_def)
qed

lemma lock_inv_idle:
  assumes "lock_inv ent (s, cl)"
  shows "lock_inv ent (s, cl(i := Idle))" "lock_inv ent (s, cl(i := Waiting key ch))"
  using assms unfolding lock_inv_defs by (fastforce split: if_splits)+

lemma lock_inv_save:
  assumes lru: "lru_documented lc ent" and inv: "lock_inv ent (s, cl)"
    and held: "cl i = Holding key sk ch"
    and run: "StoreUnlock lc fs key sk ch True s = Returns (r, s')"
  shows "lock_inv ent (s', cl(i := Idle))"
proof -
  have new: "ent (fileCache s) key = None" and reg: "map_of (storeLocks s) key = Some ch"
    and ch: "ch < next_ch s"
    using lock_inv_holding(1,3,4) [OF inv held] by simp_all
  note sv = StoreUnlock_saves [OF lru new run]
  have other: "k \<noteq> key \<and> ch' \<noteq> ch \<and> ent (fileCache s) k = None \<and> map_of (storeLocks s) k = Some ch' \<and>
      ch' \<notin> set (closed_chs s)"
    if "cl j = Holding k sk' ch'" "j \<noteq> i" for j k sk' ch'
    using lock_inv_holding(1,2,4) [OF inv that(1)] lock_inv_holding(5,6) [OF inv held] that by blast
  have "holds_registered s' (cl(i := Idle))"
    unfolding holds_registered_def
  proof (intro allI impI)
    fix j k sk' ch' assume "(cl(i := Idle)) j = Holding k sk' ch'"
    then have "cl j = Holding k sk' ch'" "j \<noteq> i" by (auto split: if_splits)
    from other [OF this] sv(7) sv(10) [of k]
    show "map_of (storeLocks s') k = Some ch' \<and> ch' \<notin> set (closed_chs s')" by auto
  qed
  moreover have "holds_distinct (cl(i := Idle))"
    using inv unfolding lock_inv_split holds_distinct_def by auto
  moreover have "cached_unlocked ent s' (cl(i := Idle))"
    unfolding cached_unlocked_def
  proof (intro allI impI conjI)
    fix k p assume k: "ent (fileCache s') k = Some p"
    consider "k = key" | "k \<noteq> key" "ent (fileCache s) k = Some p" using sv(9) [OF k] by blast
    then have "p \<noteq> [] \<and> map_of (storeLocks s') k \<noteq> None \<and> (\<forall>j sk ch. (cl(i := Idle)) j \<noteq> Holding k sk ch)"
    proof cases
      case 1
      with k sv(1) have "p = store_path s key sk" by simp
      moreover have "map_of (storeLocks s') k \<noteq> None" using sv(10) [of key] reg 1 by auto
      ultimately show ?thesis using 1 other by (auto split: if_splits)
    next
      case 2
      then have "p \<noteq> []" "map_of (storeLocks s) k \<noteq> None" "\<forall>j sk ch. cl j \<noteq> Holding k sk ch"
        using inv unfolding lock_inv_split cached_unlocked_def by blast+
      with sv(10) [of k] k show ?thesis by auto
    qed
    then show "p \<noteq> []" "map_of (storeLocks s') k \<noteq> None"
      "\<And>j sk ch. (cl(i := Idle)) j \<noteq> Holding k sk ch" by auto
  qed
  moreover have "channels_bounded s' (cl(i := Idle))"
  proof -
    have "ch' < next_ch s" if "map_of (storeLocks s') k = Some ch'" for k ch'
      using inv that sv(10) [of k] unfolding lock_inv_split channels_bounded_def by auto
    moreover have "set (closed_chs s) \<subseteq> {..< next_ch s}"
      using inv unfolding lock_inv_split channels_bounded_def by blast
    ultimately show ?thesis using ch sv(7,8) unfolding channels_bounded_def by auto
  qed
  ultimately show ?thesis by (simp add: lock_inv_def)
qed

lemma lock_inv_discard:
  assumes lru: "lru_documented lc ent" and inv: "lock_inv ent (s, cl)"
    and held: "cl i = Holding key sk ch"
    and run: "StoreUnlock lc fs key sk ch False s = Returns (r, s')"
  shows "lock_inv ent (s', cl(i := Idle))"
proof -
  have new: "ent (fileCache s) key = None" and reg: "map_of (storeLocks s) key = Some ch"
    and ch: "ch < next_ch s"
    using lock_inv_holding(1,3,4) [OF inv held] by simp_all
  note sv = StoreUnlock_discards [OF lru _ run, simplified reg, simplified]
  have other: "k \<noteq> key \<and> ch' \<noteq> ch"
    if "cl j = Holding k sk' ch'" "j \<noteq> i" for j k sk' ch'
    using lock_inv_holding(5,6) [OF inv held] that by blast
  have "holds_registered s' (cl(i := Idle))"
    using inv other unfolding lock_inv_split holds_registered_def by (auto simp: sv(5,8))
  moreover have "holds_distinct (cl(i := Idle))"
    using inv unfolding lock_inv_split holds_distinct_def by auto
  moreover have "cached_unlocked ent s' (cl(i := Idle))"
    using inv new unfolding lock_inv_split cached_unlocked_def by (auto simp: sv(1,8))
  moreover have "channels_bounded s' (cl(i := Idle))"
    using inv ch unfolding lock_inv_split channels_bounded_def by (auto simp: sv(5,6,8))
  ultimately show ?thesis by (simp add: lock_inv_def)
qed

lemma lock_inv_woken:
  assumes lru: "lru_documented lc ent" and inv: "lock_inv ent (s, cl)"
    and ch: "ch \<in> set (closed_chs s)" and run: "store_lock_woken lc key ch s = Returns (r, s')"
  shows "lock_inv ent (s', cl)"
proof -
  note w = store_lock_woken_cases [OF lru run]
  show ?thesis
  proof (cases "map_of (storeLocks s') = map_of (storeLocks s)")
    case True
    with w have "ent (fileCache s') = ent (fileCache s)" "closed_chs s' = closed_chs s" "next_ch s' = next_ch s"
      by simp_all
    with True inv show ?thesis
      unfolding lock_inv_split holds_registered_def cached_unlocked_def channels_bounded_def by presburger
  next
    case False
    with w have reg: "map_of (storeLocks s) key = Some ch"
      and locks: "map_of (storeLocks s') = (map_of (storeLocks s))(key := None)"
      and none: "case ent (fileCache s) key of None \<Rightarrow> True | Some p \<Rightarrow> p = []"
      and same: "ent (fileCache s') = ent (fileCache s)" "closed_chs s' = closed_chs s" "next_ch s' = next_ch s"
      by auto
    have nk: "ent (fileCache s) key = None"
      using none inv unfolding lock_inv_split cached_unlocked_def by (auto split: option.splits)
    have free: "k \<noteq> key" if "cl j = Holding k sk' ch'" for j k sk' ch'
      using lock_inv_holding(1,2) [OF inv that] reg ch by auto
    show ?thesis
      using inv free nk
      unfolding lock_inv_split holds_registered_def cached_unlocked_def channels_bounded_def locks same
      by (auto split: if_splits)
  qed
qed

lemma lock_step_inv:
  assumes lru: "lru_documented lc ent" and "lock_step lc fs p q" "lock_inv ent p"
  shows "lock_inv ent q"
  using assms(2,3)
proof cases
  case (acquire cl i key s ch sk s')
  from store_lock_try_cases [OF acquire(4)] acquire(1-3) assms(3) lock_inv_acquire
  show ?thesis by auto
next
  case (wait cl i key s ch s')
  from store_lock_try_cases [OF wait(4)] wait assms(3) lock_inv_idle(2) show ?thesis by auto
next
  case (woken cl i key ch s l s')
  with lock_inv_woken [OF lru, of s cl ch key "Inr l" s'] lock_inv_idle(1) assms(3) show ?thesis by auto
next
  case (unlock cl i key sk ch save s r s')
  show ?thesis
  proof (cases save)
    case True
    with unlock lock_inv_save [OF lru, of s cl i key sk ch fs r s'] assms(3) show ?thesis by simp
  next
    case False
    with unlock lock_inv_discard [OF lru, of s cl i key sk ch fs r s'] assms(3) show ?thesis by simp
  qed
next
  case (expire key s r s' cl)
  obtain ok ev c' where del: "lc_Delete lc key (fileCache s) = (ok, ev, c')" by (metis prod_cases3)
  note law = lru_Delete [OF lru del]
  have "lock_inv ent (s', cl)"
  proof (rule lock_inv_evict [of ent s cl _ "fst ` set ev"])
    show "ent (fileCache s') = ent (fileCache s) |` (- fst ` set ev)"
      using cache_op_run [OF expire(3) del] law
      by (auto simp: restrict_map_def fun_eq_iff split: option.splits)
  qed (use cache_op_run [OF expire(3) del] law expire(1) assms(3) in \<open>auto split: option.splits\<close>)
  with expire show ?thesis by simp
next
  case (delete_lru s r s' cl)
  obtain ok ev c' where del: "lc_DeleteLRU lc (fileCache s) = (ok, ev, c')" by (metis prod_cases3)
  note law = lru_DeleteLRU [OF lru del]
  have "lock_inv ent (s', cl)"
  proof (rule lock_inv_evict [of ent s cl _ "fst ` set ev"])
    show "ent (fileCache s') = ent (fileCache s) |` (- fst ` set ev)"
      using cache_op_run [OF delete_lru(3) del] law
      by (auto simp: restrict_map_def fun_eq_iff split: if_splits)
  qed (use cache_op_run [OF delete_lru(3) del] law delete_lru(1) assms(3) in \<open>auto split: if_splits\<close>)
  with delete_lru show ?thesis by simp
qed

lemma lock_steps_inv:
  assumes "lru_documented lc ent" "(lock_step lc fs)\<^sup>*\<^sup>* p q" "lock_inv ent p"
  shows "lock_inv ent q"
  using assms(2,3) by induction (auto intro: lock_step_inv [OF assms(1)])

section \<open>Properties\<close>

text \<open>A file system for the witnesses: every call succeeds; the state lists what was removed.\<close>

definition toy_fs :: "string list fs_env" where
  "toy_fs = \<lparr>fs_MkdirAll = \<lambda>p w. (Inr (), w), fs_Mkdir = \<lambda>p w. (Inr (), w),
     fs_Create = \<lambda>p w. (Inr 1, w), fs_Chmod = \<lambda>p n w. (Inr (), w), fs_CopyTo = \<lambda>f b w. (Inr (), w),
     fs_CloseFile = \<lambda>f w. (Inr (), w), fs_RemoveAll = \<lambda>p w. (Inr (), p # w),
     fs_Link = \<lambda>a b w. (Inr (), w), fs_Walk = \<lambda>p w. [], fs_Rel = \<lambda>a b. Inr b,
     fs_ReadDir = \<lambda>p w. (Inr [], w), fs_ReadMounts = \<lambda>w. None, fs_Command = \<lambda>c w. (Inr (), w),
     fs_DiskUsage = \<lambda>p w. 95, fs_GenerateKey = \<lambda>w. (''key'', w)\<rparr>"

definition toy_repo :: "((string \<times> string) list, string list) fs_repo" where
  "toy_repo = \<lparr>storeID = ''id'', fileCache = [], repo_options = DefaultRepoOptions, permStore = [],
     volumes = [], storeLocks = [], next_ch = 0, closed_chs = [], fs_world = []\<rparr>"

lemma toy_repo_fields [simp]:
  "fileCache toy_repo = []" "storeLocks toy_repo = []" "closed_chs toy_repo = []"
  "fs_world toy_repo = []" "permStore toy_repo = []"
  by (simp_all add: toy_repo_def)

text \<open>
  The first upload that is saved wins. Of two uploads of a key that both end with a save,
  the first makes \<open>Get\<close> return its directory; the second one leaves that, and its own
  directory is removed.
\<close>

theorem repo_first_upload_wins:
  assumes "lru_documented lc ent" "ent (fileCache s) key = None" "getPermStore key s = []"
    and "StoreUnlock lc fs key sk1 ch1 True s = Returns (r1, s1)"
    and "StoreUnlock lc fs key sk2 ch2 True s1 = Returns (r2, s2)"
  shows "fst (Get lc key s1) = store_path s key sk1 \<and> fst (Get lc key s2) = store_path s key sk1 \<and>
    fs_world s2 = snd (fs_RemoveAll fs (store_path s key sk2) (fs_world s1))"
proof -
  note sv = StoreUnlock_saves [OF assms(1,2,4)]
  have "\<not> True \<or> ent (fileCache s1) key \<noteq> None" using sv(1) by simp
  note dc = StoreUnlock_discards [OF assms(1) this assms(5)]
  have perm: "getPermStore key s1 = []" "getPermStore key s2 = []"
    using assms(3) sv(2) dc(2) by (simp_all add: getPermStore_def)
  have "store_path s1 key sk2 = store_path s key sk2" by (rule store_path_cong) (simp_all add: sv)
  with dc(4) Get_cached [OF assms(1) perm(1)] Get_cached [OF assms(1) perm(2)] sv(1) dc(1)
  show ?thesis by simp
qed

lemma toy_unlock:
  "StoreUnlock (list_lru 2) toy_fs ''k'' ''a'' 0 True toy_repo =
     Returns (Inr (), toy_repo\<lparr>fileCache := [(''k'', store_path toy_repo ''k'' ''a'')], closed_chs := [0]\<rparr>)"
  by (simp add: StoreUnlock_def proc_eval cache_op_def list_lru_def close_ch_def)

theorem repo_first_upload_wins_witness:
  "fst (Get (list_lru 2) ''k''
     (toy_repo\<lparr>fileCache := [(''k'', store_path toy_repo ''k'' ''a'')], closed_chs := [1, 0],
               fs_world := [store_path toy_repo ''k'' ''b'']\<rparr>)) = store_path toy_repo ''k'' ''a''"
proof -
  let ?s1 = "toy_repo\<lparr>fileCache := [(''k'', store_path toy_repo ''k'' ''a'')], closed_chs := [0]\<rparr>"
  have "StoreUnlock (list_lru 2) toy_fs ''k'' ''b'' 1 True ?s1 =
     Returns (Inr (), ?s1\<lparr>closed_chs := [1, 0], fs_world := [store_path toy_repo ''k'' ''b'']\<rparr>)"
    unfolding StoreUnlock_def
    by (simp add: proc_eval cache_op_def list_lru_def close_ch_def on_fs_def lift_eff_def
        toy_fs_def removeStoreLock_def)
  from conjunct1 [OF conjunct2 [OF repo_first_upload_wins [OF list_lru_documented _ _ toy_unlock this]]]
  show ?thesis by (simp add: getPermStore_def)
qed



text \<open>
  C26: storing a file never hangs. The loop that makes room ends: with space below the limit,
  or with \<open>ErrNotEnoughDiskSpace\<close> and then only after the whole cache has been emptied; in
  that case nothing was created.
\<close>

theorem repo_store_makes_room:
  assumes "lru_documented lc ent"
  shows "Store lc fs key sk src filename mode s \<noteq> Blocks \<and>
    (\<exists>r. make_room lc fs s = Some r \<and>
      (\<forall>s'. r = Returns (Inr (), s') \<longrightarrow>
         fs_DiskUsage fs (BasePath (repo_options s)) (fs_world s') < MaxDiskUsage (repo_options s)) \<and>
      (\<forall>e s'. r = Returns (Inl e, s') \<longrightarrow> e = ENotEnoughDiskSpace \<and> ent (fileCache s') = (\<lambda>_. None) \<and>
         Store lc fs key sk src filename mode s = Returns (Inl ENotEnoughDiskSpace, s')))"
proof -
  from make_room_ends [OF assms, of fs s] obtain r where r: "make_room lc fs s = Some r"
    and room: "\<forall>s'. r = Returns (Inr (), s') \<longrightarrow>
       fs_DiskUsage fs (BasePath (repo_options s)) (fs_world s') < MaxDiskUsage (repo_options s)"
    and full: "\<forall>e s'. r = Returns (Inl e, s') \<longrightarrow> e = ENotEnoughDiskSpace \<and> ent (fileCache s') = (\<lambda>_. None)"
    by (elim exE conjE)
  have "nonblocking (make_room_proc lc fs)"
    unfolding nonblocking_def
  proof
    fix s
    from make_room_ends [OF assms, of fs s] obtain r where "make_room lc fs s = Some r" "r \<noteq> Blocks"
      by (elim exE conjE)
    then show "make_room_proc lc fs s \<noteq> Blocks" by (simp add: make_room_proc_def)
  qed
  then have "nonblocking (Store lc fs key sk src filename mode)"
    unfolding Store_def storeFile_def Let_def by (intro nonblocking_intros)
  then have "Store lc fs key sk src filename mode s \<noteq> Blocks" by (rule nonblockingD)
  moreover have "Store lc fs key sk src filename mode s = Returns (Inl e, s')"
    if "r = Returns (Inl e, s')" for e s'
    using that r by (simp add: Store_def storeFile_def make_room_proc_def proc_eval)
  moreover have "e = ENotEnoughDiskSpace" "ent (fileCache s') = (\<lambda>_. None)"
    if "r = Returns (Inl e, s')" for e s'
    using that full by auto
  ultimately show ?thesis
    by (intro conjI exI [of _ r] allI impI r room) simp_all
qed

theorem repo_store_makes_room_witness:
  "Store (list_lru 2) toy_fs ''k'' ''a'' (Inr [1]) ''f'' 0 toy_repo \<noteq> Blocks"
  using repo_store_makes_room [OF list_lru_documented] by blast

text \<open>
  A sequence of calls that goes on after an error, with the first error.
\<close>

fun run_each :: "('w, unit) eff list \<Rightarrow> 'w \<Rightarrow> go_error option \<times> 'w" where
  "run_each [] w = (None, w)"
| "run_each (m # ms) w =
     (case m w of
        (Inl e, w1) \<Rightarrow> (Some e, snd (run_each ms w1))
      | (Inr _, w1) \<Rightarrow> run_each ms w1)"

lemma umount_all_run:
  "umount_all fs path ms err s =
    (let (e, w) = run_each (map (\<lambda>m. fs_Command fs [''fusermount'', ''-uz'', path_join [path, m]]) ms) (fs_world s)
     in Returns (Inr (case err of None \<Rightarrow> e | Some e' \<Rightarrow> Some e'), s\<lparr>fs_world := w\<rparr>))"
proof (induction ms arbitrary: s err)
  case Nil
  then show ?case by (simp add: proc_eval split: option.split)
next
  case (Cons m ms)
  obtain r w where c: "fs_Command fs [''fusermount'', ''-uz'', path_join [path, m]] (fs_world s) = (r, w)" by force
  show ?case
    by (cases r) (auto simp: proc_eval umount_def on_fs_def lift_eff_def c Cons.IH Let_def
        split: option.splits prod.splits)
qed

lemma run_each_append:
  "run_each (xs @ ys) w =
    (case run_each xs w of (e, w1) \<Rightarrow>
       case run_each ys w1 of (e', w2) \<Rightarrow> (case e of None \<Rightarrow> e' | Some x \<Rightarrow> Some x, w2))"
  by (induction xs arbitrary: w) (auto split: prod.splits sum.splits option.splits)

text \<open>
  Deleting a volume unmounts every mount and removes the directory whatever fails on the
  way, and reports the first error; the volume is gone from the repository in any case, and
  an unknown one is refused without touching anything.
\<close>

theorem repo_delete_volume_complete:
  "DeleteVolume fs volKey s =
    (case map_of (volumes s) volKey of
       None \<Rightarrow> Returns (Inl EVolumeNotFound, s)
     | Some vol \<Rightarrow>
         (case run_each (map (\<lambda>m. fs_Command fs [''fusermount'', ''-uz'', path_join [Path vol, m]]) (mounts vol)
                  @ [fs_RemoveAll fs (Path vol)]) (fs_world s) of
            (err, w) \<Rightarrow> Returns (case err of None \<Rightarrow> Inr () | Some e \<Rightarrow> Inl e,
               s\<lparr>volumes := AList.delete volKey (volumes s), fs_world := w\<rparr>)))"
proof (cases "map_of (volumes s) volKey")
  case None
  then show ?thesis by (simp add: DeleteVolume_def find_volume_def proc_eval)
next
  case (Some vol)
  obtain err w where u: "run_each (map (\<lambda>m. fs_Command fs [''fusermount'', ''-uz'', path_join [Path vol, m]])
      (mounts vol)) (fs_world s) = (err, w)" by force
  obtain r w' where rm: "fs_RemoveAll fs (Path vol) w = (r, w')" by force
  let ?s = "s\<lparr>volumes := AList.delete volKey (volumes s)\<rparr>"
  have "DeleteVolume fs volKey s = deleteVolume fs vol ?s"
    using Some by (simp add: DeleteVolume_def find_volume_def proc_eval)
  also have "\<dots> = Returns (case (err, r) of (Some e, _) \<Rightarrow> Inl e | (None, Inl e) \<Rightarrow> Inl e
      | (None, Inr _) \<Rightarrow> Inr (), ?s\<lparr>fs_world := w'\<rparr>)"
    by (simp add: deleteVolume_def proc_eval umount_all_run u on_fs_run rm split: option.split sum.split)
  finally show ?thesis
    by (simp add: Some run_each_append u rm split: option.split sum.split)
qed

text \<open>
  A resource that is gone when \<open>Link\<close> walks it, because it left the cache after \<open>Get\<close> found
  it, makes the first visit one with a nil file info, and the callback panics.
\<close>

lemma Link_vanished_panics:
  assumes "Get lc resKey s = (resPath, s')" "resPath \<noteq> []" "map_of (volumes s') volKey = Some vol"
    and "fs_Walk fs resPath (fs_world s') = [(resPath, None)]"
  shows "Link lc fs volKey resKey destName s = Panics"
  using assms by (simp add: Link_def proc_eval repo_get_def find_volume_def)

end
