(* ===== verification/Repo_Spec.thy ===== *)
theory Repo_Spec
  imports File_Repo
begin

text \<open>
  What the file repository promises its clients, and the proof that the protocol of
  \<open>StoreLock\<close> and \<open>StoreUnlock\<close> keeps it: the repository is a store in which a key is written
  once, by the upload that holds it, and disappears only as a whole.
\<close>

section \<open>The abstract store\<close>

text \<open>
  The state: the stored keys with their directories, and the uploads under way (the key, who
  uploads it, and the key of its own directory). \<open>path\<close> names the directory of an upload.
\<close>

type_synonym upload_set = "(string \<times> nat \<times> string) set"

inductive store_spec ::
  "(string \<Rightarrow> string \<Rightarrow> string) \<Rightarrow> (string \<Rightarrow> string option) \<times> upload_set
   \<Rightarrow> (string \<Rightarrow> string option) \<times> upload_set \<Rightarrow> bool"
  for path where
  start: "m k = None \<Longrightarrow> k \<notin> fst ` U \<Longrightarrow> i \<notin> (fst \<circ> snd) ` U \<Longrightarrow>
    store_spec path (m, U) (m, insert (k, i, sk) U)"
| commit: "(k, i, sk) \<in> U \<Longrightarrow> k \<notin> K \<Longrightarrow>
    store_spec path (m, U) ((m |` (- K))(k \<mapsto> path k sk), U - {(k, i, sk)})"
| abandon: "u \<in> U \<Longrightarrow> store_spec path (m, U) (m, U - {u})"
| drop: "store_spec path (m, U) (m |` (- K), U)"

text \<open>The contract: one upload per key, none of a stored key, and one per client.\<close>

definition write_once :: "(string \<Rightarrow> string option) \<times> upload_set \<Rightarrow> bool" where
  "write_once = (\<lambda>(m, U). inj_on fst U \<and> inj_on (fst \<circ> snd) U \<and> dom m \<inter> fst ` U = {})"

lemma store_spec_write_once:
  assumes "store_spec path a b" "write_once a"
  shows "write_once b"
  using assms
proof cases
  case (commit k i sk U K m)
  have "inj_on fst U" using commit(1) assms(2) by (simp add: write_once_def)
  then have "k \<notin> fst ` (U - {(k, i, sk)})" using commit(3) by (force simp: inj_on_def)
  moreover have "inj_on fst (U - {(k, i, sk)})" "inj_on (fst \<circ> snd) (U - {(k, i, sk)})"
    using commit(1) assms(2) by (auto simp: write_once_def intro: inj_on_subset)
  moreover have "dom ((m |` (- K))(k \<mapsto> path k sk)) \<subseteq> insert k (dom m)" by auto
  moreover have "fst ` (U - {(k, i, sk)}) \<subseteq> fst ` U" by blast
  moreover have "dom m \<inter> fst ` U = {}" using commit(1) assms(2) by (simp add: write_once_def)
  ultimately show ?thesis unfolding commit(2) write_once_def prod.case by blast
next
  case (drop m U K)
  then have "dom (m |` (- K)) \<subseteq> dom m" by auto
  with drop assms(2) show ?thesis unfolding write_once_def by auto
qed (auto simp: write_once_def restrict_map_def split: if_splits intro: inj_on_subset)

text \<open>A value does not change while its key is stored.\<close>

lemma store_spec_stable:
  assumes "store_spec path (m, U) (m', U')" "write_once (m, U)" "m k = Some p"
  shows "m' k = None \<or> m' k = Some p"
  using assms(1)
proof cases
  case (commit j i sk K)
  with assms(2) have "m j = None" by (force simp: write_once_def)
  with commit(1) assms(3) show ?thesis by (auto simp: restrict_map_def)
qed (use assms(3) in \<open>auto simp: restrict_map_def\<close>)

section \<open>The repository implements it\<close>

definition uploads_of :: "(nat \<Rightarrow> client) \<Rightarrow> upload_set" where
  "uploads_of cl = {(k, i, sk). \<exists>ch. cl i = Holding k sk ch}"

definition store_of ::
  "('c \<Rightarrow> string \<Rightarrow> string option) \<Rightarrow> ('c, 'w) fs_repo \<times> (nat \<Rightarrow> client)
   \<Rightarrow> (string \<Rightarrow> string option) \<times> upload_set" where
  "store_of ent = (\<lambda>(s, cl). (ent (fileCache s), uploads_of cl))"

lemma uploads_of_acquire:
  "cl i = Idle \<Longrightarrow> uploads_of (cl(i := Holding k sk ch)) = insert (k, i, sk) (uploads_of cl)"
  by (auto simp: uploads_of_def split: if_splits)

lemma uploads_of_release:
  "cl i = Holding k sk ch \<Longrightarrow> uploads_of (cl(i := Idle)) = uploads_of cl - {(k, i, sk)}"
  by (auto simp: uploads_of_def split: if_splits)

lemma uploads_of_quiet:
  assumes "cl i = Idle \<or> cl i = Waiting k' ch'" "c = Idle \<or> c = Waiting k ch"
  shows "uploads_of (cl(i := c)) = uploads_of cl"
  using assms by (auto simp: uploads_of_def split: if_splits)

lemma restrict_dropped:
  assumes "\<And>j p. m' j = Some p \<Longrightarrow> j = k \<or> m j = Some p" "m' k = Some v"
  shows "m' = (m |` (- {j. m' j = None}))(k \<mapsto> v)"
proof
  fix j
  show "m' j = ((m |` (- {j. m' j = None}))(k \<mapsto> v)) j"
    using assms(1) [of j] assms(2) by (cases "m' j") (auto simp: restrict_map_def)
qed

text \<open>The identity and the options of a repository never change.\<close>

definition same_store :: "('c, 'w) fs_repo \<Rightarrow> ('c, 'w) fs_repo \<Rightarrow> bool" where
  "same_store s s' \<longleftrightarrow> storeID s' = storeID s \<and> repo_options s' = repo_options s"

lemma store_lock_woken_same_store:
  assumes "store_lock_woken lc key ch s = Returns (r, s')"
  shows "same_store s s'"
proof -
  obtain p s1 where g: "Get lc key s = (p, s1)" by force
  have "same_store s s1"
    using g by (auto simp: Get_def same_store_def split: if_splits prod.splits)
  with assms g show ?thesis
    by (auto simp: store_lock_woken_def repo_get_def store_lock_retry_def proc_eval
        removeStoreLock_def same_store_def split: if_splits)
qed

lemma cache_op_same_store: "cache_op fs f s = Returns (r, s') \<Longrightarrow> same_store s s'"
  using cache_op_run [of fs f s r s'] by (cases "f (fileCache s)") (auto simp: same_store_def)

lemma lock_step_same_store:
  assumes lru: "lru_documented lc ent" and "lock_step lc fs p q" "lock_inv ent p"
  shows "same_store (fst p) (fst q)"
  using assms(2,3)
proof cases
  case (acquire cl i key s ch sk s')
  with store_lock_try_cases [OF acquire(4)] show ?thesis by (auto simp: same_store_def)
next
  case (wait cl i key s ch s')
  with store_lock_try_cases [OF wait(4)] show ?thesis by (auto simp: same_store_def)
next
  case (unlock cl i key sk ch save s r s')
  with assms(3) have new: "ent (fileCache s) key = None"
    using lock_inv_holding(4) [of ent s cl i key sk ch] by simp
  show ?thesis
  proof (cases save)
    case True
    with unlock StoreUnlock_saves(3,4) [OF lru new] show ?thesis by (auto simp: same_store_def)
  next
    case False
    with unlock(4) have run: "StoreUnlock lc fs key sk ch False s = Returns (r, s')" by simp
    from StoreUnlock_discards(9,10) [OF lru _ run] unlock(1,2) show ?thesis
      by (simp add: same_store_def)
  qed
qed (auto dest: store_lock_woken_same_store cache_op_same_store)

lemma lock_steps_same_store:
  assumes lru: "lru_documented lc ent" and "(lock_step lc fs)\<^sup>*\<^sup>* p q" "lock_inv ent p"
  shows "same_store (fst p) (fst q)"
  using assms(2)
proof induction
  case (step y z)
  have "lock_inv ent y" using lock_steps_inv [OF lru step(1) assms(3)] .
  from lock_step_same_store [OF lru step(2) this] step(3) show ?case by (simp add: same_store_def)
qed (simp add: same_store_def)

text \<open>Each step of the protocol is a step of the abstract store, or none.\<close>

lemma store_unlock_refines:
  assumes lru: "lru_documented lc ent" and inv: "lock_inv ent (s, cl)"
    and held: "cl i = Holding key sk ch"
    and run: "StoreUnlock lc fs key sk ch save s = Returns (r, s')"
  shows "store_spec (store_path s) (store_of ent (s, cl)) (store_of ent (s', cl(i := Idle)))"
proof -
  have new: "ent (fileCache s) key = None" using lock_inv_holding(4) [OF inv held] .
  have up: "(key, i, sk) \<in> uploads_of cl" using held by (auto simp: uploads_of_def)
  show ?thesis
  proof (cases save)
    case True
    with run have "StoreUnlock lc fs key sk ch True s = Returns (r, s')" by simp
    note sv = StoreUnlock_saves [OF lru new this]
    let ?m' = "ent (fileCache s')"
    have "?m' = (ent (fileCache s) |` (- {j. ?m' j = None}))(key \<mapsto> store_path s key sk)"
      by (rule restrict_dropped) (use sv(1,9) in auto)
    moreover have "key \<notin> {j. ?m' j = None}" using sv(1) by simp
    ultimately show ?thesis
      using store_spec.commit [OF up, of "{j. ?m' j = None}" "store_path s" "ent (fileCache s)"]
      by (simp add: store_of_def uploads_of_release [of cl i key sk ch, OF held])
  next
    case False
    with StoreUnlock_discards(1) [OF lru _ run] store_spec.abandon [OF up] show ?thesis
      by (simp add: store_of_def uploads_of_release [of cl i key sk ch, OF held])
  qed
qed

lemma store_expire_refines:
  assumes lru: "lru_documented lc ent"
  shows "cache_op fs (lc_Delete lc key) s = Returns (r, s') \<Longrightarrow>
      store_spec path (store_of ent (s, cl)) (store_of ent (s', cl))"
    and "cache_op fs (lc_DeleteLRU lc) s = Returns (r, s') \<Longrightarrow>
      store_spec path (store_of ent (s, cl)) (store_of ent (s', cl))"
proof -
  have dropped: "store_spec path (m, U) (m(k := None), U)" for m U k
    using store_spec.drop [of path m U "{k}"] by (simp add: restrict_complement_singleton_eq)
  have same: "store_spec path (m, U) (m, U)" for m U
    using store_spec.drop [of path m U "{}"] by (simp add: restrict_map_def)
  show "store_spec path (store_of ent (s, cl)) (store_of ent (s', cl))"
    if run: "cache_op fs (lc_Delete lc key) s = Returns (r, s')"
  proof -
    obtain ok ev c' where del: "lc_Delete lc key (fileCache s) = (ok, ev, c')" by (metis prod_cases3)
    from cache_op_run [OF run del] lru_Delete [OF lru del] dropped show ?thesis
      by (simp add: store_of_def)
  qed
  show "store_spec path (store_of ent (s, cl)) (store_of ent (s', cl))"
    if run: "cache_op fs (lc_DeleteLRU lc) s = Returns (r, s')"
  proof -
    obtain ok ev c' where del: "lc_DeleteLRU lc (fileCache s) = (ok, ev, c')" by (metis prod_cases3)
    from cache_op_run [OF run del] lru_DeleteLRU [OF lru del] dropped same show ?thesis
      by (auto simp: store_of_def split: if_splits)
  qed
qed

lemma lock_step_refines:
  assumes lru: "lru_documented lc ent" and "lock_step lc fs p q" and inv: "lock_inv ent p"
  shows "(store_spec (store_path (fst p)))\<^sup>=\<^sup>= (store_of ent p) (store_of ent q)"
  using assms(2)
proof cases
  case (acquire cl i key s ch sk s')
  from store_lock_try_cases [OF acquire(4)] have free: "map_of (storeLocks s) key = None"
    and same: "fileCache s' = fileCache s" by auto
  have "ent (fileCache s) key = None"
    using free inv acquire(1) unfolding lock_inv_defs by (cases "ent (fileCache s) key") fastforce+
  moreover have "key \<notin> fst ` uploads_of cl"
    using free inv acquire(1) by (fastforce simp: uploads_of_def lock_inv_defs)
  moreover have "i \<notin> (fst \<circ> snd) ` uploads_of cl" using acquire(3) by (auto simp: uploads_of_def)
  ultimately show ?thesis
    using acquire store_spec.start same by (simp add: store_of_def uploads_of_acquire)
next
  case (wait cl i key s ch s')
  with store_lock_try_cases [OF wait(4)] show ?thesis
    by (auto simp: store_of_def uploads_of_quiet)
next
  case (woken cl i key ch s l s')
  with store_lock_woken_cases [OF lru woken(5)] show ?thesis
    by (auto simp: store_of_def uploads_of_quiet)
next
  case (unlock cl i key sk ch save s r s')
  have "store_spec (store_path s) (store_of ent (s, cl)) (store_of ent (s', cl(i := Idle)))"
    by (rule store_unlock_refines [OF lru]) (use unlock inv in simp_all)
  with unlock show ?thesis by simp
qed (use store_expire_refines [OF lru] in auto)

lemma NewRepo_lock_inv:
  assumes "NewRepo merge opts fs empty_cache w = Returns s0" "ent empty_cache = (\<lambda>_. None)"
  shows "lock_inv ent (s0, \<lambda>_. Idle)"
proof -
  have "storeLocks s0 = []" "closed_chs s0 = []" "fileCache s0 = empty_cache"
    using assms(1) by (auto simp: NewRepo_def Let_def split: prod.splits sum.splits)
  then show ?thesis using assms(2) by (simp add: lock_inv_defs)
qed

lemma lock_inv_write_once:
  assumes inv: "lock_inv ent (s, cl)"
  shows "write_once (store_of ent (s, cl))"
proof -
  have "i = j \<and> sk = sk'" if "cl i = Holding k sk ch" "cl j = Holding k sk' ch'" for i j k sk sk' ch ch'
    using lock_inv_holding(6) [OF inv that(1), of j] that by auto
  then have "inj_on fst (uploads_of cl)" by (force simp: inj_on_def uploads_of_def)
  moreover have "inj_on (fst \<circ> snd) (uploads_of cl)" by (auto simp: inj_on_def uploads_of_def)
  moreover have "dom (ent (fileCache s)) \<inter> fst ` uploads_of cl = {}"
    using lock_inv_holding(4) [OF inv] by (force simp: uploads_of_def)
  ultimately show ?thesis by (simp add: write_once_def store_of_def)
qed

section \<open>The end of a repository\<close>

lemmas only_fs_order = only_fs_reflp only_fs_transp

lemma delete_volumes_keeps: "keeps only_fs (delete_volumes fs vs)"
proof (induction vs)
  case (Cons v vs)
  have "keeps only_fs (umount_all fs p ms err)" for p ms err
    by (induction ms arbitrary: err) (auto intro!: keeps_intros only_fs_order on_fs_keeps simp: umount_def)
  then have "keeps only_fs (deleteVolume fs v)"
    unfolding deleteVolume_def
    by (auto intro!: keeps_intros only_fs_order on_fs_keeps split: option.splits sum.splits)
  with Cons.IH show ?case by (auto intro!: keeps_intros only_fs_order)
qed (auto intro!: keeps_intros only_fs_order)

lemma delete_volumes_never_fails: "never_fails (delete_volumes fs vs)"
  by (induction vs) (auto intro!: never_fails_intros)

text \<open>After a shutdown nothing is stored, and the repository's directory was removed last.\<close>

lemma repo_Shutdown_run:
  assumes lru: "lru_documented lc ent" and run: "repo_Shutdown lc fs s = Returns (r, s')"
  shows "r = Inr ()" "ent (fileCache s') = (\<lambda>_. None)" "permStore s' = []" "volumes s' = []"
    "\<exists>w. fs_RemoveAll fs (StoragePath s) w = (Inr (), fs_world s')"
proof -
  let ?f = "\<lambda>c. case lc_Flush lc c of (ev, c') \<Rightarrow> ((), ev, c')"
  define s1 where "s1 = s\<lparr>permStore := []\<rparr>"
  obtain x s2 where dv: "delete_volumes fs (map snd (volumes s1)) s1 = Returns (x, s2)"
    using run by (auto simp: repo_Shutdown_def Flush_def proc_run s1_def elim!: andThen_ReturnsE)
  have x: "x = Inr ()" using never_fails_Inr [OF delete_volumes_never_fails dv] by simp
  have s2: "s2 = s1\<lparr>fs_world := fs_world s2\<rparr>"
    using keepsD [OF delete_volumes_keeps dv] by (simp add: only_fs_def)
  have fields: "permStore s2 = []" "repo_options s2 = repo_options s" "storeID s2 = storeID s"
    by (subst s2, simp add: s1_def)+
  define s3 where "s3 = s2\<lparr>volumes := []\<rparr>"
  have rest: "andThen (cache_op fs ?f) (\<lambda>_. andThen (get_state StoragePath) (\<lambda>path.
      must (on_fs (fs_RemoveAll fs path)))) s3 = Returns (r, s')"
    using run dv x by (simp add: repo_Shutdown_def Flush_def proc_eval s1_def s3_def)
  obtain ev c' where fl: "lc_Flush lc (fileCache s3) = (ev, c')" by fastforce
  obtain y s4 where op: "cache_op fs ?f s3 = Returns (y, s4)" using rest by (auto elim!: andThen_ReturnsE)
  note opr = cache_op_run [OF op, of "()" ev c'] fl
  have y: "y = Inr ()" and s4: "fileCache s4 = c'" "permStore s4 = []" "volumes s4 = []"
    "repo_options s4 = repo_options s" "storeID s4 = storeID s"
    using opr fields by (auto simp: s3_def)
  have path: "StoragePath s4 = StoragePath s" by (simp add: StoragePath_def s4)
  obtain q w where rm: "fs_RemoveAll fs (StoragePath s) (fs_world s4) = (q, w)" by fastforce
  from rest op y have last: "must (on_fs (fs_RemoveAll fs (StoragePath s))) s4 = Returns (r, s')"
    by (simp add: proc_eval path)
  then have q: "q = Inr ()" and fin: "r = Inr ()" "s' = s4\<lparr>fs_world := w\<rparr>"
    using rm by (cases q; simp add: proc_simps on_fs_run)+
  show "r = Inr ()" "permStore s' = []" "volumes s' = []" using fin s4 by simp_all
  show "ent (fileCache s') = (\<lambda>_. None)" using lru_Flush(2) [OF lru fl] fin s4 by simp
  show "\<exists>w. fs_RemoveAll fs (StoragePath s) w = (Inr (), fs_world s')" using rm q fin by auto
qed

section \<open>The property\<close>




end
