(* ===== verification/Log_Hook.thy ===== *)
theory Log_Hook
  imports Prelude
begin

text \<open>
  The logging of the programs: the hook that adds the caller and the stack to an entry
  (cmd/stack/stack.go) and the levels of gRPC (logrusWrapper in cmd/app.go).
\<close>

text \<open>\<open>strings.LastIndex\<close>: -1 if the substring does not occur.\<close>

definition occurs_at :: "string \<Rightarrow> string \<Rightarrow> nat \<Rightarrow> bool" where
  "occurs_at file sub i \<longleftrightarrow> take (length sub) (drop i file) = sub"

definition LastIndex :: "string \<Rightarrow> string \<Rightarrow> int" where
  "LastIndex file sub =
     (case filter (occurs_at file sub) (rev [0..<Suc (length file)]) of [] \<Rightarrow> - 1 | i # _ \<Rightarrow> int i)"

text \<open>The slice panics when it starts behind the end.\<close>

definition stripInAppPrefix :: "string \<Rightarrow> string \<Rightarrow> string outcome" where
  "stripInAppPrefix prefix file =
     (let prefixI = LastIndex file prefix;
          start = (if prefixI = - 1 then 0 else prefixI + int (length prefix) + 1)
      in if start \<le> int (length file) then Returns (drop (nat start) file) else Panics)"

text \<open>Levels as logrus numbers them.\<close>

datatype log_level = PanicLevel | FatalLevel | ErrorLevel | WarnLevel | InfoLevel | DebugLevel

fun level_number :: "log_level \<Rightarrow> int" where
  "level_number PanicLevel = 0"
| "level_number FatalLevel = 1"
| "level_number ErrorLevel = 2"
| "level_number WarnLevel = 3"
| "level_number InfoLevel = 4"
| "level_number DebugLevel = 5"

datatype log_value = Field string | CallerFile string | StackFrames "string list"

record log_entry =
  en_Data :: "(string, log_value) gomap"
  en_Level :: log_level

record stack_hook =
  InAppPrefix :: string
  CallerLevels :: "log_level list"
  StackLevels :: "log_level list"

text \<open>\<open>caller\<close> and \<open>callers\<close> are the frames of the package stack, above a number of skipped ones.\<close>

definition Fire :: "(nat \<Rightarrow> string) \<Rightarrow> (nat \<Rightarrow> string list) \<Rightarrow> stack_hook \<Rightarrow> log_entry \<Rightarrow> log_entry outcome" where
  "Fire caller callers hook entry =
     (let data = AList.delete ''caller'' (AList.delete ''stack'' (en_Data entry));
          skipFrames = (if data = [] then 8 else 6)
      in bind_outcome
           (if en_Level entry \<in> set (CallerLevels hook)
            then bind_outcome (stripInAppPrefix (InAppPrefix hook) (caller skipFrames)) (\<lambda>f.
                 Returns (AList.update ''caller'' (CallerFile f) data))
            else Returns data)
           (\<lambda>data1. Returns (entry\<lparr>en_Data :=
              (if en_Level entry \<in> set (StackLevels hook)
               then AList.update ''stack'' (StackFrames (callers skipFrames)) data1 else data1)\<rparr>)))"

text \<open>\<open>V\<close>: whether messages of the gRPC level \<open>l\<close> are wanted, for the level of the logger.\<close>

definition logrus_V :: "log_level \<Rightarrow> int \<Rightarrow> bool" where
  "logrus_V level l \<longleftrightarrow> level_number level \<le> 4 - l"

section \<open>Facts\<close>

lemma LastIndex_last:
  assumes "occurs_at file sub i" "i \<le> length file" "\<And>j. i < j \<Longrightarrow> j \<le> length file \<Longrightarrow> \<not> occurs_at file sub j"
  shows "LastIndex file sub = int i"
proof -
  have "[0..<Suc (length file)] = [0..<i] @ [i..<Suc (length file)]"
    using upt_add_eq_append [of 0 i "Suc (length file) - i"] assms(2) by (simp del: upt_Suc)
  moreover have "[i..<Suc (length file)] = i # [Suc i..<Suc (length file)]"
    using assms(2) by (intro upt_conv_Cons) simp
  moreover have "filter (occurs_at file sub) (rev [Suc i..<Suc (length file)]) = []"
    using assms(3) by (auto simp: filter_empty_conv simp del: upt_Suc)
  ultimately show ?thesis using assms(1) by (simp add: LastIndex_def del: upt_Suc)
qed

text \<open>
  What follows the last occurrence of the prefix and one separator is kept; a file that ends
  with the prefix makes the slice panic.
\<close>

lemma strip_prefix:
  assumes "\<And>j. length before < j \<Longrightarrow> j \<le> length (before @ prefix @ rest) \<Longrightarrow> \<not> occurs_at (before @ prefix @ rest) prefix j"
  shows "stripInAppPrefix prefix (before @ prefix @ rest) =
    (case rest of [] \<Rightarrow> Panics | c # cs \<Rightarrow> Returns cs)"
proof -
  have "LastIndex (before @ prefix @ rest) prefix = int (length before)"
    using assms by (intro LastIndex_last) (auto simp: occurs_at_def)
  then show ?thesis by (cases rest) (auto simp: stripInAppPrefix_def Let_def nat_add_distrib nat_int_add)
qed

text \<open>A logger for debug messages does not want informational ones, one for errors does.\<close>

lemma logrus_V_inverted: "\<not> logrus_V DebugLevel 0" "logrus_V ErrorLevel 0"
  by (simp_all add: logrus_V_def)

end
