(* ===== verification/Command_Line.thy ===== *)
theory Command_Line
  imports Log_Hook Errors
begin

text \<open>
  The command line of the program (cmd/app.go, main.go, app/version/version.go): the flags as
  data, what the library \<open>urfave/cli\<close> makes of them as a documented argument, the set-up of
  logging, tracing and metrics before a command runs, and the end of the process.
\<close>

section \<open>Flags\<close>

text \<open>Durations are nanoseconds; of the floating point flags only whole values are used.\<close>

datatype flag_value =
    BoolFlag bool
  | IntFlag int
  | UintFlag u64
  | FloatFlag int
  | DurationFlag int
  | StringFlag string
  | SliceFlag "string list"

record cli_flag =
  fl_Name :: string
  fl_Aliases :: "string list"
  fl_EnvVar :: string
  fl_Value :: flag_value

definition flag :: "string \<Rightarrow> string list \<Rightarrow> string \<Rightarrow> flag_value \<Rightarrow> cli_flag" where
  "flag n as env v = \<lparr>fl_Name = n, fl_Aliases = as, fl_EnvVar = env, fl_Value = v\<rparr>"

text \<open>
  What a command sees: the value of each flag. The library gives the value of the command line
  or the environment (\<open>given\<close>), and the flag's own otherwise; a \<open>Destination\<close> is set to it.
\<close>

type_synonym cli_context = "string \<Rightarrow> flag_value"

definition cli_documented :: "cli_flag list \<Rightarrow> (string \<Rightarrow> flag_value option) \<Rightarrow> cli_context \<Rightarrow> bool" where
  "cli_documented flags given c \<longleftrightarrow> (\<forall>f\<in>set flags.
     c (fl_Name f) = (case given (fl_Name f) of None \<Rightarrow> fl_Value f | Some v \<Rightarrow> v))"

lemma cli_defaultD:
  "cli_documented flags given c \<Longrightarrow> flag n as env v \<in> set flags \<Longrightarrow> given n = None \<Longrightarrow> c n = v"
  by (fastforce simp: cli_documented_def flag_def)

fun flag_bool :: "flag_value \<Rightarrow> bool" where "flag_bool (BoolFlag b) = b" | "flag_bool _ = False"
fun flag_uint :: "flag_value \<Rightarrow> u64" where "flag_uint (UintFlag n) = n" | "flag_uint _ = 0"
fun flag_string :: "flag_value \<Rightarrow> string" where "flag_string (StringFlag s) = s" | "flag_string _ = []"
fun flag_slice :: "flag_value \<Rightarrow> string list" where "flag_slice (SliceFlag ss) = ss" | "flag_slice _ = []"
fun flag_int :: "flag_value \<Rightarrow> int" where
  "flag_int (IntFlag n) = n"
| "flag_int (FloatFlag n) = n"
| "flag_int (DurationFlag n) = n"
| "flag_int _ = 0"

text \<open>
  All names a set of flags takes, with those of the help flag the library adds. Go's package
  \<open>flag\<close> panics when a name is defined twice.
\<close>

definition flag_names :: "cli_flag list \<Rightarrow> string list" where
  "flag_names flags = concat (map (\<lambda>f. fl_Name f # fl_Aliases f) flags) @ [''help'', ''h'']"

definition flags_apply :: "cli_flag list \<Rightarrow> unit outcome" where
  "flags_apply flags = (if distinct (flag_names flags) then Returns () else Panics)"

definition app_flags :: "cli_flag list" where
  "app_flags =
     [flag ''debug'' [] ''DEBUG'' (BoolFlag False),
      flag ''dsn'' [] ''SENTRY_DSN'' (StringFlag []),
      flag ''metrics-port'' [''mp''] ''METRICS_PORT'' (IntFlag 9080),
      flag ''jaeger-collector-endpoint'' [] ''JAEGER_COLLECTOR_ENDPOINT'' (StringFlag ''http://jaeger:14268/api/traces''),
      flag ''tracing-sampling'' [] ''TRACING_SAMPLING'' (FloatFlag 0),
      flag ''service-name'' [''n''] ''SERVICE_NAME'' (StringFlag ''codebox'')]"

section \<open>Before a command\<close>

text \<open>The formatter is logrus's text formatter with its \<open>ForceColors\<close>, or the LTSV formatter.\<close>

datatype log_formatter = TextFormatter bool | LtsvFormatter

datatype log_hook = StackHook stack_hook | SentryHook string "log_level list"

record log_setup =
  lg_Level :: log_level
  lg_Formatter :: log_formatter
  lg_Hooks :: "log_hook list"
  lg_Grpc :: "log_level option"

definition NewHook :: "string \<Rightarrow> log_level list \<Rightarrow> log_level list \<Rightarrow> stack_hook" where
  "NewHook inAppPrefix callerLevels stackLevels =
     \<lparr>InAppPrefix = inAppPrefix, CallerLevels = callerLevels, StackLevels = stackLevels\<rparr>"

text \<open>
  The environment: variables, whether standard output is a terminal, whether a flag is set, the
  check of a DSN, the listener of the metrics' port (its end with an error, if it comes), and
  the exporters.
\<close>

record app_env =
  ap_Getenv :: "string \<Rightarrow> string"
  ap_IsTerminal :: bool
  ap_IsSet :: "string \<Rightarrow> bool"
  ap_SentryHook :: "string \<Rightarrow> go_error option"
  ap_NumCPU :: int
  ap_Prometheus :: "go_error option"
  ap_RegisterViews :: "go_error option"
  ap_Jaeger :: "string \<Rightarrow> string \<Rightarrow> go_error option"

text \<open>The type assertion on the formatter panics when it is another one.\<close>

definition initializeLogging ::
  "app_env \<Rightarrow> cli_context \<Rightarrow> log_setup \<Rightarrow> (go_error option \<times> log_setup) outcome" where
  "initializeLogging env c s =
     (let s1 = s\<lparr>lg_Level := if flag_bool (c ''debug'') then DebugLevel else InfoLevel\<rparr>
      in bind_outcome
           (if ap_Getenv env ''FORCE_COLORS'' = ''1'' then
              (case lg_Formatter s1 of TextFormatter _ \<Rightarrow> Returns (s1\<lparr>lg_Formatter := TextFormatter True\<rparr>)
               | LtsvFormatter \<Rightarrow> Panics)
            else Returns (if ap_IsTerminal env then s1 else s1\<lparr>lg_Formatter := LtsvFormatter\<rparr>))
         (\<lambda>s2.
           let hook = NewHook ''github.com/Syncano/codebox'' [PanicLevel, FatalLevel, ErrorLevel, WarnLevel]
                        [PanicLevel, FatalLevel, ErrorLevel];
               s3 = s2\<lparr>lg_Hooks := lg_Hooks s2 @ [StackHook hook]\<rparr>;
               dsn = flag_string (c ''dsn'')
           in if ap_IsSet env ''dsn'' then
                (case ap_SentryHook env dsn of
                   Some e \<Rightarrow> Returns (Some e, s3)
                 | None \<Rightarrow> Returns (None, s3\<lparr>lg_Hooks := lg_Hooks s3 @ [SentryHook dsn [PanicLevel, FatalLevel, ErrorLevel]],
                                             lg_Grpc := Some (lg_Level s3)\<rparr>))
              else Returns (None, s3\<lparr>lg_Grpc := Some (lg_Level s3)\<rparr>)))"

text \<open>
  The state of the process around a command: the logging, the number of threads, the port that
  serves metrics, and the exporter of traces. A \<open>Fatal\<close> ends the process, here \<open>Panics\<close>.
\<close>

record app_state =
  ap_log :: log_setup
  ap_threads :: int
  ap_metrics :: "int option"
  ap_exporter :: "(string \<times> string) option"
  ap_sampling :: int

definition app_Before :: "app_env \<Rightarrow> cli_context \<Rightarrow> app_state \<Rightarrow> (go_error option \<times> app_state) outcome" where
  "app_Before env c s =
     (let s1 = s\<lparr>ap_threads := ap_NumCPU env + 1\<rparr>
      in bind_outcome (initializeLogging env c (ap_log s1)) (\<lambda>(err, log).
         let s2 = s1\<lparr>ap_log := log\<rparr> in
         case err of Some e \<Rightarrow> Returns (Some e, s2) | None \<Rightarrow>
         let s3 = s2\<lparr>ap_metrics := Some (flag_int (c ''metrics-port''))\<rparr>;
             endpoint = flag_string (c ''jaeger-collector-endpoint'');
             service = flag_string (c ''service-name'')
         in if ap_Prometheus env \<noteq> None \<or> ap_RegisterViews env \<noteq> None \<or> ap_Jaeger env endpoint service \<noteq> None
            then Panics
            else Returns (None, s3\<lparr>ap_exporter := Some (endpoint, service),
                   ap_sampling := flag_int (c ''tracing-sampling'')\<rparr>)))"

text \<open>\<open>After\<close> flushes the exporter, a nil pointer when \<open>Before\<close> has not made one.\<close>

definition app_After :: "app_state \<Rightarrow> unit outcome" where
  "app_After s = (case ap_exporter s of None \<Rightarrow> Panics | Some _ \<Rightarrow> Returns ())"

section \<open>The process\<close>

text \<open>
  \<open>main\<close>: an error of the application is logged and panics, and any panic is recovered, logged
  and panics again: the lines logged, and how the process ends.
\<close>

definition go_main :: "unit result outcome \<Rightarrow> string list \<times> unit outcome" where
  "go_main run =
     (let (log, ended) = (case run of
            Returns (Inr _) \<Rightarrow> ([], Returns ())
          | Returns (Inl _) \<Rightarrow> ([''Fatal error!''], Panics)
          | Panics \<Rightarrow> ([], Panics)
          | Blocks \<Rightarrow> ([], Blocks))
      in if ended = Panics then (log @ [''Panic occurred!''], Panics) else (log, ended))"

text \<open>The build time, with \<open>now\<close> for an empty one; what cannot be parsed panics.\<close>

definition mustParseBuildtime :: "(string \<Rightarrow> string \<Rightarrow> int result) \<Rightarrow> int \<Rightarrow> string \<Rightarrow> int outcome" where
  "mustParseBuildtime parse now buildtimeStr =
     (if buildtimeStr = [] then Returns now
      else case parse ''2006-01-02T15:04'' buildtimeStr of Inl _ \<Rightarrow> Panics | Inr t \<Rightarrow> Returns t)"

section \<open>Facts\<close>

text \<open>An error before the exporter is made ends in the panic of \<open>After\<close>.\<close>

lemma failed_before_after_panics:
  assumes "app_Before env c s = Returns (Some e, s')" "ap_exporter s = None"
  shows "app_After s' = Panics"
  using assms
  by (auto simp: app_Before_def app_After_def Let_def elim!: bind_outcome_ReturnsE
      split: option.splits if_splits prod.splits)

lemma before_ok_after_returns:
  assumes "app_Before env c s = Returns (None, s')"
  shows "app_After s' = Returns ()"
  using assms
  by (auto simp: app_Before_def app_After_def Let_def elim!: bind_outcome_ReturnsE
      split: option.splits if_splits prod.splits)

lemma go_main_logs: "snd (go_main run) = Panics \<longleftrightarrow> fst (go_main run) \<noteq> []"
  by (auto simp: go_main_def split: outcome.splits sum.splits)

end
