(* ===== verification/Messages.thy ===== *)
theory Messages
  imports Script_Definition
begin

text \<open>
  The messages that travel between broker, load balancer and worker (the fields the source
  uses; absent ones as the protobuf getters read them), the reader of script chunks
  (app/common/chunk_reader.go), and the interface all senders of large contents share: a
  content is cut into pieces, and put together again by appending them.
\<close>

section \<open>Messages\<close>

datatype chunk_type = GENERIC | ARGS

record run_chunk =
  ch_Name :: string
  ch_Filename :: string
  ch_ContentType :: string
  ch_Data :: bytes
  ch_Type :: chunk_type

record http_response_pb =
  hr_StatusCode :: i32
  hr_ContentType :: string
  hr_Content :: bytes
  hr_Headers :: "(string, string) gomap"

definition empty_http_response :: http_response_pb where
  "empty_http_response = \<lparr>hr_StatusCode = 0, hr_ContentType = [], hr_Content = [], hr_Headers = []\<rparr>"

record run_response =
  rr_ContainerId :: string
  rr_Code :: i32
  rr_Stdout :: bytes
  rr_Stderr :: bytes
  rr_Response :: "http_response_pb option"
  rr_Took :: int
  rr_Time :: int
  rr_Cached :: bool
  rr_Weight :: u32

definition empty_run_response :: run_response where
  "empty_run_response = \<lparr>rr_ContainerId = [], rr_Code = 0, rr_Stdout = [], rr_Stderr = [],
     rr_Response = None, rr_Took = 0, rr_Time = 0, rr_Cached = False, rr_Weight = 0\<rparr>"

text \<open>The content a response carries.\<close>

definition response_content :: "run_response \<Rightarrow> bytes" where
  "response_content r = (case rr_Response r of None \<Rightarrow> [] | Some h \<Rightarrow> hr_Content h)"

datatype script_request = ScriptRunMeta script_meta | ScriptRunChunk run_chunk

datatype upload_request =
    UploadMeta string
  | UploadChunk string bytes
  | UploadDone

section \<open>The reader of chunks\<close>

text \<open>
  The results \<open>getFunc\<close> is going to return, then the end of the stream; and whether the
  reader has been asked for one.
\<close>

record chunk_reader =
  cr_isDirty :: bool
  cr_rest :: "run_chunk result list"

definition NewChunkReader :: "run_chunk result list \<Rightarrow> chunk_reader" where
  "NewChunkReader results = \<lparr>cr_isDirty = False, cr_rest = results\<rparr>"

definition NewArrayChunkReader :: "run_chunk list \<Rightarrow> chunk_reader" where
  "NewArrayChunkReader chunks = \<lparr>cr_isDirty = False, cr_rest = map Inr chunks\<rparr>"

definition chunk_Get :: "chunk_reader \<Rightarrow> run_chunk result \<times> chunk_reader" where
  "chunk_Get cr =
     (case cr_rest cr of
        [] \<Rightarrow> (Inl EEOF, cr\<lparr>cr_isDirty := True\<rparr>)
      | r # rs \<Rightarrow> (r, \<lparr>cr_isDirty = True, cr_rest = rs\<rparr>))"

definition IsDirty :: "chunk_reader \<Rightarrow> bool" where
  "IsDirty cr = cr_isDirty cr"

lemma chunk_Get_dirty: "chunk_Get cr = (r, cr') \<Longrightarrow> IsDirty cr'"
  by (auto simp: chunk_Get_def IsDirty_def split: list.splits)

section \<open>Pieces\<close>

text \<open>
  What reading a content with a buffer of \<open>n\<close> bytes until the end gives: full pieces, then
  the rest; nothing for an empty content.
\<close>

function pieces :: "nat \<Rightarrow> 'a list \<Rightarrow> 'a list list" where
  "pieces n xs = (if xs = [] \<or> n = 0 then [] else take n xs # pieces n (drop n xs))"
  by pat_completeness auto
termination by (relation "measure (\<lambda>(n, xs). length xs)") auto

declare pieces.simps [simp del]

lemma pieces_Nil [simp]: "pieces n [] = []"
  by (simp add: pieces.simps)

lemma pieces_step: "xs \<noteq> [] \<Longrightarrow> 0 < n \<Longrightarrow> pieces n xs = take n xs # pieces n (drop n xs)"
  by (simp add: pieces.simps)

lemma concat_pieces: "0 < n \<Longrightarrow> concat (pieces n xs) = xs"
proof (induction n xs rule: pieces.induct)
  case (1 n xs)
  then show ?case by (cases "xs = []") (simp_all add: pieces_step)
qed

lemma pieces_length: "p \<in> set (pieces n xs) \<Longrightarrow> p \<noteq> [] \<and> length p \<le> n"
proof (induction n xs rule: pieces.induct)
  case (1 n xs)
  then show ?case by (cases "xs = [] \<or> n = 0") (auto simp: pieces.simps [of n xs])
qed

lemma pieces_neq_Nil: "xs \<noteq> [] \<Longrightarrow> 0 < n \<Longrightarrow> pieces n xs \<noteq> []"
  by (simp add: pieces_step)

text \<open>
  The contract between a sender of a content and the one who puts it together: the messages
  carry, in order, pieces that are the content, none of them above the limit.
\<close>

locale chunked_content =
  fixes limit :: nat
    and messages :: "bytes \<Rightarrow> 'm list"
    and payload :: "'m \<Rightarrow> bytes"
  assumes payload_messages: "concat (map payload (messages content)) = content"
    and payload_limit: "m \<in> set (messages content) \<Longrightarrow> length (payload m) \<le> limit"
begin

text \<open>A receiver that appends what comes.\<close>

lemma reassembled: "foldl (\<lambda>acc m. acc @ payload m) init (messages content) = init @ content"
proof -
  have "foldl (\<lambda>acc m. acc @ payload m) init ms = init @ concat (map payload ms)" for ms
    by (induction ms arbitrary: init) auto
  then show ?thesis by (simp add: payload_messages)
qed

text \<open>A stream that breaks off has delivered a beginning of the content.\<close>

lemma delivered_prefix: "\<exists>rest. concat (map payload (take n (messages content))) @ rest = content"
  by (metis append_take_drop_id concat_append map_append payload_messages)

end

end
