(* ===== verification/Repo_Server.thy ===== *)
theory Repo_Server
  imports File_Repo Messages
begin

text \<open>
  The server of the file repository (app/filerepo/server.go): the protocol of an upload, on
  the operations of a repository as arguments (the interface \<open>Repo\<close>), and their instance for
  \<open>FsRepo\<close>.
\<close>

section \<open>The interface\<close>

text \<open>
  The operations the server calls. \<open>rp_Consumes\<close> says how a \<open>Store\<close> that starts now reads the
  channel of its data: all of it (\<open>None\<close>), or so many messages before it gives up with an
  error (\<open>Some n\<close>; no disk space, for one, gives \<open>Some 0\<close>).
\<close>

record 's repo_ops =
  rp_Get :: "string \<Rightarrow> ('s, string) proc"
  rp_StoreLock :: "string \<Rightarrow> ('s, (nat \<times> string) option) proc"
  rp_StoreUnlock :: "string \<Rightarrow> string \<Rightarrow> nat \<Rightarrow> bool \<Rightarrow> ('s, unit) proc"
  rp_Store :: "string \<Rightarrow> string \<Rightarrow> bytes \<Rightarrow> string \<Rightarrow> ('s, string) proc"
  rp_Delete :: "string \<Rightarrow> ('s, unit) proc"
  rp_Consumes :: "string \<Rightarrow> string \<Rightarrow> string \<Rightarrow> 's \<Rightarrow> nat option"

definition fs_repo_ops ::
  "('c, string) lru_cache \<Rightarrow> 'w fs_env \<Rightarrow> ('c, 'w) fs_repo repo_ops" where
  "fs_repo_ops lc fs =
     \<lparr>rp_Get = repo_get lc,
      rp_StoreLock = \<lambda>key. andThen (StoreLock lc fs key)
        (\<lambda>l. case l of Acquired ch storeKey \<Rightarrow> return (Some (ch, storeKey)) | _ \<Rightarrow> return None),
      rp_StoreUnlock = StoreUnlock lc fs,
      rp_Store = \<lambda>key storeKey data filename. Store lc fs key storeKey (Inr data) filename 511,
      rp_Delete = Delete lc fs,
      rp_Consumes = \<lambda>key storeKey filename s.
        (case make_room lc fs s of Some (Returns (Inl _, _)) \<Rightarrow> Some 0 | _ \<Rightarrow> None)\<rparr>"

definition Exists :: "'s repo_ops \<Rightarrow> string \<Rightarrow> ('s, bool) proc" where
  "Exists ops key = andThen (rp_Get ops key) (\<lambda>path. return (path \<noteq> []))"

text \<open>\<open>ParseError\<close>; the message of an error is left out of the status.\<close>

definition repo_ParseError :: "go_error \<Rightarrow> go_error" where
  "repo_ParseError err =
     EStatus (if err = ENotEnoughDiskSpace then CodeResourceExhausted else CodeInternal) ''store''"

section \<open>Upload\<close>

text \<open>
  The variables of the handler beside the repository: the responses sent, the key of the
  last meta message, the file in progress (its name, the data put into its channel, and what
  its \<open>Store\<close> reads), the lock and the store key. Sends to the client succeed.
\<close>

record 's upload_state =
  up_repo :: 's
  up_out :: "bool list"
  up_meta :: "string option"
  up_chunk :: "(string \<times> bytes list \<times> nat option) option"
  up_lock :: "nat option"
  up_storeKey :: string

definition on_repo :: "('s, 'a) proc \<Rightarrow> ('s upload_state, 'a) proc" where
  "on_repo m = (\<lambda>u. case m (up_repo u) of
     Returns (r, s) \<Rightarrow> Returns (r, u\<lparr>up_repo := s\<rparr>) | Panics \<Rightarrow> Panics | Blocks \<Rightarrow> Blocks)"

definition up_respond :: "bool \<Rightarrow> ('s upload_state, unit) proc" where
  "up_respond accepted = modify (\<lambda>u. u\<lparr>up_out := up_out u @ [accepted]\<rparr>)"

text \<open>
  \<open>close(chunkCh); err := <-errCh\<close>: the \<open>Store\<close> of the file in progress ends with the data it
  was given; its error is converted, after the key was deleted.
\<close>

definition finish_chunk :: "'s repo_ops \<Rightarrow> ('s upload_state, unit) proc" where
  "finish_chunk ops =
     andThen (get_state (\<lambda>u. (up_chunk u, up_meta u, up_storeKey u))) (\<lambda>(chunk, meta, storeKey).
     case (chunk, meta) of
       (Some (name, data, _), Some key) \<Rightarrow>
         andThen (modify (\<lambda>u. u\<lparr>up_chunk := None\<rparr>)) (\<lambda>_.
         try_catch (on_repo (rp_Store ops key storeKey (concat data) name))
           (\<lambda>err. andThen (on_repo (rp_Delete ops key)) (\<lambda>_. throw (repo_ParseError err)))
           (\<lambda>_. return ()))
     | _ \<Rightarrow> return ())"

text \<open>
  \<open>chunkCh <- data\<close>, on a channel with room for one message: it waits for ever when the
  \<open>Store\<close> at the other end has given up.
\<close>

definition put_chunk :: "bytes \<Rightarrow> ('s upload_state, unit) proc" where
  "put_chunk d = (\<lambda>u.
     case up_chunk u of
       None \<Rightarrow> Panics
     | Some (name, data, consumes) \<Rightarrow>
         (case consumes of
            Some n \<Rightarrow> if n + 1 \<le> length data then Blocks
                      else Returns (Inr (), u\<lparr>up_chunk := Some (name, data @ [d], consumes)\<rparr>)
          | None \<Rightarrow> Returns (Inr (), u\<lparr>up_chunk := Some (name, data @ [d], consumes)\<rparr>)))"

definition processChunkUpload :: "'s repo_ops \<Rightarrow> string \<Rightarrow> bytes \<Rightarrow> ('s upload_state, unit) proc" where
  "processChunkUpload ops name d =
     andThen (get_state up_chunk) (\<lambda>chunk.
     andThen (case chunk of
                Some (chunkName, _) \<Rightarrow> if name \<noteq> chunkName then finish_chunk ops else return ()
              | None \<Rightarrow> return ()) (\<lambda>_.
     andThen (modify (\<lambda>u. case up_chunk u of
                Some _ \<Rightarrow> u
              | None \<Rightarrow> u\<lparr>up_chunk := Some (name, [], rp_Consumes ops (the (up_meta u)) (up_storeKey u) name (up_repo u))\<rparr>))
       (\<lambda>_. put_chunk d)))"

fun upload_loop :: "'s repo_ops \<Rightarrow> upload_request result list \<Rightarrow> ('s upload_state, unit) proc" where
  "upload_loop ops [] = return ()"
| "upload_loop ops (Inl err # ins) = throw err"
| "upload_loop ops (Inr (UploadMeta key) # ins) =
     andThen (modify (\<lambda>u. u\<lparr>up_meta := Some key\<rparr>)) (\<lambda>_.
     andThen (on_repo (rp_StoreLock ops key)) (\<lambda>lock.
     case lock of
       None \<Rightarrow>
         andThen (modify (\<lambda>u. u\<lparr>up_lock := None, up_storeKey := []\<rparr>)) (\<lambda>_. up_respond False)
     | Some (ch, storeKey) \<Rightarrow>
         andThen (modify (\<lambda>u. u\<lparr>up_lock := Some ch, up_storeKey := storeKey\<rparr>)) (\<lambda>_.
         andThen (up_respond True) (\<lambda>_. upload_loop ops ins))))"
| "upload_loop ops (Inr (UploadChunk name d) # ins) =
     andThen (get_state up_meta) (\<lambda>meta.
     if meta = None then throw ErrMissingMeta
     else andThen (processChunkUpload ops name d) (\<lambda>_. upload_loop ops ins))"
| "upload_loop ops (Inr UploadDone # ins) =
     andThen (finish_chunk ops) (\<lambda>_.
     andThen (get_state (\<lambda>u. (up_meta u, up_lock u, up_storeKey u))) (\<lambda>(meta, lock, storeKey).
     case (meta, lock) of
       (None, _) \<Rightarrow> throw ErrMissingMeta
     | (Some key, None) \<Rightarrow> panic
     | (Some key, Some ch) \<Rightarrow>
         andThen (on_repo (rp_StoreUnlock ops key storeKey ch True)) (\<lambda>_.
         andThen (modify (\<lambda>u. u\<lparr>up_lock := None\<rparr>)) (\<lambda>_. up_respond False))))"

text \<open>
  The deferred function: a file in progress ends with what it has, and a lock still held is
  given back without saving.
\<close>

definition upload_cleanup :: "'s repo_ops \<Rightarrow> ('s upload_state, unit) proc" where
  "upload_cleanup ops =
     andThen (attempt (finish_chunk ops)) (\<lambda>_.
     andThen (get_state (\<lambda>u. (up_meta u, up_lock u, up_storeKey u))) (\<lambda>(meta, lock, storeKey).
     case (meta, lock) of
       (Some key, Some ch) \<Rightarrow>
         andThen (on_repo (rp_StoreUnlock ops key storeKey ch False)) (\<lambda>_.
         modify (\<lambda>u. u\<lparr>up_lock := None\<rparr>))
     | _ \<Rightarrow> return ()))"

definition start_upload :: "'s \<Rightarrow> 's upload_state" where
  "start_upload s = \<lparr>up_repo = s, up_out = [], up_meta = None, up_chunk = None, up_lock = None,
     up_storeKey = []\<rparr>"

definition Upload :: "'s repo_ops \<Rightarrow> upload_request result list \<Rightarrow> ('s upload_state, unit) proc" where
  "Upload ops ins =
     andThen (attempt (upload_loop ops ins)) (\<lambda>r.
     andThen (upload_cleanup ops) (\<lambda>_. case r of Inl e \<Rightarrow> throw e | Inr _ \<Rightarrow> return ()))"

section \<open>What the uploaders send\<close>

text \<open>A file, cut into pieces; \<open>session\<close> is the stream of an accepted upload.\<close>

definition file_messages :: "nat \<Rightarrow> string \<times> bytes \<Rightarrow> upload_request list" where
  "file_messages n = (\<lambda>(name, content). map (UploadChunk name) (pieces n content))"

definition session :: "nat \<Rightarrow> string \<Rightarrow> (string \<times> bytes) list \<Rightarrow> upload_request list" where
  "session n key files =
     [UploadMeta key] @ concat (map (file_messages n) files) @ [UploadDone]"

fun store_files ::
  "'s repo_ops \<Rightarrow> string \<Rightarrow> string \<Rightarrow> (string \<times> bytes) list \<Rightarrow> ('s, unit) proc" where
  "store_files ops key storeKey [] = return ()"
| "store_files ops key storeKey ((name, content) # files) =
     andThen (rp_Store ops key storeKey content name) (\<lambda>_. store_files ops key storeKey files)"

fun upload_payload :: "upload_request \<Rightarrow> bytes" where
  "upload_payload (UploadChunk name d) = d"
| "upload_payload _ = []"

interpretation file_upload: chunked_content "2097152" "\<lambda>content. file_messages 2097152 (name, content)"
  upload_payload
  by unfold_locales (auto simp: file_messages_def comp_def concat_pieces pieces_length)

section \<open>Facts\<close>

lemma on_repo_run: "m (up_repo u) = Returns (r, s) \<Longrightarrow> on_repo m u = Returns (r, u\<lparr>up_repo := s\<rparr>)"
  by (simp add: on_repo_def)

text \<open>Further chunks of the file in progress.\<close>

lemma upload_more:
  assumes "up_chunk u = Some (name, data, None)" "up_meta u = Some key"
  shows "upload_loop ops (map (\<lambda>d. Inr (UploadChunk name d)) ps @ ins) u =
    upload_loop ops ins (u\<lparr>up_chunk := Some (name, data @ ps, None)\<rparr>)"
  using assms
proof (induction ps arbitrary: u data)
  case (Cons p ps)
  then show ?case by (simp add: processChunkUpload_def put_chunk_def proc_eval)
next
  case Nil
  then have "u\<lparr>up_chunk := Some (name, data, None)\<rparr> = u" by (simp flip: Nil.prems(1))
  then show ?case by simp
qed

text \<open>One file, from a state without a file in progress or with one of another name.\<close>

lemma upload_file:
  assumes "content \<noteq> []" "0 < n" "up_meta u = Some key" "\<And>s. rp_Consumes ops key (up_storeKey u) name s = None"
    and "up_chunk u = None"
  shows "upload_loop ops (map Inr (file_messages n (name, content)) @ ins) u =
    upload_loop ops ins (u\<lparr>up_chunk := Some (name, pieces n content, None)\<rparr>)"
proof -
  obtain p ps where ps: "pieces n content = p # ps"
    using pieces_neq_Nil [OF assms(1,2)] by (cases "pieces n content") auto
  let ?u = "u\<lparr>up_chunk := Some (name, [p], None)\<rparr>"
  have "upload_loop ops (map Inr (file_messages n (name, content)) @ ins) u =
      upload_loop ops (map (\<lambda>d. Inr (UploadChunk name d)) ps @ ins) ?u"
    using assms(3-5) by (simp add: file_messages_def ps processChunkUpload_def put_chunk_def proc_eval comp_def)
  also have "\<dots> = upload_loop ops ins (?u\<lparr>up_chunk := Some (name, [p] @ ps, None)\<rparr>)"
    using assms(3) by (intro upload_more) simp_all
  finally show ?thesis by (simp add: ps)
qed

lemma upload_next_file:
  assumes "content \<noteq> []" "0 < n" "up_meta u = Some key" "\<And>s. rp_Consumes ops key (up_storeKey u) name s = None"
    and "up_chunk u = Some (name', data, c)" "name' \<noteq> name"
    and "rp_Store ops key (up_storeKey u) (concat data) name' (up_repo u) = Returns (Inr p', s')"
  shows "upload_loop ops (map Inr (file_messages n (name, content)) @ ins) u =
    upload_loop ops ins (u\<lparr>up_repo := s', up_chunk := Some (name, pieces n content, None)\<rparr>)"
proof -
  obtain p ps where ps: "pieces n content = p # ps"
    using pieces_neq_Nil [OF assms(1,2)] by (cases "pieces n content") auto
  let ?u = "u\<lparr>up_repo := s', up_chunk := Some (name, [p], None)\<rparr>"
  have "upload_loop ops (map Inr (file_messages n (name, content)) @ ins) u =
      upload_loop ops (map (\<lambda>d. Inr (UploadChunk name d)) ps @ ins) ?u"
    using assms(3-7)
    by (simp add: file_messages_def ps processChunkUpload_def put_chunk_def finish_chunk_def proc_eval
        comp_def on_repo_def)
  also have "\<dots> = upload_loop ops ins (?u\<lparr>up_chunk := Some (name, [p] @ ps, None)\<rparr>)"
    using assms(3) by (intro upload_more) simp_all
  finally show ?thesis by (simp add: ps)
qed

text \<open>All files: each is stored when the next one, or the end, arrives.\<close>

lemma upload_done_pending:
  assumes "up_meta u = Some key" "up_chunk u = Some (name, data, c)"
    and "rp_Store ops key (up_storeKey u) (concat data) name (up_repo u) = Returns (Inr p, s')"
  shows "upload_loop ops [Inr UploadDone] u = upload_loop ops [Inr UploadDone] (u\<lparr>up_repo := s', up_chunk := None\<rparr>)"
proof -
  let ?v = "u\<lparr>up_repo := s', up_chunk := None\<rparr>"
  have 1: "finish_chunk ops u = Returns (Inr (), ?v)"
    using assms by (simp add: finish_chunk_def proc_eval on_repo_def)
  have 2: "finish_chunk ops ?v = Returns (Inr (), ?v)"
    by (simp add: finish_chunk_def proc_eval)
  show ?thesis
    by (simp only: upload_loop.simps andThen_run(2) [where m = "finish_chunk ops", OF 1]
        andThen_run(2) [where m = "finish_chunk ops", OF 2])
qed

lemma store_files_ConsE:
  assumes "store_files ops key sk ((name, content) # files) s = Returns (Inr (), s2)"
  obtains q s' where "rp_Store ops key sk content name s = Returns (Inr q, s')"
    "store_files ops key sk files s' = Returns (Inr (), s2)"
  using assms by (auto elim!: andThen_ReturnsE)

lemma upload_files_pending:
  assumes "up_meta u = Some key" "\<And>name s. rp_Consumes ops key (up_storeKey u) name s = None"
    and "up_chunk u = Some (name', data, c)" "0 < n"
    and "distinct (name' # map fst files)" "\<forall>(name, content)\<in>set files. content \<noteq> []"
    and "store_files ops key (up_storeKey u) ((name', concat data) # files) (up_repo u) = Returns (Inr (), s2)"
  shows "upload_loop ops (map Inr (concat (map (file_messages n) files)) @ [Inr UploadDone]) u =
    upload_loop ops [Inr UploadDone] (u\<lparr>up_repo := s2, up_chunk := None\<rparr>)"
  using assms
proof (induction files arbitrary: u name' data c)
  case Nil
  then obtain q s' where q: "rp_Store ops key (up_storeKey u) (concat data) name' (up_repo u) = Returns (Inr q, s')"
    by (auto simp: return_def elim!: andThen_ReturnsE)
  with Nil have "s' = s2" by (simp add: proc_eval)
  with Nil q upload_done_pending [of u key name' data c ops q s'] show ?case by simp
next
  case (Cons f files)
  obtain name content where f: "f = (name, content)" by force
  from Cons.prems(7) obtain q s' where
    q: "rp_Store ops key (up_storeKey u) (concat data) name' (up_repo u) = Returns (Inr q, s')"
    and rest: "store_files ops key (up_storeKey u) ((name, content) # files) s' = Returns (Inr (), s2)"
    by (auto simp: f simp del: store_files.simps elim: store_files_ConsE)
  have c: "content \<noteq> []" "name' \<noteq> name" using Cons.prems(5,6) f by auto
  let ?u = "u\<lparr>up_repo := s', up_chunk := Some (name, pieces n content, None)\<rparr>"
  have "upload_loop ops (map Inr (concat (map (file_messages n) (f # files))) @ [Inr UploadDone]) u =
      upload_loop ops (map Inr (concat (map (file_messages n) files)) @ [Inr UploadDone]) ?u"
    using upload_next_file [OF c(1) Cons.prems(4,1,2,3) c(2) q] by (simp add: f)
  also have "\<dots> = upload_loop ops [Inr UploadDone] (?u\<lparr>up_repo := s2, up_chunk := None\<rparr>)"
    using Cons.prems rest by (intro Cons.IH) (auto simp: f concat_pieces)
  finally show ?case by simp
qed

lemma upload_all_files:
  assumes "up_meta u = Some key" "\<And>name s. rp_Consumes ops key (up_storeKey u) name s = None"
    and "up_chunk u = None" "0 < n"
    and "distinct (map fst files)" "\<forall>(name, content)\<in>set files. content \<noteq> []"
    and "store_files ops key (up_storeKey u) files (up_repo u) = Returns (Inr (), s2)"
  shows "upload_loop ops (map Inr (concat (map (file_messages n) files)) @ [Inr UploadDone]) u =
    upload_loop ops [Inr UploadDone] (u\<lparr>up_repo := s2, up_chunk := None\<rparr>)"
proof (cases files)
  case Nil
  then have "u\<lparr>up_repo := s2, up_chunk := None\<rparr> = u"
    using assms(3,7) by (simp add: proc_eval)
  with Nil show ?thesis by simp
next
  case (Cons f fs)
  obtain name content where f: "f = (name, content)" by force
  have c: "content \<noteq> []" using assms(6) Cons f by auto
  let ?u = "u\<lparr>up_chunk := Some (name, pieces n content, None)\<rparr>"
  have "upload_loop ops (map Inr (concat (map (file_messages n) files)) @ [Inr UploadDone]) u =
      upload_loop ops (map Inr (concat (map (file_messages n) fs)) @ [Inr UploadDone]) ?u"
    using upload_file [OF c assms(4,1,2,3)] by (simp add: f Cons)
  also have "\<dots> = upload_loop ops [Inr UploadDone] (?u\<lparr>up_repo := s2, up_chunk := None\<rparr>)"
    using assms f Cons by (intro upload_files_pending) (auto simp: concat_pieces)
  finally show ?thesis by simp
qed

text \<open>A file without content makes no message.\<close>

lemma file_messages_Nil [simp]: "file_messages n (name, []) = []"
  by (simp add: file_messages_def)

lemma session_drops_empty:
  "session n key files = session n key (filter (\<lambda>f. snd f \<noteq> []) files)"
proof -
  have "concat (map (file_messages n) files) = concat (map (file_messages n) (filter (\<lambda>f. snd f \<noteq> []) files))"
    by (induction files) (auto simp: file_messages_def)
  then show ?thesis by (simp add: session_def)
qed

section \<open>Properties\<close>

lemma upload_session_stores:
  assumes "rp_StoreLock ops key s = Returns (Inr (Some (ch, storeKey)), s1)"
    and "\<And>name s. rp_Consumes ops key storeKey name s = None"
    and "distinct (map fst files)" "0 < n"
    and "store_files ops key storeKey (filter (\<lambda>f. snd f \<noteq> []) files) s1 = Returns (Inr (), s2)"
    and "rp_StoreUnlock ops key storeKey ch True s2 = Returns (Inr (), s3)"
  shows "\<exists>u. Upload ops (map Inr (session n key files)) (start_upload s) = Returns (Inr (), u) \<and>
    up_repo u = s3 \<and> up_out u = [True, False] \<and> up_lock u = None"
proof -
  let ?fs = "filter (\<lambda>f. snd f \<noteq> []) files"
  define u1 where "u1 = \<lparr>up_repo = s1, up_out = [True], up_meta = Some key, up_chunk = None,
    up_lock = Some ch, up_storeKey = storeKey\<rparr>"
  define u2 where "u2 = u1\<lparr>up_repo := s2, up_chunk := None\<rparr>"
  define u3 where "u3 = u2\<lparr>up_repo := s3, up_lock := None, up_out := [True, False]\<rparr>"
  have "upload_loop ops (map Inr (session n key ?fs)) (start_upload s) =
      upload_loop ops (map Inr (concat (map (file_messages n) ?fs)) @ [Inr UploadDone]) u1"
    using assms(1) by (simp add: session_def start_upload_def proc_eval on_repo_def up_respond_def u1_def)
  also have "\<dots> = upload_loop ops [Inr UploadDone] u2"
    unfolding u2_def using assms(2,3,4,5)
    by (intro upload_all_files [where key = key]) (auto simp: u1_def distinct_map_filter)
  also have "\<dots> = Returns (Inr (), u3)"
    using assms(6) by (simp add: u2_def u1_def u3_def proc_eval finish_chunk_def on_repo_def up_respond_def)
  finally have "upload_loop ops (map Inr (session n key files)) (start_upload s) = Returns (Inr (), u3)"
    using session_drops_empty [of n key files] by simp
  then have "Upload ops (map Inr (session n key files)) (start_upload s) = Returns (Inr (), u3)"
    by (simp add: Upload_def upload_cleanup_def finish_chunk_def proc_eval u3_def u2_def u1_def)
  then show ?thesis by (simp add: u3_def)
qed

text \<open>
  What is uploaded is what is stored. The session a sender makes of any files (with
  different names, in pieces of any size), received by \<open>Upload\<close> while the key is free and
  the repository stores without errors, has the effect of storing each file that has content,
  whole and in order, under the key of the lock, and of unlocking with the save; it is
  answered with the acceptance and the confirmation. An empty file leaves no trace in the
  session, so it is not stored.
\<close>

theorem upload_stores_files:
  assumes "rp_StoreLock ops key s = Returns (Inr (Some (ch, storeKey)), s1)"
    and "\<And>name s. rp_Consumes ops key storeKey name s = None"
    and "distinct (map fst files)" "0 < n"
    and "store_files ops key storeKey (filter (\<lambda>f. snd f \<noteq> []) files) s1 = Returns (Inr (), s2)"
    and "rp_StoreUnlock ops key storeKey ch True s2 = Returns (Inr (), s3)"
  shows "\<exists>u. Upload ops (map Inr (session n key files)) (start_upload s) = Returns (Inr (), u) \<and>
    up_repo u = s3 \<and> up_out u = [True, False] \<and> up_lock u = None"
  using assms by (rule upload_session_stores)

text \<open>A repository that writes a list of what happened to it.\<close>

definition toy_ops :: "(string \<times> bytes) list repo_ops" where
  "toy_ops = \<lparr>rp_Get = \<lambda>k. return [], rp_StoreLock = \<lambda>k. return (Some (7, ''sk'')),
     rp_StoreUnlock = \<lambda>k sk ch save. modify (\<lambda>s. s @ [(''unlock'', [if save then 1 else 0])]),
     rp_Store = \<lambda>k sk d name. andThen (modify (\<lambda>s. s @ [(name, d)])) (\<lambda>_. return ''p''),
     rp_Delete = \<lambda>k. return (), rp_Consumes = \<lambda>k sk name s. None\<rparr>"

theorem upload_stores_files_witness:
  "\<exists>u. Upload toy_ops (map Inr (session 2 ''k'' [(''a'', [1, 2, 3]), (''e'', []), (''b'', [4])]))
       (start_upload []) = Returns (Inr (), u) \<and>
     up_repo u = [(''a'', [1, 2, 3]), (''b'', [4]), (''unlock'', [1])] \<and> up_out u = [True, False] \<and>
     up_lock u = None"
  by (rule upload_stores_files [where storeKey = "''sk''" and ch = 7 and ?s1.0 = "[]"
        and ?s2.0 = "[(''a'', [1, 2, 3]), (''b'', [4])]"])
    (simp_all add: toy_ops_def proc_eval)

text \<open>
  C27: an upload whose \<open>Store\<close> gives up early hangs. When the \<open>Store\<close> of a file ends with an
  error before it reads its data (no disk space is left, or the directory or the file cannot
  be created) and the file has more than one piece, the handler waits for ever to put the
  second piece into the channel nobody reads, holding the lock of the key, instead of
  reporting the error.
\<close>

theorem upload_hangs_on_failed_store:
  assumes "rp_StoreLock ops key s = Returns (Inr (Some (ch, storeKey)), s1)"
    and "rp_Consumes ops key storeKey name s1 = Some 0"
    and "0 < n" "n < length content"
  shows "Upload ops (map Inr (session n key ((name, content) # files))) (start_upload s) = Blocks"
proof -
  have "content \<noteq> []" using assms(4) by auto
  then have "pieces n content = take n content # pieces n (drop n content)" "drop n content \<noteq> []"
    using assms(3,4) by (simp_all add: pieces_step)
  then obtain p q ps where ps: "pieces n content = p # q # ps"
    using assms(3) by (metis pieces_step)
  have "upload_loop ops (map Inr (session n key ((name, content) # files))) (start_upload s) = Blocks"
    using assms(1,2)
    by (simp add: session_def file_messages_def ps start_upload_def proc_eval on_repo_def up_respond_def
        processChunkUpload_def put_chunk_def)
  then show ?thesis by (simp add: Upload_def proc_eval)
qed

text \<open>
  With \<open>FsRepo\<close> and a full disk: the usage stays at 95 percent of 90 allowed, and the cache is
  empty.
\<close>

lemma full_repo_consumes:
  "rp_Consumes (fs_repo_ops (list_lru 2) toy_fs) key storeKey name
     (toy_repo\<lparr>storeLocks := ls, next_ch := c\<rparr>) = Some 0"
  by (simp add: fs_repo_ops_def make_room.simps toy_fs_def cache_op_def list_lru_def proc_eval
      toy_repo_def DefaultRepoOptions_def)

theorem upload_hangs_on_failed_store_witness:
  "Upload (fs_repo_ops (list_lru 2) toy_fs)
     (map Inr (session 2 ''k'' [(''index.js'', [1, 2, 3, 4, 5])])) (start_upload toy_repo) = Blocks"
proof (rule upload_hangs_on_failed_store [where storeKey = "''key''" and ch = "next_ch toy_repo"])
  show "rp_StoreLock (fs_repo_ops (list_lru 2) toy_fs) ''k'' toy_repo =
      Returns (Inr (Some (next_ch toy_repo, ''key'')),
        toy_repo\<lparr>storeLocks := [(''k'', next_ch toy_repo)], next_ch := next_ch toy_repo + 1\<rparr>)"
    by (simp add: fs_repo_ops_def StoreLock_def store_lock_try_def GenerateKey_def on_fs_def lift_eff_def
        proc_eval toy_fs_def toy_repo_def)
qed (simp_all add: full_repo_consumes)

end
