(* ===== verification/Lb_Worker.thy ===== *)
theory Lb_Worker
  imports Messages Repo_Server
begin

text \<open>
  The workers a load balancer knows and their containers (app/lb/worker.go). Workers and
  containers are pointers in the source, shared by the cache of workers, the maps of the
  server and the calls in progress: here they are references (numbers) into two heaps, next
  to the two gauges of metrics.go.
\<close>

section \<open>State\<close>

record worker =
  w_ID :: string
  w_Addr :: "string \<times> int"
  w_waitGroup :: int
  w_mCPU :: u32
  w_defaultMCPU :: u32
  w_memory :: u64
  w_freeCPU :: i32
  w_freeMemory :: u64
  w_alive :: bool
  w_scriptsRefCounter :: "(string, int) gomap"
  w_scripts :: "(string, script_def) gomap"
  w_containers :: "(string, nat) gomap"
  w_errorCount :: u32

record worker_container =
  wc_Worker :: nat
  wc_ID :: string
  wc_conns :: u32
  wc_mCPU :: u32
  wc_async :: u32

record lb_heap =
  wk :: "nat \<Rightarrow> worker"
  wc :: "nat \<Rightarrow> worker_container"
  next_wk :: nat
  next_wc :: nat
  metric_CPU :: i64
  metric_Count :: i64

definition set_worker :: "nat \<Rightarrow> (worker \<Rightarrow> worker) \<Rightarrow> 'z lb_heap_scheme \<Rightarrow> 'z lb_heap_scheme" where
  "set_worker r f s = s\<lparr>wk := (wk s)(r := f (wk s r))\<rparr>"

definition set_container ::
  "nat \<Rightarrow> (worker_container \<Rightarrow> worker_container) \<Rightarrow> 'z lb_heap_scheme \<Rightarrow> 'z lb_heap_scheme" where
  "set_container r f s = s\<lparr>wc := (wc s)(r := f (wc s r))\<rparr>"

definition add_metric_CPU :: "i64 \<Rightarrow> 'z lb_heap_scheme \<Rightarrow> 'z lb_heap_scheme" where
  "add_metric_CPU d s = s\<lparr>metric_CPU := metric_CPU s + d\<rparr>"

section \<open>Workers\<close>

text \<open>
  \<open>NewWorker\<close>: dialling without blocking fails only for a bad address, which panics
  (\<open>util.Must\<close>); \<open>dial_ok\<close> is its answer. The memory goes to \<open>freeMemory\<close>; the field
  \<open>memory\<close>, which \<open>Heartbeat\<close> writes, starts at 0.
\<close>

definition NewWorker ::
  "bool \<Rightarrow> string \<Rightarrow> string \<times> int \<Rightarrow> u32 \<Rightarrow> u32 \<Rightarrow> u64 \<Rightarrow> 'z lb_heap_scheme
   \<Rightarrow> (nat \<times> 'z lb_heap_scheme) outcome" where
  "NewWorker dial_ok wid addr mCPU defaultMCPU mem s =
     (if \<not> dial_ok then Panics
      else let r = next_wk s;
               w = \<lparr>w_ID = wid, w_Addr = addr, w_waitGroup = 0, w_mCPU = mCPU,
                    w_defaultMCPU = defaultMCPU, w_memory = 0, w_freeCPU = mCPU,
                    w_freeMemory = mem, w_alive = True, w_scriptsRefCounter = [],
                    w_scripts = [], w_containers = [], w_errorCount = 0\<rparr>
           in Returns (r, add_metric_CPU (ucast mCPU)
                (s\<lparr>wk := (wk s)(r := w), next_wk := r + 1\<rparr>)))"

definition FreeCPU :: "'z lb_heap_scheme \<Rightarrow> nat \<Rightarrow> int" where
  "FreeCPU s r = sint (w_freeCPU (wk s r))"

definition FreeMemory :: "'z lb_heap_scheme \<Rightarrow> nat \<Rightarrow> u64" where
  "FreeMemory s r = w_freeMemory (wk s r)"

definition Alive :: "'z lb_heap_scheme \<Rightarrow> nat \<Rightarrow> bool" where
  "Alive s r = w_alive (wk s r)"

text \<open>\<open>reserve\<close> and \<open>release\<close> of a worker: only the first connection of a container counts.\<close>

definition w_reserve :: "nat \<Rightarrow> u32 \<Rightarrow> u32 \<Rightarrow> bool \<Rightarrow> 'z lb_heap_scheme \<Rightarrow> bool \<times> 'z lb_heap_scheme" where
  "w_reserve r mCPU conns require s =
     (if 1 < conns \<and> Alive s r
      then (True, set_worker r (\<lambda>w. w\<lparr>w_waitGroup := w_waitGroup w + 1\<rparr>) s)
      else if \<not> w_alive (wk s r) \<or> (require \<and> sint (w_freeCPU (wk s r)) < sint (mCPU :: i32))
      then (False, s)
      else (True, add_metric_CPU (- ucast mCPU)
             (set_worker r (\<lambda>w. w\<lparr>w_freeCPU := w_freeCPU w - mCPU, w_waitGroup := w_waitGroup w + 1\<rparr>) s)))"

definition w_release :: "nat \<Rightarrow> u32 \<Rightarrow> u32 \<Rightarrow> 'z lb_heap_scheme \<Rightarrow> 'z lb_heap_scheme" where
  "w_release r mCPU conns s =
     (let s1 = (if conns \<noteq> 0 \<or> \<not> w_alive (wk s r) then s
                else add_metric_CPU (ucast mCPU)
                  (set_worker r (\<lambda>w. w\<lparr>w_freeCPU := w_freeCPU w + mCPU\<rparr>) s))
      in set_worker r (\<lambda>w. w\<lparr>w_waitGroup := w_waitGroup w - 1\<rparr>) s1)"

definition IncreaseErrorCount :: "nat \<Rightarrow> 'z lb_heap_scheme \<Rightarrow> u32 \<times> 'z lb_heap_scheme" where
  "IncreaseErrorCount r s =
     (let s' = set_worker r (\<lambda>w. w\<lparr>w_errorCount := w_errorCount w + 1\<rparr>) s
      in (w_errorCount (wk s' r), s'))"

definition ResetErrorCount :: "nat \<Rightarrow> 'z lb_heap_scheme \<Rightarrow> 'z lb_heap_scheme" where
  "ResetErrorCount r = set_worker r (\<lambda>w. w\<lparr>w_errorCount := 0\<rparr>)"

definition w_Heartbeat :: "nat \<Rightarrow> u64 \<Rightarrow> 'z lb_heap_scheme \<Rightarrow> 'z lb_heap_scheme" where
  "w_Heartbeat r mem = set_worker r (\<lambda>w. w\<lparr>w_memory := mem\<rparr>)"

definition w_NewContainer :: "nat \<Rightarrow> u32 \<Rightarrow> u32 \<Rightarrow> 'z lb_heap_scheme \<Rightarrow> nat \<times> 'z lb_heap_scheme" where
  "w_NewContainer r async mcpu s =
     (let c = next_wc s;
          m = (if mcpu = 0 then w_defaultMCPU (wk s r) else mcpu)
      in (c, s\<lparr>wc := (wc s)(c := \<lparr>wc_Worker = r, wc_ID = [], wc_conns = 0, wc_mCPU = m,
                                  wc_async = async\<rparr>),
               next_wc := c + 1\<rparr>))"

text \<open>The reference counts of the scripts a worker has containers of.\<close>

definition AddCache :: "hasher \<Rightarrow> nat \<Rightarrow> script_def \<Rightarrow> nat \<Rightarrow> 'z lb_heap_scheme \<Rightarrow> 'z lb_heap_scheme" where
  "AddCache h r d c s =
     (let defHash = Definition_Hash h d
      in set_worker r (\<lambda>w. w\<lparr>
           w_scriptsRefCounter := AList.update defHash
             ((case map_of (w_scriptsRefCounter w) defHash of None \<Rightarrow> 0 | Some n \<Rightarrow> n) + 1)
             (w_scriptsRefCounter w),
           w_scripts := AList.update defHash d (w_scripts w),
           w_containers := AList.update (wc_ID (wc s c)) c (w_containers w)\<rparr>) s)"

definition RemoveCache ::
  "hasher \<Rightarrow> nat \<Rightarrow> script_def \<Rightarrow> string \<Rightarrow> 'z lb_heap_scheme \<Rightarrow> bool \<times> 'z lb_heap_scheme" where
  "RemoveCache h r d contID s =
     (let defHash = Definition_Hash h d;
          ref = (case map_of (w_scriptsRefCounter (wk s r)) defHash of None \<Rightarrow> 0 | Some n \<Rightarrow> n);
          s1 = set_worker r (\<lambda>w. w\<lparr>w_containers := AList.delete contID (w_containers w)\<rparr>) s
      in if 1 < ref
         then (False, set_worker r (\<lambda>w. w\<lparr>
                 w_scriptsRefCounter := AList.update defHash (ref - 1) (w_scriptsRefCounter w),
                 w_scripts := AList.update defHash d (w_scripts w)\<rparr>) s1)
         else (True, set_worker r (\<lambda>w. w\<lparr>
                 w_scriptsRefCounter := AList.delete defHash (w_scriptsRefCounter w),
                 w_scripts := AList.delete defHash (w_scripts w)\<rparr>) s1))"

text \<open>\<open>Shutdown\<close>, without the goroutine that closes the connection once the worker is drained.\<close>

definition w_Shutdown :: "nat \<Rightarrow> 'z lb_heap_scheme \<Rightarrow> script_def list \<times> 'z lb_heap_scheme" where
  "w_Shutdown r s =
     (map snd (w_scripts (wk s r)),
      add_metric_CPU (- scast (w_freeCPU (wk s r))) (set_worker r (\<lambda>w. w\<lparr>w_alive := False\<rparr>) s))"

section \<open>Containers\<close>

definition Conns :: "'z lb_heap_scheme \<Rightarrow> nat \<Rightarrow> u32" where
  "Conns s c = wc_conns (wc s c)"

text \<open>
  \<open>Reserve\<close>: the number of connections after it, or -1. The result is an \<open>int\<close> of a
  \<open>uint32\<close>.
\<close>

definition wc_Reserve :: "nat \<Rightarrow> 'z lb_heap_scheme \<Rightarrow> int \<times> 'z lb_heap_scheme" where
  "wc_Reserve c s =
     (let s1 = set_container c (\<lambda>k. k\<lparr>wc_conns := wc_conns k + 1\<rparr>) s;
          conns = wc_conns (wc s1 c);
          async = wc_async (wc s1 c);
          undo = set_container c (\<lambda>k. k\<lparr>wc_conns := wc_conns k - 1\<rparr>)
      in if 1 < async \<and> async < conns then (- 1, undo s1)
         else let r = wc_Worker (wc s1 c);
                  require = sint (wc_mCPU (wc s1 c) :: i32) < FreeCPU s1 r;
                  (ok, s2) = w_reserve r (wc_mCPU (wc s1 c)) conns require s1
              in if \<not> ok then (- 1, undo s2) else (uint conns, s2))"

definition wc_Release :: "nat \<Rightarrow> 'z lb_heap_scheme \<Rightarrow> 'z lb_heap_scheme" where
  "wc_Release c s =
     (let s1 = set_container c (\<lambda>k. k\<lparr>wc_conns := wc_conns k - 1\<rparr>) s
      in w_release (wc_Worker (wc s1 c)) (wc_mCPU (wc s1 c)) (wc_conns (wc s1 c)) s1)"

section \<open>Calls of the worker\<close>

text \<open>
  The remote calls, on the address of a worker and a state \<open>'w\<close> of the outside world; the
  local file system \<open>fs\<close> the sources are read from. A file is what its successive reads
  return, and then the error they go on returning (\<open>EEOF\<close> at the end of a sound file).
\<close>

record 'w worker_rpc =
  rpc_Exists :: "string \<times> int \<Rightarrow> string \<Rightarrow> ('w, bool) eff"
  rpc_Upload :: "string \<times> int \<Rightarrow> ('w, nat) eff"
  rpc_UploadSend :: "nat \<Rightarrow> upload_request \<Rightarrow> ('w, unit) eff"
  rpc_UploadRecv :: "nat \<Rightarrow> ('w, bool) eff"
  rpc_Run :: "string \<times> int \<Rightarrow> ('w, nat) eff"
  rpc_RunSend :: "nat \<Rightarrow> script_request \<Rightarrow> ('w, unit) eff"
  rpc_CloseSend :: "nat \<Rightarrow> ('w, unit) eff"
  rpc_Responses :: "nat \<Rightarrow> 'w \<Rightarrow> (run_response list \<times> go_error) \<times> 'w"
  rpc_Delete :: "string \<times> int \<Rightarrow> string \<times> string \<times> string \<times> string \<Rightarrow> ('w, string list) eff"

record file_entry =
  fe_name :: string
  fe_open :: "go_error option"
  fe_reads :: "bytes list"
  fe_end :: go_error

text \<open>The visits of a walk: an error it met, a directory, or a file.\<close>

datatype walk_visit = WalkError go_error | WalkDir | WalkFile file_entry

type_synonym ('w, 'a) call = "('w, 'a) proc"

definition on_world :: "('w, 'a) eff \<Rightarrow> ('w, 'a) proc" where
  "on_world m = lift_eff (\<lambda>w. w) (\<lambda>w _. w) m"

fun send_reads :: "'w worker_rpc \<Rightarrow> nat \<Rightarrow> string \<Rightarrow> bytes list \<Rightarrow> ('w, unit) proc" where
  "send_reads rpc str name [] = return ()"
| "send_reads rpc str name (d # ds) =
     andThen (on_world (rpc_UploadSend rpc str (UploadChunk name d))) (\<lambda>_. send_reads rpc str name ds)"

text \<open>
  A read that fails with anything but the end of the file is not noticed: the loop sends what
  it got, an empty chunk, and reads again. It leaves the loop only with an error of a send;
  \<open>None\<close> is a loop that goes on for ever.
\<close>

partial_function (option) send_empty_for_ever ::
  "'w worker_rpc \<Rightarrow> nat \<Rightarrow> string \<Rightarrow> 'w \<Rightarrow> (unit result \<times> 'w) option" where
  "send_empty_for_ever rpc str name w =
     (case rpc_UploadSend rpc str (UploadChunk name []) w of
        (Inl e, w1) \<Rightarrow> Some (Inl e, w1)
      | (Inr _, w1) \<Rightarrow> send_empty_for_ever rpc str name w1)"

definition send_file :: "'w worker_rpc \<Rightarrow> nat \<Rightarrow> file_entry \<Rightarrow> ('w, unit) proc" where
  "send_file rpc str fe =
     (case fe_open fe of
        Some e \<Rightarrow> throw e
      | None \<Rightarrow>
          andThen (send_reads rpc str (fe_name fe) (fe_reads fe)) (\<lambda>_.
          if fe_end fe = EEOF then return ()
          else (\<lambda>w. case send_empty_for_ever rpc str (fe_name fe) w of
                      None \<Rightarrow> Blocks | Some r \<Rightarrow> Returns r)))"

fun send_walk :: "'w worker_rpc \<Rightarrow> nat \<Rightarrow> walk_visit list \<Rightarrow> ('w, unit) proc" where
  "send_walk rpc str [] = return ()"
| "send_walk rpc str (WalkError e # vs) = throw e"
| "send_walk rpc str (WalkDir # vs) = send_walk rpc str vs"
| "send_walk rpc str (WalkFile fe # vs) =
     andThen (send_file rpc str fe) (\<lambda>_. send_walk rpc str vs)"

definition uploadDir :: "'w worker_rpc \<Rightarrow> nat \<Rightarrow> string \<Rightarrow> walk_visit list \<Rightarrow> ('w, unit) proc" where
  "uploadDir rpc str key visits =
     andThen (on_world (rpc_UploadSend rpc str (UploadMeta key))) (\<lambda>_.
     andThen (on_world (rpc_UploadRecv rpc str)) (\<lambda>accepted.
     if \<not> accepted then return ()
     else andThen (send_walk rpc str visits) (\<lambda>_.
          andThen (on_world (rpc_UploadSend rpc str UploadDone)) (\<lambda>_.
          andThen (on_world (rpc_UploadRecv rpc str)) (\<lambda>_. return ())))))"

definition wc_Upload ::
  "'w worker_rpc \<Rightarrow> string \<times> int \<Rightarrow> walk_visit list \<Rightarrow> string \<Rightarrow> ('w, unit) proc" where
  "wc_Upload rpc addr visits key =
     andThen (on_world (rpc_Upload rpc addr)) (\<lambda>str.
     try_catch (uploadDir rpc str key visits)
       (\<lambda>err. try_catch (on_world (rpc_Exists rpc addr key))
          (\<lambda>e. throw err) (\<lambda>ok. if ok then return () else throw err))
       return)"

text \<open>
  The loop that hands the chunks on. The reader is part of the state, as it is shared by all
  attempts of a run.
\<close>

fun send_chunks ::
  "(script_request \<Rightarrow> ('w, unit) eff) \<Rightarrow> run_chunk result list \<Rightarrow> ('w \<times> chunk_reader, unit) proc" where
  "send_chunks snd_fn [] = modify (\<lambda>(w, cr). (w, cr\<lparr>cr_isDirty := True\<rparr>))"
| "send_chunks snd_fn (Inl e # rs) =
     andThen (modify (\<lambda>(w, cr). (w, \<lparr>cr_isDirty = True, cr_rest = rs\<rparr>))) (\<lambda>_.
     if e = EEOF then return () else throw (EWrap ''reading script chunk failed'' e))"
| "send_chunks snd_fn (Inr chunk # rs) =
     andThen (modify (\<lambda>(w, cr). (w, \<lparr>cr_isDirty = True, cr_rest = rs\<rparr>))) (\<lambda>_.
     try_catch (lift_eff fst (\<lambda>w (_, cr). (w, cr)) (snd_fn (ScriptRunChunk chunk)))
       (\<lambda>e. throw (EWrap ''sending script request failed'' e))
       (\<lambda>_. send_chunks snd_fn rs))"

definition on_first :: "('w, 'a) eff \<Rightarrow> ('w \<times> 'c, 'a) proc" where
  "on_first m = lift_eff fst (\<lambda>w (_, c). (w, c)) m"

text \<open>
  \<open>Run\<close> of a container: the stream whose responses the returned channel delivers. The chunk
  reader is never nil here (the load balancer always makes one).
\<close>

definition wc_Run ::
  "'w worker_rpc \<Rightarrow> string \<times> int \<Rightarrow> script_meta \<Rightarrow> ('w \<times> chunk_reader, nat) proc" where
  "wc_Run rpc addr meta =
     andThen (on_first (rpc_Run rpc addr)) (\<lambda>str.
     andThen (on_first (rpc_RunSend rpc str (ScriptRunMeta meta))) (\<lambda>_.
     andThen (get_state (\<lambda>(w, cr). cr_rest cr)) (\<lambda>rest.
     andThen (send_chunks (rpc_RunSend rpc str) rest) (\<lambda>_.
     andThen (on_first (rpc_CloseSend rpc str)) (\<lambda>_. return str)))))"

section \<open>Resources\<close>

lemma set_worker_simps [simp]:
  "wk (set_worker r f s) = (wk s)(r := f (wk s r))" "wc (set_worker r f s) = wc s"
  "next_wk (set_worker r f s) = next_wk s" "next_wc (set_worker r f s) = next_wc s"
  by (simp_all add: set_worker_def)

lemma set_container_simps [simp]:
  "wc (set_container c g s) = (wc s)(c := g (wc s c))" "wk (set_container c g s) = wk s"
  "next_wk (set_container c g s) = next_wk s" "next_wc (set_container c g s) = next_wc s"
  by (simp_all add: set_container_def)

lemma add_metric_CPU_simps [simp]:
  "wk (add_metric_CPU d s) = wk s" "wc (add_metric_CPU d s) = wc s"
  "next_wk (add_metric_CPU d s) = next_wk s" "next_wc (add_metric_CPU d s) = next_wc s"
  by (simp_all add: add_metric_CPU_def)

text \<open>A heartbeat does not reach the memory the choice of a worker looks at.\<close>

lemma Heartbeat_keeps_free: "FreeMemory (w_Heartbeat r mem s) q = FreeMemory s q"
  by (simp add: FreeMemory_def w_Heartbeat_def)

text \<open>A sum over the containers, after one of them changed.\<close>

lemma sum_upd:
  fixes g :: "'k \<Rightarrow> 'b :: ab_group_add"
  assumes "c < (n :: nat)"
  shows "(\<Sum>i<n. g ((f(c := v)) i)) = (\<Sum>i<n. g (f i)) - g (f c) + g v"
proof -
  have "(\<Sum>i\<in>{..<n} - {c}. g ((f(c := v)) i)) = (\<Sum>i\<in>{..<n} - {c}. g (f i))"
    by (rule sum.cong) auto
  moreover have "(\<Sum>i<n. g ((f(c := v)) i)) = g ((f(c := v)) c) + (\<Sum>i\<in>{..<n} - {c}. g ((f(c := v)) i))"
    by (rule sum.remove) (use assms in auto)
  moreover have "(\<Sum>i<n. g (f i)) = g (f c) + (\<Sum>i\<in>{..<n} - {c}. g (f i))"
    by (rule sum.remove) (use assms in auto)
  ultimately show ?thesis by simp
qed

text \<open>
  What the containers of a worker hold of it: its CPU, once for every container with a
  connection, and the calls in progress.
\<close>

definition cpu_of :: "nat \<Rightarrow> worker_container \<Rightarrow> i32" where
  "cpu_of r k = (if wc_Worker k = r \<and> wc_conns k \<noteq> 0 then wc_mCPU k else 0)"

definition calls_of :: "nat \<Rightarrow> worker_container \<Rightarrow> int" where
  "calls_of r k = (if wc_Worker k = r then int (unat (wc_conns k)) else 0)"

definition cpu_held :: "'z lb_heap_scheme \<Rightarrow> nat \<Rightarrow> i32" where
  "cpu_held s r = (\<Sum>c<next_wc s. cpu_of r (wc s c))"

definition calls_held :: "'z lb_heap_scheme \<Rightarrow> nat \<Rightarrow> int" where
  "calls_held s r = (\<Sum>c<next_wc s. calls_of r (wc s c))"

definition resources_ok :: "'z lb_heap_scheme \<Rightarrow> bool" where
  "resources_ok s \<longleftrightarrow> (\<forall>r. w_waitGroup (wk s r) = calls_held s r \<or> next_wk s \<le> r) \<and>
     (\<forall>r<next_wk s. w_alive (wk s r) \<longrightarrow> w_freeCPU (wk s r) = w_mCPU (wk s r) - cpu_held s r) \<and>
     (\<forall>c<next_wc s. wc_Worker (wc s c) < next_wk s)"

text \<open>
  The steps that touch resources. A container has fewer than 2^32 - 1 connections, and only a
  reserved one is released (the deferred calls of the server).
\<close>

inductive res_step :: "lb_heap \<Rightarrow> lb_heap \<Rightarrow> bool" where
  register: "NewWorker ok wid addr m dm mem s = Returns (r, s') \<Longrightarrow> res_step s s'"
| container: "r < next_wk s \<Longrightarrow> w_NewContainer r async mcpu s = (c, s') \<Longrightarrow> res_step s s'"
| reserve: "c < next_wc s \<Longrightarrow> wc_conns (wc s c) \<noteq> - 1 \<Longrightarrow> wc_Reserve c s = (n, s') \<Longrightarrow> res_step s s'"
| release: "c < next_wc s \<Longrightarrow> wc_conns (wc s c) \<noteq> 0 \<Longrightarrow> res_step s (wc_Release c s)"
| shutdown: "r < next_wk s \<Longrightarrow> w_Shutdown r s = (ds, s') \<Longrightarrow> res_step s s'"
| heartbeat: "res_step s (w_Heartbeat r mem s)"

inductive_cases res_stepE: "res_step s s'"

lemma held_set_worker [simp]:
  "cpu_held (set_worker r f s) q = cpu_held s q" "calls_held (set_worker r f s) q = calls_held s q"
  "cpu_held (add_metric_CPU d s) q = cpu_held s q" "calls_held (add_metric_CPU d s) q = calls_held s q"
  by (simp_all add: cpu_held_def calls_held_def)

lemma held_set_container:
  assumes "c < next_wc s"
  shows "cpu_held (set_container c f s) q = cpu_held s q - cpu_of q (wc s c) + cpu_of q (f (wc s c))"
    and "calls_held (set_container c f s) q = calls_held s q - calls_of q (wc s c) + calls_of q (f (wc s c))"
  using assms by (simp_all add: cpu_held_def calls_held_def sum_upd del: fun_upd_apply)

lemma held_new_container:
  "cpu_held (s\<lparr>wc := (wc s)(next_wc s := k), next_wc := Suc (next_wc s)\<rparr>) q = cpu_held s q + cpu_of q k"
  "calls_held (s\<lparr>wc := (wc s)(next_wc s := k), next_wc := Suc (next_wc s)\<rparr>) q = calls_held s q + calls_of q k"
proof -
  have "(\<Sum>c<next_wc s. g (((wc s)(next_wc s := k)) c)) = (\<Sum>c<next_wc s. g (wc s c))"
    for g :: "worker_container \<Rightarrow> 'b :: comm_monoid_add" by (rule sum.cong) auto
  then show "cpu_held (s\<lparr>wc := (wc s)(next_wc s := k), next_wc := Suc (next_wc s)\<rparr>) q = cpu_held s q + cpu_of q k"
    "calls_held (s\<lparr>wc := (wc s)(next_wc s := k), next_wc := Suc (next_wc s)\<rparr>) q = calls_held s q + calls_of q k"
    by (simp_all add: cpu_held_def calls_held_def del: fun_upd_apply) simp_all
qed

lemma unat_inc: "(x :: u32) \<noteq> - 1 \<Longrightarrow> unat (x + 1) = unat x + 1 \<and> x + 1 \<noteq> 0"
proof -
  assume "x \<noteq> - 1"
  then have "1 + x \<noteq> 0" by (metis add.inverse_inverse add_eq_0_iff)
  then show ?thesis using unatSuc [of x] by (simp add: add.commute)
qed

text \<open>The two possible ends of a reservation.\<close>

lemma wc_Reserve_cases:
  assumes "wc_Reserve c s = (n, s')"
  obtains (refused) "n = - 1" "s' = set_container c (\<lambda>k. k\<lparr>wc_conns := wc_conns k + 1 - 1\<rparr>) s"
    | (more) "n = uint (wc_conns (wc s c) + 1)" "1 < wc_conns (wc s c) + 1" "w_alive (wk s (wc_Worker (wc s c)))"
        "s' = set_worker (wc_Worker (wc s c)) (\<lambda>w. w\<lparr>w_waitGroup := w_waitGroup w + 1\<rparr>)
           (set_container c (\<lambda>k. k\<lparr>wc_conns := wc_conns k + 1\<rparr>) s)"
    | (first) "n = uint (wc_conns (wc s c) + 1)" "\<not> 1 < wc_conns (wc s c) + 1" "w_alive (wk s (wc_Worker (wc s c)))"
        "s' = add_metric_CPU (- ucast (wc_mCPU (wc s c))) (set_worker (wc_Worker (wc s c))
           (\<lambda>w. w\<lparr>w_freeCPU := w_freeCPU w - wc_mCPU (wc s c), w_waitGroup := w_waitGroup w + 1\<rparr>)
           (set_container c (\<lambda>k. k\<lparr>wc_conns := wc_conns k + 1\<rparr>) s))"
proof -
  have undo: "set_container c (\<lambda>k. k\<lparr>wc_conns := wc_conns k - 1\<rparr>) (set_container c (\<lambda>k. k\<lparr>wc_conns := wc_conns k + 1\<rparr>) s) =
      set_container c (\<lambda>k. k\<lparr>wc_conns := wc_conns k + 1 - 1\<rparr>) s"
    by (simp add: set_container_def)
  show thesis
    using assms that undo
    by (auto simp: wc_Reserve_def w_reserve_def Let_def Alive_def split: if_splits)
qed

lemma resources_ok_unfold:
  "resources_ok s \<longleftrightarrow> (\<forall>r<next_wk s. w_waitGroup (wk s r) = calls_held s r) \<and>
     (\<forall>r<next_wk s. w_alive (wk s r) \<longrightarrow> w_freeCPU (wk s r) = w_mCPU (wk s r) - cpu_held s r) \<and>
     (\<forall>c<next_wc s. wc_Worker (wc s c) < next_wk s)"
  by (auto simp: resources_ok_def not_le)

lemma resources_ok_reserve:
  assumes ok: "resources_ok s" and c: "c < next_wc s" and conns: "wc_conns (wc s c) \<noteq> - 1"
    and run: "wc_Reserve c s = (n, s')"
  shows "resources_ok s'"
  using run
proof (cases rule: wc_Reserve_cases)
  case refused
  then have "s' = s" by (simp add: set_container_def)
  with ok show ?thesis by simp
next
  case more
  note inc = unat_inc [OF conns]
  have nz: "wc_conns (wc s c) \<noteq> 0" using more(2) by auto
  show ?thesis
    using ok more(4) inc nz c unfolding resources_ok_unfold
    by (auto simp: held_set_container cpu_of_def calls_of_def)
next
  case first
  note inc = unat_inc [OF conns]
  have z: "wc_conns (wc s c) = 0"
  proof (rule ccontr)
    assume "wc_conns (wc s c) \<noteq> 0"
    then have "0 < unat (wc_conns (wc s c))" by (simp add: unat_gt_0)
    with inc first(2) show False by (simp add: word_less_nat_alt)
  qed
  show ?thesis
    using ok first(4) inc z c unfolding resources_ok_unfold
    by (auto simp: held_set_container cpu_of_def calls_of_def)
qed

lemma resources_ok_release:
  assumes ok: "resources_ok s" and c: "c < next_wc s" and conns: "wc_conns (wc s c) \<noteq> 0"
  shows "resources_ok (wc_Release c s)"
proof -
  have dec: "int (unat (wc_conns (wc s c) - 1)) = int (unat (wc_conns (wc s c))) - 1"
    using unat_minus_one [OF conns] conns unat_gt_0 [of "wc_conns (wc s c)"] by linarith
  show ?thesis
    using ok c conns dec unfolding resources_ok_unfold
    by (auto simp: wc_Release_def w_release_def Let_def held_set_container cpu_of_def calls_of_def)
qed

lemma resources_ok_step:
  assumes "res_step s s'" "resources_ok s"
  shows "resources_ok s'"
  using assms
proof cases
  case (register ok wid addr m dm mem r)
  then have r: "r = next_wk s" and s': "s' = add_metric_CPU (ucast m) (s\<lparr>wk := (wk s)(r := \<lparr>w_ID = wid,
      w_Addr = addr, w_waitGroup = 0, w_mCPU = m, w_defaultMCPU = dm, w_memory = 0, w_freeCPU = m,
      w_freeMemory = mem, w_alive = True, w_scriptsRefCounter = [], w_scripts = [], w_containers = [],
      w_errorCount = 0\<rparr>), next_wk := r + 1\<rparr>)"
    by (auto simp: NewWorker_def Let_def split: if_splits)
  have none: "wc_Worker (wc s c) \<noteq> r" if "c < next_wc s" for c
    using assms(2) that r unfolding resources_ok_unfold by auto
  then have "cpu_held s r = 0" "calls_held s r = 0"
    by (simp_all add: cpu_held_def calls_held_def cpu_of_def calls_of_def)
  with assms(2) r show ?thesis
    unfolding resources_ok_unfold s'
    by (auto simp: cpu_held_def calls_held_def less_Suc_eq)
next
  case (container r async mcpu c)
  then show ?thesis
    using assms(2) unfolding resources_ok_unfold
    by (auto simp: w_NewContainer_def Let_def held_new_container less_Suc_eq) (simp_all add: cpu_of_def calls_of_def)
next
  case (reserve c n)
  with assms(2) resources_ok_reserve show ?thesis by blast
next
  case (release c)
  with assms(2) resources_ok_release show ?thesis by blast
next
  case (shutdown r ds)
  with assms(2) show ?thesis unfolding resources_ok_unfold by (auto simp: w_Shutdown_def)
next
  case (heartbeat r mem)
  with assms(2) show ?thesis unfolding resources_ok_unfold by (auto simp: w_Heartbeat_def)
qed

lemma res_steps_ok:
  assumes "res_step\<^sup>*\<^sup>* s s'" "resources_ok s"
  shows "resources_ok s'"
  using assms by induction (auto intro: resources_ok_step)

section \<open>Sending a directory\<close>

text \<open>A sound file, read with the buffer of 2 MiB.\<close>

definition file_visit :: "string \<times> bytes \<Rightarrow> walk_visit" where
  "file_visit = (\<lambda>(name, content). WalkFile
     \<lparr>fe_name = name, fe_open = None, fe_reads = pieces 2097152 content, fe_end = EEOF\<rparr>)"

lemma send_reads_log:
  assumes "\<And>str m w. rpc_UploadSend rpc str m w = (Inr (), w @ [m])"
  shows "send_reads rpc str name ds w = Returns (Inr (), w @ map (UploadChunk name) ds)"
proof (induction ds arbitrary: w)
  case (Cons d ds)
  then show ?case by (simp add: proc_eval on_world_def lift_eff_def assms)
qed (simp add: proc_eval)

lemma send_walk_log:
  assumes "\<And>str m w. rpc_UploadSend rpc str m w = (Inr (), w @ [m])"
    and "filter (\<lambda>v. v \<noteq> WalkDir) visits = map file_visit files"
  shows "send_walk rpc str visits w = Returns (Inr (), w @ concat (map (file_messages 2097152) files))"
  using assms(2)
proof (induction visits arbitrary: files w)
  case (Cons v vs)
  show ?case
  proof (cases "v = WalkDir")
    case True
    with Cons show ?thesis by simp
  next
    case False
    with Cons.prems obtain f fs where fs: "files = f # fs" "v = file_visit f"
      "filter (\<lambda>v. v \<noteq> WalkDir) vs = map file_visit fs" by (cases files) auto
    obtain name content where f: "f = (name, content)" by force
    show ?thesis
      using Cons.IH [OF fs(3)] send_reads_log [of rpc, OF assms(1)]
      by (simp add: fs(1,2) f file_visit_def send_file_def proc_eval file_messages_def)
  qed
qed (simp add: proc_eval)

text \<open>The messages of a directory are the session of its files.\<close>

lemma uploadDir_session:
  assumes "\<And>str m w. rpc_UploadSend rpc str m w = (Inr (), w @ [m])"
    and "\<And>str w. rpc_UploadRecv rpc str w = (Inr True, w)"
    and "filter (\<lambda>v. v \<noteq> WalkDir) visits = map file_visit files"
  shows "uploadDir rpc str key visits w = Returns (Inr (), w @ session 2097152 key files)"
  using send_walk_log [of rpc, OF assms(1,3)]
  by (simp add: uploadDir_def proc_eval on_world_def lift_eff_def assms(1,2) session_def)

text \<open>
  A file whose reads end with any other error makes the sender send empty chunks for ever,
  as long as the worker takes them.
\<close>

lemma send_empty_Some:
  assumes "send_empty_for_ever rpc str name w = Some r"
  shows "\<exists>w. rpc_UploadSend rpc str (UploadChunk name []) w \<noteq> (Inr (), w)"
proof (rule send_empty_for_ever.raw_induct [OF _ assms, where P =
      "\<lambda>rpc str name w r. \<exists>w. rpc_UploadSend rpc str (UploadChunk name []) w \<noteq> (Inr (), w)"])
  fix f rpc str name w r
  assume IH: "\<And>rpc str name w r. f rpc str name w = Some r \<Longrightarrow>
      \<exists>w. rpc_UploadSend rpc str (UploadChunk name []) w \<noteq> (Inr (), w)"
    and step: "(case rpc_UploadSend rpc str (UploadChunk name []) w of
        (Inl e, w1) \<Rightarrow> Some (Inl e, w1) | (Inr _, w1) \<Rightarrow> f rpc str name w1) = Some r"
  show "\<exists>w. rpc_UploadSend rpc str (UploadChunk name []) w \<noteq> (Inr (), w)"
  proof (cases "rpc_UploadSend rpc str (UploadChunk name []) w = (Inr (), w)")
    case True
    with step have "f rpc str name w = Some r" by simp
    then show ?thesis by (rule IH)
  qed blast
qed

lemma send_empty_diverges:
  assumes "\<And>w. rpc_UploadSend rpc str (UploadChunk name []) w = (Inr (), w)"
  shows "send_empty_for_ever rpc str name w = None"
proof (rule ccontr)
  assume "send_empty_for_ever rpc str name w \<noteq> None"
  then obtain r where "send_empty_for_ever rpc str name w = Some r" by auto
  from send_empty_Some [OF this] assms show False by simp
qed

lemma uploadDir_read_error_hangs:
  assumes "\<And>str m w. rpc_UploadSend rpc str m w = (Inr (), w)"
    and "\<And>str w. rpc_UploadRecv rpc str w = (Inr True, w)"
    and "e \<noteq> EEOF"
  shows "uploadDir rpc str key
    (WalkFile \<lparr>fe_name = name, fe_open = None, fe_reads = [], fe_end = e\<rparr> # visits) w = Blocks"
  using assms send_empty_diverges [of rpc str name w]
  by (simp add: uploadDir_def proc_eval on_world_def lift_eff_def send_file_def)

section \<open>Property\<close>

text \<open>
  C3: the CPU of a worker is conserved. After any registrations, reservations (granted or
  refused), releases, heartbeats and shutdowns, the free CPU of a live worker is its CPU less
  that of each of its containers with at least one connection, once per container, and its
  wait group counts the connections; so an idle worker has all of its CPU back.
\<close>

theorem lb_cpu_conserved:
  assumes "res_step\<^sup>*\<^sup>* s0 s" "next_wk s0 = 0" "next_wc s0 = 0" "r < next_wk s"
  shows "w_waitGroup (wk s r) = (\<Sum>c<next_wc s. if wc_Worker (wc s c) = r then int (unat (wc_conns (wc s c))) else 0) \<and>
    (w_alive (wk s r) \<longrightarrow> w_freeCPU (wk s r) = w_mCPU (wk s r) -
       (\<Sum>c<next_wc s. if wc_Worker (wc s c) = r \<and> wc_conns (wc s c) \<noteq> 0 then wc_mCPU (wc s c) else 0)) \<and>
    (w_alive (wk s r) \<and> (\<forall>c<next_wc s. wc_Worker (wc s c) = r \<longrightarrow> wc_conns (wc s c) = 0) \<longrightarrow>
       w_freeCPU (wk s r) = w_mCPU (wk s r))"
proof -
  have "resources_ok s0" using assms(2,3) by (simp add: resources_ok_def)
  from res_steps_ok [OF assms(1) this] have ok: "resources_ok s" .
  have "cpu_held s r = 0" if "\<forall>c<next_wc s. wc_Worker (wc s c) = r \<longrightarrow> wc_conns (wc s c) = 0"
    unfolding cpu_held_def by (rule sum.neutral) (use that in \<open>auto simp: cpu_of_def\<close>)
  moreover have "calls_held s r = (\<Sum>c<next_wc s. if wc_Worker (wc s c) = r then int (unat (wc_conns (wc s c))) else 0)"
    "cpu_held s r = (\<Sum>c<next_wc s. if wc_Worker (wc s c) = r \<and> wc_conns (wc s c) \<noteq> 0 then wc_mCPU (wc s c) else 0)"
    by (simp_all add: calls_held_def calls_of_def cpu_held_def cpu_of_def)
  ultimately show ?thesis
    using ok assms(4) unfolding resources_ok_unfold by simp
qed

definition toy_heap :: lb_heap where
  "toy_heap = \<lparr>wk = \<lambda>_. undefined, wc = \<lambda>_. undefined, next_wk = 0, next_wc = 0, metric_CPU = 0,
     metric_Count = 0\<rparr>"

text \<open>A worker with 1000 mCPU and a container of 125, reserved twice.\<close>

definition toy_heap1 :: lb_heap where
  "toy_heap1 = (case NewWorker True ''w'' (''10.0.0.1'', 80) 1000 125 0 toy_heap of
     Returns (r, s) \<Rightarrow> s | _ \<Rightarrow> toy_heap)"

definition toy_heap2 :: lb_heap where
  "toy_heap2 = snd (wc_Reserve 0 (snd (wc_Reserve 0 (snd (w_NewContainer 0 1 0 toy_heap1)))))"

lemma toy_heap_steps: "res_step\<^sup>*\<^sup>* toy_heap toy_heap2"
proof -
  let ?a = "snd (w_NewContainer 0 1 0 toy_heap1)"
  let ?b = "snd (wc_Reserve 0 ?a)"
  have 1: "res_step toy_heap toy_heap1"
    by (rule res_step.register [where r = 0 and ok = True and wid = "''w''" and addr = "(''10.0.0.1'', 80)"
          and m = 1000 and dm = 125 and mem = 0]) (simp add: toy_heap1_def NewWorker_def toy_heap_def)
  have 2: "res_step toy_heap1 ?a"
    by (rule res_step.container [where c = 0 and r = 0 and async = 1 and mcpu = 0]) (simp_all add: toy_heap1_def NewWorker_def toy_heap_def
        w_NewContainer_def)
  have 3: "res_step ?a ?b"
    by (rule res_step.reserve [where c = 0 and n = "fst (wc_Reserve 0 ?a)"])
      (simp_all add: toy_heap1_def NewWorker_def toy_heap_def w_NewContainer_def)
  have 4: "res_step ?b toy_heap2"
    by (rule res_step.reserve [where c = 0 and n = "fst (wc_Reserve 0 ?b)"])
      (simp_all add: toy_heap2_def toy_heap1_def NewWorker_def toy_heap_def w_NewContainer_def
        wc_Reserve_def w_reserve_def Let_def Alive_def FreeCPU_def)
  from 1 2 3 4 show ?thesis by (meson converse_rtranclp_into_rtranclp rtranclp.rtrancl_refl)
qed

theorem lb_cpu_conserved_witness:
  "w_waitGroup (wk toy_heap2 0) = (\<Sum>c<next_wc toy_heap2.
     if wc_Worker (wc toy_heap2 c) = 0 then int (unat (wc_conns (wc toy_heap2 c))) else 0) \<and>
   w_waitGroup (wk toy_heap2 0) = 2 \<and> w_freeCPU (wk toy_heap2 0) = 875"
proof (rule conjI)
  have "0 < next_wk toy_heap2"
    by (simp add: toy_heap2_def toy_heap1_def NewWorker_def toy_heap_def w_NewContainer_def
        wc_Reserve_def w_reserve_def Let_def Alive_def FreeCPU_def)
  from lb_cpu_conserved [OF toy_heap_steps _ _ this]
  show "w_waitGroup (wk toy_heap2 0) = (\<Sum>c<next_wc toy_heap2.
     if wc_Worker (wc toy_heap2 c) = 0 then int (unat (wc_conns (wc toy_heap2 c))) else 0)"
    by (simp add: toy_heap_def)
  show "w_waitGroup (wk toy_heap2 0) = 2 \<and> w_freeCPU (wk toy_heap2 0) = 875"
    by (simp add: toy_heap2_def toy_heap1_def NewWorker_def toy_heap_def w_NewContainer_def
        wc_Reserve_def w_reserve_def Let_def Alive_def FreeCPU_def)
qed

end
