(* ===== verification/Lb_Server.thy ===== *)
theory Lb_Server
  imports Lb_Worker
begin

text \<open>
  The load balancer (app/lb/server.go): the cache of workers, the two maps that find a
  container for a script, the choice of a container, and a run with its retries. The cache
  of workers is an LRU cache with \<open>Set\<close> and \<open>Reduce\<close>; its handler for evicted workers is
  called for what an operation evicts.
\<close>

section \<open>State\<close>

record 'c workers_cache = "('c, nat) lru_cache" +
  lc_Set :: "string \<Rightarrow> nat \<Rightarrow> 'c \<Rightarrow> (string \<times> nat) list \<times> 'c"
  lc_Items :: "'c \<Rightarrow> (string \<times> nat) list"

record lb_options =
  WorkerRetry :: int
  WorkerKeepalive :: int
  WorkerMinReady :: int
  WorkerErrorThreshold :: nat
  DefaultScriptMcpu :: u64

definition DefaultLbOptions :: lb_options where
  "DefaultLbOptions = \<lparr>WorkerRetry = 3, WorkerKeepalive = 30 * 10 ^ 9, WorkerMinReady = 1,
     WorkerErrorThreshold = 2, DefaultScriptMcpu = 125\<rparr>"

text \<open>
  \<open>lb_cached\<close>: script hash to container ID to container. \<open>lb_index\<close>: index hash to worker ID
  to the number of its containers.
\<close>

record 'c lb_server = lb_heap +
  lb_workers :: 'c
  lb_cached :: "(string, (string, nat) gomap) gomap"
  lb_index :: "(string, (string, int) gomap) gomap"
  lb_options :: lb_options

definition NewServer ::
  "(lb_options \<Rightarrow> lb_options \<Rightarrow> lb_options) \<Rightarrow> lb_options option \<Rightarrow> 'c \<Rightarrow> lb_heap \<Rightarrow> 'c lb_server" where
  "NewServer merge opts empty_cache heap = lb_heap.extend heap
     \<lparr>lb_workers = empty_cache, lb_cached = [], lb_index = [],
      lb_options = (case opts of None \<Rightarrow> DefaultLbOptions | Some o' \<Rightarrow> merge DefaultLbOptions o')\<rparr>"

section \<open>The maps\<close>

definition addCache :: "hasher \<Rightarrow> nat \<Rightarrow> script_def \<Rightarrow> 'c lb_server \<Rightarrow> 'c lb_server" where
  "addCache h cont d s =
     (let idx = Index_Hash h (Index d); defHash = Definition_Hash h d;
          r = wc_Worker (wc s cont); wid = w_ID (wk s r);
          s1 = AddCache h r d cont s
      in s1\<lparr>lb_cached := nested_put defHash (wc_ID (wc s cont)) cont (lb_cached s1),
            lb_index := nested_put idx wid
              ((case nested_get (lb_index s1) idx wid of None \<Rightarrow> 0 | Some n \<Rightarrow> n) + 1) (lb_index s1)\<rparr>)"

definition removeCache ::
  "hasher \<Rightarrow> nat \<Rightarrow> script_def \<Rightarrow> string \<Rightarrow> 'c lb_server \<Rightarrow> bool \<times> 'c lb_server" where
  "removeCache h r d contID s =
     (let idx = Index_Hash h (Index d); defHash = Definition_Hash h d;
          wid = w_ID (wk s r);
          s1 = snd (RemoveCache h r d contID s);
          removedContainer = (nested_get (lb_cached s1) defHash contID \<noteq> None);
          removedIdx = (nested_get (lb_index s1) idx wid \<noteq> None)
      in (removedContainer \<and> removedIdx,
          s1\<lparr>lb_cached := nested_del defHash contID (lb_cached s1),
             lb_index := (case nested_get (lb_index s1) idx wid of
                None \<Rightarrow> lb_index s1
              | Some v \<Rightarrow> if v \<le> 1 then nested_del idx wid (lb_index s1)
                          else nested_put idx wid (v - 1) (lb_index s1))\<rparr>))"

text \<open>One definition of an evicted worker: its containers and its index entry are dropped.\<close>

definition forget_def :: "hasher \<Rightarrow> nat \<Rightarrow> script_def \<Rightarrow> 'c lb_server \<Rightarrow> 'c lb_server" where
  "forget_def h r d s =
     (let idx = Index_Hash h (Index d); defHash = Definition_Hash h d
      in s\<lparr>lb_cached := (case map_of (lb_cached s) defHash of
               None \<Rightarrow> lb_cached s
             | Some m \<Rightarrow> nested_set defHash (filter (\<lambda>(i, c). wc_Worker (wc s c) \<noteq> r) m) (lb_cached s)),
           lb_index := nested_del idx (w_ID (wk s r)) (lb_index s)\<rparr>)"

definition onEvictedWorkerHandler :: "hasher \<Rightarrow> string \<times> nat \<Rightarrow> 'c lb_server \<Rightarrow> 'c lb_server" where
  "onEvictedWorkerHandler h = (\<lambda>(key, r) s.
     let s1 = s\<lparr>metric_Count := metric_Count s - 1\<rparr>;
         (defs, s2) = w_Shutdown r s1
     in fold (forget_def h r) defs s2)"

text \<open>An operation of the cache of workers, with the handler for what it evicts.\<close>

definition workers_op ::
  "hasher \<Rightarrow> ('c \<Rightarrow> 'a \<times> (string \<times> nat) list \<times> 'c) \<Rightarrow> 'c lb_server \<Rightarrow> 'a \<times> 'c lb_server" where
  "workers_op h f s =
     (case f (lb_workers s) of (x, ev, c') \<Rightarrow> (x, fold (onEvictedWorkerHandler h) ev (s\<lparr>lb_workers := c'\<rparr>)))"

definition workers_Get :: "'c workers_cache \<Rightarrow> string \<Rightarrow> 'c lb_server \<Rightarrow> nat option \<times> 'c lb_server" where
  "workers_Get lc wid s = (case lc_Get lc wid (lb_workers s) of (r, c') \<Rightarrow> (r, s\<lparr>lb_workers := c'\<rparr>))"

section \<open>The choice of a container\<close>

text \<open>The function given to \<open>Reduce\<close>, with the two variables it closes over.\<close>

definition reduce_max ::
  "'c lb_server \<Rightarrow> string \<times> nat \<Rightarrow> nat option \<times> int \<times> u64 \<Rightarrow> nat option \<times> int \<times> u64" where
  "reduce_max s = (\<lambda>(key, w) (chosen, mCPU, mem).
     if chosen = None \<or> mCPU < FreeCPU s w \<or> (mCPU = FreeCPU s w \<and> mem < FreeMemory s w)
     then (Some w, FreeCPU s w, FreeMemory s w) else (chosen, mCPU, mem))"

definition findWorkerWithMaxFreeCPU :: "'c workers_cache \<Rightarrow> 'c lb_server \<Rightarrow> nat option" where
  "findWorkerWithMaxFreeCPU lc s = fst (fold (reduce_max s) (lc_Items lc (lb_workers s)) (None, 0, 0))"

text \<open>
  The search among the cached containers of a script. In the condition of the source,
  \<open>A && B || C\<close>, the test that the worker is known belongs to the first case only.
\<close>

fun pick_cached ::
  "'c workers_cache \<Rightarrow> script_def \<Rightarrow> string list \<Rightarrow> (string \<times> nat) list
   \<Rightarrow> 'c lb_server \<times> nat option \<times> bool \<times> int \<Rightarrow> 'c lb_server \<times> nat option \<times> bool \<times> int" where
  "pick_cached lc d blacklist [] st = st"
| "pick_cached lc d blacklist ((i, c) # m) (s, container, fromCache, freeCPU) =
     (let cpu = FreeCPU s (wc_Worker (wc s c)) in
      if wc_ID (wc s c) \<in> set blacklist then pick_cached lc d blacklist m (s, container, fromCache, freeCPU)
      else (case workers_Get lc (w_ID (wk s (wc_Worker (wc s c)))) s of (known, s1) \<Rightarrow>
        if (known \<noteq> None \<and> (Async d \<le> 1 \<and> freeCPU < cpu)) \<or> (1 < Async d \<and> Conns s1 c < Async d)
        then pick_cached lc d blacklist m (s1, Some c, True, cpu)
        else pick_cached lc d blacklist m (s1, container, fromCache, freeCPU)))"

text \<open>
  The loop of \<open>grabWorkerContainer\<close>, run under the mutex of the server. \<open>None\<close> is a loop
  that goes on for ever.
\<close>

partial_function (option) grab_loop ::
  "hasher \<Rightarrow> 'c workers_cache \<Rightarrow> script_def \<Rightarrow> string list \<Rightarrow> nat option \<Rightarrow> bool \<Rightarrow> 'c lb_server
   \<Rightarrow> ((nat option \<times> int \<times> bool) \<times> 'c lb_server) option" where
  "grab_loop h lc d blacklist container fromCache s =
     (case pick_cached lc d blacklist
             (case map_of (lb_cached s) (Definition_Hash h d) of None \<Rightarrow> [] | Some m \<Rightarrow> m)
             (s, container, fromCache, 0) of
        (s1, container1, fromCache1, _) \<Rightarrow>
          (case (case container1 of
                   Some c \<Rightarrow> Some (c, fromCache1, s1)
                 | None \<Rightarrow>
                     (case findWorkerWithMaxFreeCPU lc s1 of
                        None \<Rightarrow> None
                      | Some w \<Rightarrow> (case w_NewContainer w (Async d) (MCPU d) s1 of
                                     (c, s2) \<Rightarrow> Some (c, False, s2)))) of
             None \<Rightarrow> Some ((None, 0, fromCache1), s1)
           | Some (c, fromCache2, s2) \<Rightarrow>
               (case wc_Reserve c s2 of
                  (conns, s3) \<Rightarrow>
                    if 0 < conns then Some ((Some c, conns, fromCache2), s3)
                    else if wc_ID (wc s3 c) \<noteq> []
                    then grab_loop h lc d (wc_ID (wc s3 c) # blacklist) None fromCache2 s3
                    else grab_loop h lc d blacklist (Some c) fromCache2 s3)))"

definition grabWorkerContainer ::
  "hasher \<Rightarrow> 'c workers_cache \<Rightarrow> script_def \<Rightarrow> 'c lb_server
   \<Rightarrow> ((nat option \<times> int \<times> bool) \<times> 'c lb_server) outcome" where
  "grabWorkerContainer h lc d s =
     (case grab_loop h lc d [] None False s of None \<Rightarrow> Blocks | Some r \<Rightarrow> Returns r)"

section \<open>Calls of workers\<close>

text \<open>
  The environment of a run: the remote calls, the limiter, the file repository of the load
  balancer (\<open>le_Get\<close>, and the walk over a source), the client's stream, and
  \<open>util.IsCancellation\<close>.
\<close>

record 'w lb_env =
  le_rpc :: "'w worker_rpc"
  le_Lock :: "string \<Rightarrow> int \<Rightarrow> ('w, unit) eff"
  le_Unlock :: "string \<Rightarrow> int \<Rightarrow> 'w \<Rightarrow> 'w"
  le_Get :: "string \<Rightarrow> 'w \<Rightarrow> string \<times> 'w"
  le_Walk :: "string \<Rightarrow> 'w \<Rightarrow> walk_visit list"
  le_Send :: "run_response \<Rightarrow> ('w, unit) eff"
  le_IsCancellation :: "go_error \<Rightarrow> bool"

record ('c, 'w) lb_run =
  lr_srv :: "'c lb_server"
  lr_world :: 'w
  lr_reader :: chunk_reader

definition handleWorkerError ::
  "hasher \<Rightarrow> 'c workers_cache \<Rightarrow> (go_error \<Rightarrow> bool) \<Rightarrow> nat \<Rightarrow> go_error \<Rightarrow> 'c lb_server \<Rightarrow> 'c lb_server" where
  "handleWorkerError h lc is_cancel c err s =
     (if is_cancel err then s
      else let r = wc_Worker (wc s c);
               (n, s1) = IncreaseErrorCount r s
           in if WorkerErrorThreshold (lb_options s) \<le> unat n
              then snd (workers_op h (lc_Delete lc (w_ID (wk s r))) s1) else s1)"

definition lr_world_proc :: "('w, 'a) proc \<Rightarrow> (('c, 'w) lb_run, 'a) proc" where
  "lr_world_proc m = (\<lambda>st. case m (lr_world st) of
     Returns (r, w) \<Rightarrow> Returns (r, st\<lparr>lr_world := w\<rparr>) | Panics \<Rightarrow> Panics | Blocks \<Rightarrow> Blocks)"

definition lr_srv_modify :: "('c lb_server \<Rightarrow> 'c lb_server) \<Rightarrow> (('c, 'w) lb_run, unit) proc" where
  "lr_srv_modify f = modify (\<lambda>st. st\<lparr>lr_srv := f (lr_srv st)\<rparr>)"

definition cont_addr :: "'c lb_server \<Rightarrow> nat \<Rightarrow> string \<times> int" where
  "cont_addr s c = w_Addr (wk s (wc_Worker (wc s c)))"

definition le_path :: "'w lb_env \<Rightarrow> string \<Rightarrow> (('c, 'w) lb_run, string) proc" where
  "le_path env key = lr_world_proc (\<lambda>w. case le_Get env key w of (p, w') \<Rightarrow> Returns (Inr p, w'))"

definition uploadResource :: "'w lb_env \<Rightarrow> nat \<Rightarrow> string \<Rightarrow> (('c, 'w) lb_run, unit) proc" where
  "uploadResource env c key =
     andThen (get_state (\<lambda>st. cont_addr (lr_srv st) c)) (\<lambda>addr.
     andThen (lr_world_proc (on_world (rpc_Exists (le_rpc env) addr key))) (\<lambda>ok.
     if ok then return ()
     else andThen (le_path env key) (\<lambda>path.
          andThen (get_state (\<lambda>st. le_Walk env path (lr_world st))) (\<lambda>visits.
          lr_world_proc (wc_Upload (le_rpc env) addr visits key)))))"

definition run_on_container :: "'w lb_env \<Rightarrow> nat \<Rightarrow> script_meta \<Rightarrow> (('c, 'w) lb_run, nat) proc" where
  "run_on_container env c meta = (\<lambda>st.
     case wc_Run (le_rpc env) (cont_addr (lr_srv st) c) meta (lr_world st, lr_reader st) of
       Returns (r, (w, cr)) \<Rightarrow> Returns (r, st\<lparr>lr_world := w, lr_reader := cr\<rparr>)
     | Panics \<Rightarrow> Panics | Blocks \<Rightarrow> Blocks)"

fun upload_resources :: "'w lb_env \<Rightarrow> nat \<Rightarrow> string list \<Rightarrow> (('c, 'w) lb_run, unit) proc" where
  "upload_resources env c [] = return ()"
| "upload_resources env c (key # keys) =
     andThen (if key \<noteq> [] then uploadResource env c key else return ()) (\<lambda>_. upload_resources env c keys)"

definition processWorkerRun ::
  "'w lb_env \<Rightarrow> nat \<Rightarrow> bool \<Rightarrow> script_meta \<Rightarrow> (('c, 'w) lb_run, nat) proc" where
  "processWorkerRun env c fromCache meta =
     andThen (if fromCache then return ()
              else upload_resources env c [sm_SourceHash meta, sm_Environment meta]) (\<lambda>_.
     run_on_container env c meta)"

text \<open>
  \<open>relayReponse\<close>: the responses of the stream to the client. A nil channel is never closed:
  ranging over it waits for ever. The error a stream ends with is delivered, unless it is
  the end of the stream.
\<close>

fun relay_all ::
  "'w lb_env \<Rightarrow> run_response list \<Rightarrow> run_response option
   \<Rightarrow> (('c, 'w) lb_run, run_response option \<times> go_error option) proc" where
  "relay_all env [] response = return (response, None)"
| "relay_all env (v # vs) response =
     (let response' = (case response of None \<Rightarrow> Some v | Some r \<Rightarrow> Some r)
      in try_catch (lr_world_proc (on_world (le_Send env v)))
           (\<lambda>e. return (response', Some e))
           (\<lambda>_. relay_all env vs response'))"

definition relayReponse ::
  "hasher \<Rightarrow> 'c workers_cache \<Rightarrow> 'w lb_env \<Rightarrow> nat \<Rightarrow> nat option
   \<Rightarrow> (('c, 'w) lb_run, run_response option \<times> go_error option) proc" where
  "relayReponse h lc env c resCh =
     (case resCh of
        None \<Rightarrow> (\<lambda>st. Blocks)
      | Some str \<Rightarrow> (\<lambda>st.
          case rpc_Responses (le_rpc env) str (lr_world st) of
            ((vs, final), w) \<Rightarrow>
              andThen (relay_all env vs None) (\<lambda>(response, err).
                if err \<noteq> None \<or> final = EEOF then return (response, err)
                else andThen (lr_srv_modify (handleWorkerError h lc (le_IsCancellation env) c final))
                       (\<lambda>_. return (response, Some final))) (st\<lparr>lr_world := w\<rparr>)))"

section \<open>A run\<close>

record lb_meta =
  lm_ConcurrencyKey :: string
  lm_ConcurrencyLimit :: int

text \<open>The calls a run has deferred, last first.\<close>

datatype deferred = ReleaseContainer nat | UnlockLimiter string int

fun run_deferred :: "'w lb_env \<Rightarrow> deferred list \<Rightarrow> ('c, 'w) lb_run \<Rightarrow> ('c, 'w) lb_run" where
  "run_deferred env [] st = st"
| "run_deferred env (ReleaseContainer c # ds) st =
     run_deferred env ds (st\<lparr>lr_srv := wc_Release c (lr_srv st)\<rparr>)"
| "run_deferred env (UnlockLimiter key n # ds) st =
     run_deferred env ds (st\<lparr>lr_world := le_Unlock env key n (lr_world st)\<rparr>)"

text \<open>
  The retries. The loop ends with an error of the run, with a stream, or with all attempts
  used up: then the container is that of the last attempt and the channel is nil.
\<close>

datatype attempts_end = RunError go_error | RunStream "nat option" "nat option"

fun run_attempts ::
  "hasher \<Rightarrow> 'c workers_cache \<Rightarrow> 'w lb_env \<Rightarrow> script_def \<Rightarrow> lb_meta \<Rightarrow> script_meta \<Rightarrow> nat
   \<Rightarrow> nat option \<Rightarrow> deferred list \<Rightarrow> ('c, 'w) lb_run
   \<Rightarrow> ((attempts_end \<times> deferred list) \<times> ('c, 'w) lb_run) outcome" where
  "run_attempts h lc env d lbMeta meta 0 last_cont ds st = Returns ((RunStream last_cont None, ds), st)"
| "run_attempts h lc env d lbMeta meta (Suc n) last_cont ds st =
     bind_outcome (grabWorkerContainer h lc d (lr_srv st)) (\<lambda>((cont, conns, fromCache), srv).
       let st1 = st\<lparr>lr_srv := srv\<rparr> in
       case cont of
         None \<Rightarrow> Returns ((RunError ErrNoWorkersAvailable, ds), st1)
       | Some c \<Rightarrow>
           let ds1 = ReleaseContainer c # ds;
               lim = (conns = 1 \<and> 0 < lm_ConcurrencyLimit lbMeta)
           in case (if lim then le_Lock env (lm_ConcurrencyKey lbMeta) (lm_ConcurrencyLimit lbMeta) (lr_world st1)
                    else (Inr (), lr_world st1)) of
                (Inl err, w) \<Rightarrow>
                  Returns ((RunError (EStatus CodeResourceExhausted ''lock''), ds1), st1\<lparr>lr_world := w\<rparr>)
              | (Inr _, w) \<Rightarrow>
                  let ds2 = (if lim then UnlockLimiter (lm_ConcurrencyKey lbMeta) (lm_ConcurrencyLimit lbMeta) # ds1
                             else ds1)
                  in bind_outcome (processWorkerRun env c fromCache meta (st1\<lparr>lr_world := w\<rparr>)) (\<lambda>(r, st2).
                     case r of
                       Inr str \<Rightarrow> Returns ((RunStream (Some c) (Some str), ds2), st2)
                     | Inl err \<Rightarrow>
                         let st3 = st2\<lparr>lr_srv := handleWorkerError h lc (le_IsCancellation env) c err (lr_srv st2)\<rparr>
                         in if IsDirty (lr_reader st3) \<or> le_IsCancellation env err
                            then Returns ((RunError err, ds2), st3)
                            else run_attempts h lc env d lbMeta meta n (Some c) ds2 st3))"

definition finish_run ::
  "hasher \<Rightarrow> script_def \<Rightarrow> nat \<Rightarrow> run_response option \<Rightarrow> 'c lb_server \<Rightarrow> 'c lb_server" where
  "finish_run h d c response s =
     (case response of
        None \<Rightarrow> s
      | Some res \<Rightarrow>
          let s1 = ResetErrorCount (wc_Worker (wc s c)) s
          in if rr_Cached res
             then addCache h c d (set_container c (\<lambda>k. k\<lparr>wc_ID := rr_ContainerId res\<rparr>) s1)
             else s1)"

definition with_deferred ::
  "'w lb_env \<Rightarrow> deferred list \<Rightarrow> 'a \<times> ('c, 'w) lb_run \<Rightarrow> 'a \<times> ('c, 'w) lb_run" where
  "with_deferred env ds = (\<lambda>(r, st). (r, run_deferred env ds st))"

definition le_Exists_source :: "'w lb_env \<Rightarrow> script_meta \<Rightarrow> (('c, 'w) lb_run, bool) proc" where
  "le_Exists_source env meta =
     andThen (le_path env (sm_SourceHash meta)) (\<lambda>src.
     if src = [] then return False
     else if sm_Environment meta = [] then return True
     else andThen (le_path env (sm_Environment meta)) (\<lambda>e. return (e \<noteq> [])))"

definition lb_processRun ::
  "hasher \<Rightarrow> 'c workers_cache \<Rightarrow> 'w lb_env \<Rightarrow> lb_meta \<Rightarrow> script_meta \<Rightarrow> (('c, 'w) lb_run, unit) proc" where
  "lb_processRun h lc env lbMeta meta = (\<lambda>st.
     bind_outcome (CreateDefinitionFromScriptMeta meta) (\<lambda>d.
     andThen (le_Exists_source env meta) (\<lambda>available.
     if \<not> available then throw ErrSourceNotAvailable
     else (\<lambda>st0.
       bind_outcome (run_attempts h lc env d lbMeta meta (nat (WorkerRetry (lb_options (lr_srv st0)))) None [] st0)
         (\<lambda>((res, ds), st1).
          case res of
            RunError e \<Rightarrow> Returns (with_deferred env ds (Inl e, st1))
          | RunStream cont resCh \<Rightarrow>
              bind_outcome (relayReponse h lc env (the cont) resCh st1) (\<lambda>(r, st2).
                case r of
                  Inl e \<Rightarrow> Returns (with_deferred env ds (Inl e, st2))
                | Inr (response, err) \<Rightarrow>
                    Returns (with_deferred env ds
                      (case err of None \<Rightarrow> Inr () | Some e \<Rightarrow> Inl e,
                       st2\<lparr>lr_srv := finish_run h d (the cont) response (lr_srv st2)\<rparr>)))))) st))"

text \<open>
  \<open>Run\<close> of the server: the messages up to both metas (in any order, later ones replace
  earlier ones of the same kind), then the default CPU. What follows them is read by the
  chunk reader.
\<close>

datatype lb_request = LbMeta lb_meta | LbScriptMeta script_meta | LbScriptChunk run_chunk | LbOther

fun lb_read_metas ::
  "lb_request result list \<Rightarrow> lb_meta option \<Rightarrow> script_meta option
   \<Rightarrow> (lb_meta option \<times> script_meta option) result \<times> lb_request result list" where
  "lb_read_metas [] lm sm = (Inr (lm, sm), [])"
| "lb_read_metas (Inl e # ins) lm sm = (Inl e, ins)"
| "lb_read_metas (Inr req # ins) lm sm =
     (let lm' = (case req of LbMeta x \<Rightarrow> Some x | _ \<Rightarrow> lm);
          sm' = (case req of LbScriptMeta x \<Rightarrow> Some x | _ \<Rightarrow> sm)
      in if lm' \<noteq> None \<and> sm' \<noteq> None then (Inr (lm', sm'), ins) else lb_read_metas ins lm' sm')"

fun lb_chunk :: "lb_request result \<Rightarrow> run_chunk result" where
  "lb_chunk (Inl e) = Inl e"
| "lb_chunk (Inr (LbScriptChunk c)) = Inr c"
| "lb_chunk (Inr _) = Inl ErrInvalidArgument"

definition default_mcpu :: "u64 \<Rightarrow> script_meta \<Rightarrow> script_meta" where
  "default_mcpu dflt meta =
     (let opts = sm_GetOptions meta
      in meta\<lparr>sm_Options := Some (if pb_Mcpu opts = 0 then opts\<lparr>pb_Mcpu := ucast dflt\<rparr> else opts)\<rparr>)"

definition lb_Run ::
  "hasher \<Rightarrow> 'c workers_cache \<Rightarrow> 'w lb_env \<Rightarrow> lb_request result list
   \<Rightarrow> ('c lb_server \<times> 'w) \<Rightarrow> (unit result \<times> ('c lb_server \<times> 'w)) outcome" where
  "lb_Run h lc env ins = (\<lambda>(srv, w).
     case lb_read_metas ins None None of
       (Inl e, _) \<Rightarrow> Returns (Inl (if e = EEOF then ErrInvalidArgument else e), (srv, w))
     | (Inr (Some lm, Some sm), rest) \<Rightarrow>
         bind_outcome (lb_processRun h lc env lm (default_mcpu (DefaultScriptMcpu (lb_options srv)) sm)
             \<lparr>lr_srv = srv, lr_world = w, lr_reader = NewChunkReader (map lb_chunk rest)\<rparr>)
           (\<lambda>(r, st). Returns (r, (lr_srv st, lr_world st)))
     | (Inr _, _) \<Rightarrow> Returns (Inl ErrInvalidArgument, (srv, w)))"

section \<open>The calls of a worker\<close>

definition lb_ContainerRemoved ::
  "hasher \<Rightarrow> 'c workers_cache \<Rightarrow> container_removed_request \<Rightarrow> ('c lb_server, unit) proc" where
  "lb_ContainerRemoved h lc req = (\<lambda>s.
     bind_outcome (CreateDefinitionFromContainerRemove req) (\<lambda>d.
       case workers_Get lc (cr_Id req) s of
         (None, s1) \<Rightarrow> Returns (Inl ErrUnknownWorkerID, s1)
       | (Some r, s1) \<Rightarrow> Returns (Inr (), snd (removeCache h r d (cr_ContainerId req) s1))))"

record register_request =
  rg_Id :: string
  rg_Port :: int
  rg_Mcpu :: u32
  rg_DefaultMcpu :: u32
  rg_Memory :: u64

text \<open>\<open>peer\<close> is the IP address of the worker.\<close>

definition lb_Register ::
  "hasher \<Rightarrow> 'c workers_cache \<Rightarrow> bool \<Rightarrow> string \<Rightarrow> register_request \<Rightarrow> ('c lb_server, unit) proc" where
  "lb_Register h lc dial_ok peer req = (\<lambda>s.
     bind_outcome (NewWorker dial_ok (rg_Id req) (peer, rg_Port req) (rg_Mcpu req) (rg_DefaultMcpu req)
         (rg_Memory req) (s\<lparr>metric_Count := metric_Count s + 1\<rparr>)) (\<lambda>(r, s1).
       Returns (Inr (), snd (workers_op h (\<lambda>c. ((), lc_Set lc (rg_Id req) r c)) s1))))"

definition lb_Heartbeat ::
  "'c workers_cache \<Rightarrow> string \<Rightarrow> u64 \<Rightarrow> ('c lb_server, unit) proc" where
  "lb_Heartbeat lc wid mem = (\<lambda>s.
     case workers_Get lc wid s of
       (None, s1) \<Rightarrow> Returns (Inl ErrUnknownWorkerID, s1)
     | (Some r, s1) \<Rightarrow> Returns (Inr (), w_Heartbeat r mem s1))"

definition lb_Disconnect :: "hasher \<Rightarrow> 'c workers_cache \<Rightarrow> string \<Rightarrow> ('c lb_server, unit) proc" where
  "lb_Disconnect h lc wid = (\<lambda>s. Returns (Inr (), snd (workers_op h (lc_Delete lc wid) s)))"

text \<open>
  \<open>Delete\<close>: every worker with containers of the script is asked, in the order the inner map
  is visited; the error of the last one that failed is returned with what was deleted.
\<close>

fun delete_on_workers ::
  "'c workers_cache \<Rightarrow> 'w worker_rpc \<Rightarrow> string \<times> string \<times> string \<times> string \<Rightarrow> (string \<times> int) list
   \<Rightarrow> string list \<times> go_error option \<Rightarrow> 'c lb_server \<times> 'w \<Rightarrow> (string list \<times> go_error option) \<times> ('c lb_server \<times> 'w)" where
  "delete_on_workers lc rpc req [] acc st = (acc, st)"
| "delete_on_workers lc rpc req ((wid, n) # m) (ids, err) (s, w) =
     (case workers_Get lc wid s of
        (None, s1) \<Rightarrow> delete_on_workers lc rpc req m (ids, err) (s1, w)
      | (Some r, s1) \<Rightarrow>
          (case rpc_Delete rpc (w_Addr (wk s1 r)) req w of
             (Inl e, w1) \<Rightarrow> delete_on_workers lc rpc req m (ids, Some e) (s1, w1)
           | (Inr ids', w1) \<Rightarrow> delete_on_workers lc rpc req m (ids @ ids', err) (s1, w1)))"

definition lb_Delete ::
  "hasher \<Rightarrow> 'c workers_cache \<Rightarrow> 'w worker_rpc \<Rightarrow> string \<times> string \<times> string \<times> string
   \<Rightarrow> 'c lb_server \<times> 'w \<Rightarrow> (string list \<times> go_error option) \<times> ('c lb_server \<times> 'w)" where
  "lb_Delete h lc rpc req st =
     (case req of (runtime, sourceHash, userID, contID) \<Rightarrow>
        let idx = \<lparr>Runtime = runtime, SourceHash = sourceHash, UserID = userID\<rparr>
        in case map_of (lb_index (fst st)) (Index_Hash h idx) of
             None \<Rightarrow> (([], None), st)
           | Some m \<Rightarrow> delete_on_workers lc rpc req m ([], None) st)"

definition lb_Shutdown :: "'c lb_server \<Rightarrow> 'c lb_server" where
  "lb_Shutdown s = s\<lparr>metric_Count := 0\<rparr>"

definition lb_ReadyHandler :: "'c lb_server \<Rightarrow> int" where
  "lb_ReadyHandler s = (if WorkerMinReady (lb_options s) \<le> sint (metric_Count s) then 200 else 400)"

section \<open>The worker with the most free CPU\<close>

text \<open>The order of the choice: free CPU first, then free memory.\<close>

definition freer :: "'c lb_server \<Rightarrow> nat \<Rightarrow> nat \<Rightarrow> bool" where
  "freer s w v \<longleftrightarrow> FreeCPU s v < FreeCPU s w \<or> (FreeCPU s v = FreeCPU s w \<and> FreeMemory s v \<le> FreeMemory s w)"

lemma freer_refl [simp]: "freer s w w"
  by (simp add: freer_def)

lemma freer_trans: "freer s u v \<Longrightarrow> freer s v w \<Longrightarrow> freer s u w"
  by (auto simp: freer_def)

lemma freer_total: "freer s u v \<or> freer s v u"
  by (auto simp: freer_def)

lemma fold_reduce_max:
  "\<exists>w'. fold (reduce_max s) items (Some w, FreeCPU s w, FreeMemory s w) = (Some w', FreeCPU s w', FreeMemory s w') \<and>
     w' \<in> insert w (snd ` set items) \<and> (\<forall>v\<in>insert w (snd ` set items). freer s w' v)"
proof (induction items arbitrary: w)
  case (Cons x items)
  obtain k v where x: "x = (k, v)" by force
  define u where "u = (if FreeCPU s w < FreeCPU s v \<or> (FreeCPU s w = FreeCPU s v \<and> FreeMemory s w < FreeMemory s v) then v else w)"
  have step: "reduce_max s x (Some w, FreeCPU s w, FreeMemory s w) = (Some u, FreeCPU s u, FreeMemory s u)"
    by (simp add: reduce_max_def x u_def)
  have "freer s u v" "freer s u w" by (auto simp: u_def freer_def)
  moreover have "u \<in> {v, w}" by (simp add: u_def)
  moreover obtain w' where "fold (reduce_max s) items (Some u, FreeCPU s u, FreeMemory s u) = (Some w', FreeCPU s w', FreeMemory s w')"
    "w' \<in> insert u (snd ` set items)" "\<forall>y\<in>insert u (snd ` set items). freer s w' y"
    using Cons.IH by blast
  ultimately show ?case
    using step x by (auto intro: freer_trans)
qed simp

lemma findWorker_cases:
  "(case findWorkerWithMaxFreeCPU lc s of
      None \<Rightarrow> lc_Items lc (lb_workers s) = []
    | Some w \<Rightarrow> w \<in> snd ` set (lc_Items lc (lb_workers s)) \<and>
        (\<forall>v\<in>snd ` set (lc_Items lc (lb_workers s)). freer s w v))"
proof (cases "lc_Items lc (lb_workers s)")
  case (Cons x items)
  obtain k w where x: "x = (k, w)" by force
  have "reduce_max s x (None, 0, 0) = (Some w, FreeCPU s w, FreeMemory s w)"
    by (simp add: reduce_max_def x)
  moreover obtain w' where "fold (reduce_max s) items (Some w, FreeCPU s w, FreeMemory s w) = (Some w', FreeCPU s w', FreeMemory s w')"
    "w' \<in> insert w (snd ` set items)" "\<forall>y\<in>insert w (snd ` set items). freer s w' y"
    using fold_reduce_max by blast
  ultimately show ?thesis
    using Cons x by (simp add: findWorkerWithMaxFreeCPU_def)
qed (simp add: findWorkerWithMaxFreeCPU_def)

section \<open>The search ends\<close>

text \<open>The documented behaviour of the cache of workers, with \<open>ent c\<close> its entries.\<close>

definition workers_documented :: "'c workers_cache \<Rightarrow> ('c \<Rightarrow> string \<Rightarrow> nat option) \<Rightarrow> bool" where
  "workers_documented lc ent \<longleftrightarrow> get_documented lc ent \<and> delete_documented lc ent \<and>
     (\<forall>c. set (lc_Items lc c) = {(k, v). ent c k = Some v}) \<and>
     (\<forall>c k v ev c'. lc_Set lc k v c = (ev, c') \<longrightarrow>
        ent c' k = Some v \<and> (\<forall>j. j \<noteq> k \<longrightarrow> ent c' j = (if j \<in> fst ` set ev then None else ent c j)))"

lemma workers_docD:
  assumes "workers_documented lc ent"
  shows "lc_Get lc k c = (r, c') \<Longrightarrow> r = ent c k \<and> ent c' = ent c"
    and "set (lc_Items lc c) = {(k, v). ent c k = Some v}"
  using assms by (auto simp: workers_documented_def get_documented_def)

lemma workers_doc_Delete:
  assumes "workers_documented lc ent" "lc_Delete lc k c = (ok, ev, c')" "ent c k = Some r"
  shows "ev = [(k, r)]" "ent c' = (ent c)(k := None)"
proof -
  have "ev = (case ent c k of None \<Rightarrow> [] | Some v \<Rightarrow> [(k, v)]) \<and> ent c' = (ent c)(k := None)"
    using assms(1,2) unfolding workers_documented_def delete_documented_def by blast
  with assms(3) show "ev = [(k, r)]" "ent c' = (ent c)(k := None)" by auto
qed

text \<open>What a search leaves as it was.\<close>

definition only_reserves :: "('c \<Rightarrow> string \<Rightarrow> nat option) \<Rightarrow> 'c lb_server \<Rightarrow> 'c lb_server \<Rightarrow> bool" where
  "only_reserves ent s s' \<longleftrightarrow> lb_cached s' = lb_cached s \<and> lb_options s' = lb_options s \<and>
     ent (lb_workers s') = ent (lb_workers s) \<and>
     (\<forall>r. w_alive (wk s' r) = w_alive (wk s r) \<and> w_errorCount (wk s' r) = w_errorCount (wk s r) \<and>
        w_ID (wk s' r) = w_ID (wk s r))"

lemma only_reserves_refl [simp]: "only_reserves ent s s"
  by (simp add: only_reserves_def)

lemma only_reserves_trans:
  "only_reserves ent s s' \<Longrightarrow> only_reserves ent s' s'' \<Longrightarrow> only_reserves ent s s''"
  by (simp add: only_reserves_def)

lemma only_reserves_workers: "ent c = ent (lb_workers s) \<Longrightarrow> only_reserves ent s (s\<lparr>lb_workers := c\<rparr>)"
  by (simp add: only_reserves_def)

lemma only_reserves_Reserve:
  assumes "wc_Reserve c s = (n, s')"
  shows "only_reserves ent s s' \<and> (\<forall>k. wc_ID (wc s' k) = wc_ID (wc s k) \<and> wc_Worker (wc s' k) = wc_Worker (wc s k))"
  using assms
  by (cases rule: wc_Reserve_cases)
    (simp_all add: only_reserves_def set_container_def set_worker_def add_metric_CPU_def)

lemma only_reserves_NewContainer:
  "w_NewContainer w async mcpu s = (c, s') \<Longrightarrow> only_reserves ent s s'"
  by (auto simp: w_NewContainer_def Let_def only_reserves_def)

lemma granted:
  assumes "wc_Reserve c s = (n, s')" "0 < n"
  shows "n = uint (wc_conns (wc s' c)) \<and> w_alive (wk s' (wc_Worker (wc s' c)))"
  using assms(1)
  by (cases rule: wc_Reserve_cases)
    (use assms(2) in \<open>simp_all add: set_container_def set_worker_def add_metric_CPU_def\<close>)

text \<open>The first connection of a new container is always granted by a live worker.\<close>

lemma new_container_granted:
  assumes "w_NewContainer w async mcpu s = (c, s')" "w_alive (wk s w)"
  shows "fst (wc_Reserve c s') = 1 \<and> c = next_wc s \<and> wc_Worker (wc s' c) = w"
proof -
  have "s' = s\<lparr>wc := (wc s)(next_wc s := \<lparr>wc_Worker = w, wc_ID = [], wc_conns = 0,
      wc_mCPU = (if mcpu = 0 then w_defaultMCPU (wk s w) else mcpu), wc_async = async\<rparr>), next_wc := next_wc s + 1\<rparr>"
    and "c = next_wc s"
    using assms(1) by (auto simp: w_NewContainer_def Let_def)
  with assms(2) show ?thesis
    by (auto simp: wc_Reserve_def w_reserve_def Let_def set_container_def set_worker_def Alive_def FreeCPU_def
        add_metric_CPU_def)
qed

lemma pick_cached_result:
  assumes "workers_documented lc ent"
    and "pick_cached lc d bl m (s, co, fc, f) = (s1, co1, fc1, f1)"
  shows "only_reserves ent s s1 \<and> wc s1 = wc s \<and> wk s1 = wk s \<and> next_wc s1 = next_wc s \<and>
    (co1 = co \<and> fc1 = fc \<or>
     (\<exists>i c. (i, c) \<in> set m \<and> co1 = Some c \<and> wc_ID (wc s c) \<notin> set bl \<and> fc1))"
  using assms(2)
proof (induction m arbitrary: s co fc f)
  case (Cons x m)
  obtain i c where x: "x = (i, c)" by force
  obtain known c' where get: "lc_Get lc (w_ID (wk s (wc_Worker (wc s c)))) (lb_workers s) = (known, c')" by force
  let ?s = "s\<lparr>lb_workers := c'\<rparr>"
  have same: "only_reserves ent s ?s"
    using workers_docD(1) [OF assms(1) get] by (simp add: only_reserves_workers)
  show ?case
  proof (cases "wc_ID (wc s c) \<in> set bl")
    case True
    with Cons.prems x have "pick_cached lc d bl m (s, co, fc, f) = (s1, co1, fc1, f1)" by simp
    from Cons.IH [OF this] show ?thesis by auto
  next
    case False
    then consider
      (taken) "pick_cached lc d bl m (?s, Some c, True, FreeCPU s (wc_Worker (wc s c))) = (s1, co1, fc1, f1)"
      | (left) "pick_cached lc d bl m (?s, co, fc, f) = (s1, co1, fc1, f1)"
      using Cons.prems x get
      by (simp add: workers_Get_def Let_def split: if_splits)
    then show ?thesis
    proof cases
      case taken
      from Cons.IH [OF this] False x same show ?thesis by (auto intro: only_reserves_trans)
    next
      case left
      from Cons.IH [OF this] False x same show ?thesis by (auto intro: only_reserves_trans)
    qed
  qed
qed simp

definition cached_of :: "hasher \<Rightarrow> script_def \<Rightarrow> 'c lb_server \<Rightarrow> (string, nat) gomap" where
  "cached_of h d s = (case map_of (lb_cached s) (Definition_Hash h d) of None \<Rightarrow> [] | Some m \<Rightarrow> m)"

text \<open>
  What a search may return: no container only without any worker; otherwise a container on
  which a connection is counted, of a live worker, cached for the script or new on a known
  worker.
\<close>

definition grabbed ::
  "('c \<Rightarrow> string \<Rightarrow> nat option) \<Rightarrow> hasher \<Rightarrow> script_def \<Rightarrow> 'c lb_server
   \<Rightarrow> (nat option \<times> int \<times> bool) \<times> 'c lb_server \<Rightarrow> bool" where
  "grabbed ent h d s = (\<lambda>((co, conns, fc), s').
     only_reserves ent s s' \<and>
     (case co of
        None \<Rightarrow> ent (lb_workers s) = (\<lambda>_. None)
      | Some c \<Rightarrow> 0 < conns \<and> conns = uint (wc_conns (wc s' c)) \<and> w_alive (wk s' (wc_Worker (wc s' c))) \<and>
          (if fc then c \<in> snd ` set (cached_of h d s)
           else \<exists>k. ent (lb_workers s) k = Some (wc_Worker (wc s' c)))))"

lemma grabbed_trans:
  assumes "only_reserves ent s s1" "grabbed ent h d s1 r"
  shows "grabbed ent h d s r"
  using assms by (auto simp: grabbed_def only_reserves_def cached_of_def split: option.splits if_splits)

lemma grab_loop_eq:
  "grab_loop h lc d bl container fc s =
     (case pick_cached lc d bl (cached_of h d s) (s, container, fc, 0) of
        (s1, container1, fc1, _) \<Rightarrow>
          (case (case container1 of
                   Some c \<Rightarrow> Some (c, fc1, s1)
                 | None \<Rightarrow>
                     (case findWorkerWithMaxFreeCPU lc s1 of
                        None \<Rightarrow> None
                      | Some w \<Rightarrow> (case w_NewContainer w (Async d) (MCPU d) s1 of
                                     (c, s2) \<Rightarrow> Some (c, False, s2)))) of
             None \<Rightarrow> Some ((None, 0, fc1), s1)
           | Some (c, fc2, s2) \<Rightarrow>
               (case wc_Reserve c s2 of
                  (conns, s3) \<Rightarrow>
                    if 0 < conns then Some ((Some c, conns, fc2), s3)
                    else if wc_ID (wc s3 c) \<noteq> []
                    then grab_loop h lc d (wc_ID (wc s3 c) # bl) None fc2 s3
                    else grab_loop h lc d bl (Some c) fc2 s3)))"
  by (subst grab_loop.simps) (simp add: cached_of_def)

lemma grab_fresh:
  assumes doc: "workers_documented lc ent"
    and alive: "\<forall>k r. ent (lb_workers s) k = Some r \<longrightarrow> w_alive (wk s r)"
    and pick: "pick_cached lc d bl (cached_of h d s) (s, None, fc, 0) = (s1, None, fc1, f1)"
  shows "\<exists>r. grab_loop h lc d bl None fc s = Some r \<and> grabbed ent h d s r"
proof -
  from pick_cached_result [OF doc pick]
  have same: "only_reserves ent s s1" and wk1: "wk s1 = wk s" "wc s1 = wc s" by auto
  have items: "snd ` set (lc_Items lc (lb_workers s1)) = ran (ent (lb_workers s))"
    using workers_docD(2) [OF doc, of "lb_workers s1"] same by (force simp: only_reserves_def ran_def)
  show ?thesis
  proof (cases "findWorkerWithMaxFreeCPU lc s1")
    case None
    with findWorker_cases [of lc s1] items have "ran (ent (lb_workers s)) = {}" by simp
    then have "ent (lb_workers s) = (\<lambda>_. None)"
      by (intro ext) (metis empty_iff not_None_eq ranI)
    with same show ?thesis by (simp add: grab_loop_eq pick None grabbed_def)
  next
    case (Some w)
    with findWorker_cases [of lc s1] items have "w \<in> ran (ent (lb_workers s))" by simp
    then obtain k where k: "ent (lb_workers s) k = Some w" by (auto simp: ran_def)
    obtain c s2 where new: "w_NewContainer w (Async d) (MCPU d) s1 = (c, s2)" by force
    obtain n s3 where res: "wc_Reserve c s2 = (n, s3)" by force
    from alive k wk1 have "w_alive (wk s1 w)" by simp
    from new_container_granted [OF new this] res have n: "n = 1" "wc_Worker (wc s2 c) = w" by auto
    note g = granted [OF res, unfolded n, simplified] and keep = only_reserves_Reserve [OF res, of ent]
    have "only_reserves ent s s3"
      using only_reserves_trans [OF only_reserves_trans [OF same only_reserves_NewContainer [OF new]]] keep by blast
    moreover have "wc_Worker (wc s3 c) = w" using keep n by simp
    ultimately show ?thesis
      using k g n by (auto simp: grab_loop_eq pick Some new res grabbed_def)
  qed
qed

lemma grab_loop_returns:
  assumes doc: "workers_documented lc ent"
    and "\<forall>k r. ent (lb_workers s) k = Some r \<longrightarrow> w_alive (wk s r)"
    and "\<forall>(i, c)\<in>set (cached_of h d s). wc_ID (wc s c) = i \<and> i \<noteq> []"
  shows "\<exists>r. grab_loop h lc d bl None fc s = Some r \<and> grabbed ent h d s r"
  using assms(2,3)
proof (induction "card (fst ` set (cached_of h d s) - set bl)" arbitrary: s bl fc rule: less_induct)
  case less
  obtain s1 co1 fc1 f1 where pick: "pick_cached lc d bl (cached_of h d s) (s, None, fc, 0) = (s1, co1, fc1, f1)"
    by (metis prod_cases4)
  show ?case
  proof (cases co1)
    case None
    with pick grab_fresh [OF doc less.prems(1)] show ?thesis by blast
  next
    case (Some c)
    from pick_cached_result [OF doc pick] Some obtain i where
      same: "only_reserves ent s s1" and wc1: "wc s1 = wc s" and i: "(i, c) \<in> set (cached_of h d s)" and
      fresh: "wc_ID (wc s c) \<notin> set bl" and fc1: "fc1" by auto
    obtain n s3 where res: "wc_Reserve c s1 = (n, s3)" by force
    note keep = only_reserves_Reserve [OF res, of ent]
    have same3: "only_reserves ent s s3" using only_reserves_trans [OF same] keep by blast
    show ?thesis
    proof (cases "0 < n")
      case True
      with granted [OF res] i same3 fc1 have "grabbed ent h d s ((Some c, n, True), s3)"
        by (force simp: grabbed_def)
      with True fc1 show ?thesis by (simp add: grab_loop_eq pick Some res)
    next
      case False
      have cid: "wc_ID (wc s3 c) = i" "i \<noteq> []" "i \<notin> set bl"
        using keep wc1 less.prems(2) i fresh by auto
      have cached3: "cached_of h d s3 = cached_of h d s" using same3 by (simp add: only_reserves_def cached_of_def)
      have "fst ` set (cached_of h d s3) - set (i # bl) \<subset> fst ` set (cached_of h d s) - set bl"
        using cid i cached3 by force
      then have "card (fst ` set (cached_of h d s3) - set (i # bl)) < card (fst ` set (cached_of h d s) - set bl)"
        by (intro psubset_card_mono) auto
      moreover have "\<forall>k r. ent (lb_workers s3) k = Some r \<longrightarrow> w_alive (wk s3 r)"
        using less.prems(1) same3 by (simp add: only_reserves_def)
      moreover have "\<forall>(i, c)\<in>set (cached_of h d s3). wc_ID (wc s3 c) = i \<and> i \<noteq> []"
        using less.prems(2) keep wc1 cached3 by auto
      ultimately obtain r where "grab_loop h lc d (i # bl) None fc1 s3 = Some r" "grabbed ent h d s3 r"
        using less.hyps by blast
      with grabbed_trans [OF same3] False cid show ?thesis
        by (simp add: grab_loop_eq [of h lc d bl None fc s] pick Some res)
    qed
  qed
qed

section \<open>Evictions\<close>

text \<open>The entries of the map of containers: script hash, container ID, container.\<close>

definition cached_containers :: "'c lb_server \<Rightarrow> (string \<times> string \<times> nat) set" where
  "cached_containers s = {(k, i, c). \<exists>m. map_of (lb_cached s) k = Some m \<and> (i, c) \<in> set m}"

text \<open>The worker of a cached container has its script among those it lists.\<close>

definition recorded :: "hasher \<Rightarrow> 'c lb_server \<Rightarrow> bool" where
  "recorded h s \<longleftrightarrow> (\<forall>(k, i, c)\<in>cached_containers s.
     \<exists>d. map_of (w_scripts (wk s (wc_Worker (wc s c)))) k = Some d \<and> Definition_Hash h d = k)"

lemma forget_def_fields [simp]:
  "wk (forget_def h r d s) = wk s" "wc (forget_def h r d s) = wc s"
  "lb_index (forget_def h r d s) = nested_del (Index_Hash h (Index d)) (w_ID (wk s r)) (lb_index s)"
  by (simp_all add: forget_def_def Let_def)

lemma map_of_nested_set: "map_of (nested_set k m M) = (map_of M)(k := if m = [] then None else Some m)"
  by (simp add: nested_set_def)

lemma forget_def_cached:
  "cached_containers (forget_def h r d s) =
     {(k, i, c) \<in> cached_containers s. k = Definition_Hash h d \<longrightarrow> wc_Worker (wc s c) \<noteq> r}"
proof -
  have "lb_cached (forget_def h r d s) = (case map_of (lb_cached s) (Definition_Hash h d) of
      None \<Rightarrow> lb_cached s
    | Some m \<Rightarrow> nested_set (Definition_Hash h d) (filter (\<lambda>(i, c). wc_Worker (wc s c) \<noteq> r) m) (lb_cached s))"
    by (simp add: forget_def_def Let_def)
  then show ?thesis
    by (auto simp: cached_containers_def map_of_nested_set split: option.splits if_splits)
       (metis (mono_tags, lifting) case_prodI filter_empty_conv)+
qed

lemma forget_defs:
  "wk (fold (forget_def h r) ds s) = wk s \<and> wc (fold (forget_def h r) ds s) = wc s \<and>
   cached_containers (fold (forget_def h r) ds s) =
     {(k, i, c) \<in> cached_containers s. k \<in> Definition_Hash h ` set ds \<longrightarrow> wc_Worker (wc s c) \<noteq> r} \<and>
   (\<forall>j w. nested_get (lb_index (fold (forget_def h r) ds s)) j w =
      (if w = w_ID (wk s r) \<and> j \<in> (\<lambda>d. Index_Hash h (Index d)) ` set ds then None
       else nested_get (lb_index s) j w))"
proof (induction ds arbitrary: s)
  case (Cons d ds)
  show ?case using Cons.IH [of "forget_def h r d s"] by (auto simp: forget_def_cached)
qed (auto)

lemma recorded_addCache:
  assumes "recorded h s"
  shows "recorded h (addCache h c d s)"
proof -
  have "cached_containers (addCache h c d s) \<subseteq> insert (Definition_Hash h d, wc_ID (wc s c), c) (cached_containers s)"
    using set_alist_update_subset
    by (fastforce simp: cached_containers_def addCache_def Let_def nested_put_def AddCache_def set_worker_def
        split: option.splits if_splits)
  moreover have "wc (addCache h c d s) = wc s"
    by (simp add: addCache_def Let_def AddCache_def set_worker_def)
  moreover have "map_of (w_scripts (wk (addCache h c d s) r)) =
      (if r = wc_Worker (wc s c) then (map_of (w_scripts (wk s r)))(Definition_Hash h d \<mapsto> d) else map_of (w_scripts (wk s r)))" for r
    by (simp add: addCache_def Let_def AddCache_def set_worker_def)
  ultimately show ?thesis
    using assms by (fastforce simp: recorded_def)
qed

text \<open>The handler, for one evicted worker.\<close>

lemma evicted_state:
  assumes "onEvictedWorkerHandler h (key, r) s = s'"
  shows "wk s' = (wk s)(r := (wk s r)\<lparr>w_alive := False\<rparr>) \<and> wc s' = wc s \<and>
    lb_workers s' = lb_workers s \<and> lb_options s' = lb_options s \<and> metric_Count s' = metric_Count s - 1 \<and>
    cached_containers s' = {(k, i, c) \<in> cached_containers s.
      k \<in> Definition_Hash h ` snd ` set (w_scripts (wk s r)) \<longrightarrow> wc_Worker (wc s c) \<noteq> r} \<and>
    (\<forall>j w. nested_get (lb_index s') j w =
      (if w = w_ID (wk s r) \<and> j \<in> (\<lambda>d. Index_Hash h (Index d)) ` snd ` set (w_scripts (wk s r)) then None
       else nested_get (lb_index s) j w))"
proof -
  define s1 where "s1 = add_metric_CPU (- scast (w_freeCPU (wk s r))) (set_worker r (\<lambda>w. w\<lparr>w_alive := False\<rparr>)
    (s\<lparr>metric_Count := metric_Count s - 1\<rparr>))"
  have s': "s' = fold (forget_def h r) (map snd (w_scripts (wk s r))) s1"
    using assms by (simp add: onEvictedWorkerHandler_def w_Shutdown_def Let_def s1_def)
  have other: "lb_workers (fold (forget_def h r) ds t) = lb_workers t \<and> lb_options (fold (forget_def h r) ds t) = lb_options t \<and>
     metric_Count (fold (forget_def h r) ds t) = metric_Count t" for ds and t :: "'a lb_server"
    by (induction ds arbitrary: t) (simp_all add: forget_def_def Let_def)
  have s1: "wk s1 = (wk s)(r := (wk s r)\<lparr>w_alive := False\<rparr>)" "wc s1 = wc s" "lb_workers s1 = lb_workers s"
    "lb_options s1 = lb_options s" "metric_Count s1 = metric_Count s - 1" "lb_cached s1 = lb_cached s" "lb_index s1 = lb_index s"
    by (simp_all add: s1_def add_metric_CPU_def set_worker_def)
  then have "cached_containers s1 = cached_containers s" by (simp add: cached_containers_def)
  with forget_defs [of h r "map snd (w_scripts (wk s r))" s1] other s1 show ?thesis
    by (simp add: s')
qed

section \<open>Retries\<close>

lemma unat_inc_le: "unat (x + 1 :: u32) \<le> unat x + 1"
  by (simp add: unat_word_ariths)

lemma processWorkerRun_fails:
  assumes "sm_SourceHash meta \<noteq> []" "\<And>addr key w. fst (rpc_Exists (le_rpc env) addr key w) = Inl e"
  shows "\<exists>w. processWorkerRun env c False meta st = Returns (Inl e, st\<lparr>lr_world := w\<rparr>)"
proof -
  obtain w where "rpc_Exists (le_rpc env) (cont_addr (lr_srv st) c) (sm_SourceHash meta) (lr_world st) = (Inl e, w)"
    by (metis assms(2) prod.collapse)
  with assms(1) show ?thesis
    by (auto simp: processWorkerRun_def uploadResource_def lr_world_proc_def on_world_def lift_eff_def proc_eval)
qed

text \<open>
  How many more failures the known workers may have before the last one is dropped, and
  the states from which \<open>n\<close> failing attempts all find a worker.
\<close>

definition error_budget :: "('c \<Rightarrow> string \<Rightarrow> nat option) \<Rightarrow> 'c lb_server \<Rightarrow> nat" where
  "error_budget ent s = (\<Sum>k\<in>dom (ent (lb_workers s)).
     WorkerErrorThreshold (lb_options s) - unat (w_errorCount (wk s (the (ent (lb_workers s) k)))))"

definition workers_ready :: "('c \<Rightarrow> string \<Rightarrow> nat option) \<Rightarrow> 'c lb_server \<Rightarrow> bool" where
  "workers_ready ent s \<longleftrightarrow> finite (dom (ent (lb_workers s))) \<and>
     (\<forall>k r. ent (lb_workers s) k = Some r \<longrightarrow> w_alive (wk s r) \<and> w_ID (wk s r) = k \<and>
        unat (w_errorCount (wk s r)) < WorkerErrorThreshold (lb_options s))"

definition can_try :: "('c \<Rightarrow> string \<Rightarrow> nat option) \<Rightarrow> hasher \<Rightarrow> script_def \<Rightarrow> nat \<Rightarrow> 'c lb_server \<Rightarrow> bool" where
  "can_try ent h d n s \<longleftrightarrow> map_of (lb_cached s) (Definition_Hash h d) = None \<and> workers_ready ent s \<and>
     n \<le> error_budget ent s"

lemma workers_readyD:
  assumes "workers_ready ent s" "ent (lb_workers s) k = Some r"
  shows "w_alive (wk s r)" "w_ID (wk s r) = k"
    "unat (w_errorCount (wk s r)) < WorkerErrorThreshold (lb_options s)"
  using assms by (auto simp: workers_ready_def)

lemma only_reserves_can_try:
  assumes "only_reserves ent s s'"
  shows "can_try ent h d n s' = can_try ent h d n s"
proof -
  note eqs = assms [unfolded only_reserves_def]
  have "error_budget ent s' = error_budget ent s" by (simp add: error_budget_def eqs)
  with eqs show ?thesis by (simp add: can_try_def workers_ready_def)
qed

lemma can_try_grab:
  assumes "workers_documented lc ent" "can_try ent h d (Suc n) s"
  shows "\<exists>c conns s'. grabWorkerContainer h lc d s = Returns ((Some c, conns, False), s') \<and>
    can_try ent h d (Suc n) s' \<and> (\<exists>k. ent (lb_workers s') k = Some (wc_Worker (wc s' c)))"
proof -
  have none: "cached_of h d s = []" using assms(2) by (simp add: can_try_def cached_of_def)
  have some: "ent (lb_workers s) \<noteq> (\<lambda>_. None)"
    using assms(2) by (auto simp: can_try_def error_budget_def)
  have alive: "\<forall>k r. ent (lb_workers s) k = Some r \<longrightarrow> w_alive (wk s r)"
    using assms(2) by (auto simp: can_try_def dest: workers_readyD)
  from none obtain r where r: "grab_loop h lc d [] None False s = Some r" "grabbed ent h d s r"
    using grab_loop_returns [OF assms(1) alive, of h d "[]" False] by auto
  obtain co conns fc s' where r_eq: "r = ((co, conns, fc), s')" by (metis prod_cases4 surj_pair)
  have same: "only_reserves ent s s'" using r(2) r_eq by (simp add: grabbed_def)
  obtain c where c: "co = Some c"
    using r(2) r_eq some by (auto simp: grabbed_def split: option.splits)
  with r(2) r_eq none have "\<not> fc" "\<exists>k. ent (lb_workers s) k = Some (wc_Worker (wc s' c))"
    by (auto simp: grabbed_def split: if_splits)
  then show ?thesis
    using r(1) r_eq c only_reserves_can_try [OF same] same assms(2)
    by (auto simp: grabWorkerContainer_def only_reserves_def)
qed

text \<open>An error counted against a worker, below the threshold and at it.\<close>

lemma error_counted:
  assumes ready: "workers_ready ent s" and k: "ent (lb_workers s) k = Some r"
    and below: "unat (w_errorCount (wk s r) + 1) < WorkerErrorThreshold (lb_options s)"
  defines "s' \<equiv> set_worker r (\<lambda>w. w\<lparr>w_errorCount := w_errorCount w + 1\<rparr>) s"
  shows "workers_ready ent s'" "error_budget ent s \<le> Suc (error_budget ent s')"
proof -
  show "workers_ready ent s'"
    using ready below by (auto simp: workers_ready_def s'_def set_worker_def)
  have fin: "finite (dom (ent (lb_workers s)))" using ready by (simp add: workers_ready_def)
  let ?T = "WorkerErrorThreshold (lb_options s)" and ?e = "ent (lb_workers s)"
  let ?f = "\<lambda>t j. ?T - unat (w_errorCount (wk t (the (?e j))))"
  have "?f s j \<le> ?f s' j + (if j = k then 1 else 0)" if "j \<in> dom ?e" for j
  proof -
    from that obtain q where q: "?e j = Some q" by auto
    have "q = r \<Longrightarrow> j = k" using workers_readyD(2) [OF ready] q k by metis
    then show ?thesis
      using q k unat_inc_le [of "w_errorCount (wk s r)"] by (auto simp: s'_def set_worker_def)
  qed
  then have "(\<Sum>j\<in>dom ?e. ?f s j) \<le> (\<Sum>j\<in>dom ?e. ?f s' j + (if j = k then 1 else 0))"
    by (rule sum_mono)
  also have "\<dots> = (\<Sum>j\<in>dom ?e. ?f s' j) + 1"
    using fin k by (subst sum.distrib) (auto simp: sum.delta)
  finally show "error_budget ent s \<le> Suc (error_budget ent s')"
    by (simp add: error_budget_def s'_def set_worker_def)
qed

lemma evicted_None:
  assumes "map_of (lb_cached s) k = None"
  shows "map_of (lb_cached (onEvictedWorkerHandler h (key, r) s)) k = None"
proof -
  have forget: "map_of (lb_cached t) k = None \<Longrightarrow> map_of (lb_cached (forget_def h r d t)) k = None" for d and t :: "'a lb_server"
    by (auto simp: forget_def_def Let_def map_of_nested_set split: option.splits)
  have "map_of (lb_cached t) k = None \<Longrightarrow> map_of (lb_cached (fold (forget_def h r) ds t)) k = None" for ds and t :: "'a lb_server"
    by (induction ds arbitrary: t) (simp_all add: forget)
  then show ?thesis
    using assms by (simp add: onEvictedWorkerHandler_def w_Shutdown_def Let_def add_metric_CPU_def set_worker_def)
qed

lemma error_dropped:
  fixes h :: hasher
  assumes doc: "workers_documented lc ent" and ready: "workers_ready ent s" and k: "ent (lb_workers s) k = Some r"
    and above: "WorkerErrorThreshold (lb_options s) \<le> unat (w_errorCount (wk s r) + 1)"
  defines "s1 \<equiv> set_worker r (\<lambda>w. w\<lparr>w_errorCount := w_errorCount w + 1\<rparr>) s"
  defines "s' \<equiv> snd (workers_op h (lc_Delete lc (w_ID (wk s r))) s1)"
  shows "workers_ready ent s'" "error_budget ent s \<le> Suc (error_budget ent s')"
    "map_of (lb_cached s) j = None \<Longrightarrow> map_of (lb_cached s') j = None"
proof -
  have ID: "w_ID (wk s r) = k" using workers_readyD(2) [OF ready k] .
  obtain ok evs c' where del: "lc_Delete lc k (lb_workers s1) = (ok, evs, c')" by (metis prod_cases3)
  have ws1: "lb_workers s1 = lb_workers s" "lb_options s1 = lb_options s" "lb_cached s1 = lb_cached s"
    by (simp_all add: s1_def set_worker_def)
  have ev: "evs = [(k, r)]" "ent c' = (ent (lb_workers s))(k := None)"
    using workers_doc_Delete [OF doc del] k ws1 by simp_all
  have s': "s' = onEvictedWorkerHandler h (k, r) (s1\<lparr>lb_workers := c'\<rparr>)"
    by (simp add: s'_def workers_op_def ID del ev)
  note st = evicted_state [OF s' [symmetric]]
  have alive: "w_alive (wk s' q) = w_alive (wk s q) \<and> w_ID (wk s' q) = w_ID (wk s q) \<and> w_errorCount (wk s' q) = w_errorCount (wk s q)"
    if "q \<noteq> r" for q
    using st that by (simp add: s1_def set_worker_def)
  have other: "q \<noteq> r" if "ent (lb_workers s) i = Some q" "i \<noteq> k" for i q
    using that workers_readyD(2) [OF ready] ID by metis
  have ent': "ent (lb_workers s') = (ent (lb_workers s))(k := None)" "lb_options s' = lb_options s"
    using st ev ws1 by simp_all
  show "workers_ready ent s'"
    using ready other alive ent' unfolding workers_ready_def by auto
  let ?T = "WorkerErrorThreshold (lb_options s)" and ?e = "ent (lb_workers s)"
  have fin: "finite (dom ?e)" using ready by (simp add: workers_ready_def)
  have "unat (w_errorCount (wk s r)) < ?T" using workers_readyD(3) [OF ready k] .
  then have one: "?T - unat (w_errorCount (wk s r)) \<le> 1"
    using above unat_inc_le [of "w_errorCount (wk s r)"] by linarith
  have "error_budget ent s = (?T - unat (w_errorCount (wk s r))) +
      (\<Sum>i\<in>dom ?e - {k}. ?T - unat (w_errorCount (wk s (the (?e i)))))"
    unfolding error_budget_def using fin k by (subst sum.remove [of _ k]) auto
  moreover have "(\<Sum>i\<in>dom ?e - {k}. ?T - unat (w_errorCount (wk s (the (?e i))))) = error_budget ent s'"
    unfolding error_budget_def using ent' other alive by (intro sum.cong) auto
  ultimately show "error_budget ent s \<le> Suc (error_budget ent s')" using one by linarith
  show "map_of (lb_cached s) j = None \<Longrightarrow> map_of (lb_cached s') j = None"
    using ws1 by (simp add: s' evicted_None)
qed

lemma can_try_failed:
  assumes doc: "workers_documented lc ent" and "can_try ent h d (Suc n) s"
    and k: "ent (lb_workers s) k = Some (wc_Worker (wc s c))" and "\<not> is_cancel e"
  shows "can_try ent h d n (handleWorkerError h lc is_cancel c e s)"
proof (cases "WorkerErrorThreshold (lb_options s) \<le> unat (w_errorCount (wk s (wc_Worker (wc s c))) + 1)")
  case True
  have ready: "workers_ready ent s" using assms(2) by (simp add: can_try_def)
  note dropped = error_dropped [where h = h, OF doc ready k True]
  show ?thesis
    using dropped assms(2,4) True
    by (simp add: can_try_def handleWorkerError_def IncreaseErrorCount_def Let_def set_worker_def)
next
  case False
  have ready: "workers_ready ent s" using assms(2) by (simp add: can_try_def)
  note counted = error_counted [OF ready k False [unfolded not_le]]
  show ?thesis
    using counted assms(2,4) False
    by (simp add: can_try_def handleWorkerError_def IncreaseErrorCount_def Let_def set_worker_def)
qed

lemma run_attempts_exhausted:
  assumes doc: "workers_documented lc ent"
    and fails: "sm_SourceHash meta \<noteq> []" "\<And>addr key w. fst (rpc_Exists (le_rpc env) addr key w) = Inl e"
      "\<not> le_IsCancellation env e"
    and lock: "\<And>key n w. fst (le_Lock env key n w) = Inr ()"
    and "can_try ent h d n (lr_srv st)" "\<not> IsDirty (lr_reader st)"
  shows "\<exists>c ds' st'. run_attempts h lc env d lm meta n cont ds st = Returns ((RunStream c None, ds'), st')"
  using assms(6,7)
proof (induction n arbitrary: st cont ds)
  case (Suc n)
  obtain c conns srv k where grab: "grabWorkerContainer h lc d (lr_srv st) = Returns ((Some c, conns, False), srv)"
    and tries: "can_try ent h d (Suc n) srv" "ent (lb_workers srv) k = Some (wc_Worker (wc srv c))"
    using can_try_grab [OF doc Suc.prems(1)] by blast
  define st1 where "st1 = st\<lparr>lr_srv := srv\<rparr>"
  define lim where "lim \<longleftrightarrow> conns = 1 \<and> 0 < lm_ConcurrencyLimit lm"
  obtain w where locked: "(if lim then le_Lock env (lm_ConcurrencyKey lm) (lm_ConcurrencyLimit lm) (lr_world st1)
      else (Inr (), lr_world st1)) = (Inr (), w)"
    by (metis (full_types) lock prod.collapse)
  obtain w' where run: "processWorkerRun env c False meta (st1\<lparr>lr_world := w\<rparr>) = Returns (Inl e, (st1\<lparr>lr_world := w\<rparr>)\<lparr>lr_world := w'\<rparr>)"
    using processWorkerRun_fails [OF fails(1,2)] by blast
  define st3 where "st3 = st\<lparr>lr_world := w', lr_srv := handleWorkerError h lc (le_IsCancellation env) c e srv\<rparr>"
  have "can_try ent h d n (lr_srv st3)"
    using can_try_failed [where ent = ent and lc = lc and is_cancel = "le_IsCancellation env" and e = e, OF doc tries fails(3)] by (simp add: st3_def)
  moreover have "\<not> IsDirty (lr_reader st3)" using Suc.prems(2) by (simp add: st3_def)
  ultimately obtain c' ds' st' where rest:
    "run_attempts h lc env d lm meta n (Some c)
       (if lim then UnlockLimiter (lm_ConcurrencyKey lm) (lm_ConcurrencyLimit lm) # ReleaseContainer c # ds
        else ReleaseContainer c # ds) st3 = Returns ((RunStream c' None, ds'), st')"
    using Suc.IH by blast
  have "run_attempts h lc env d lm meta (Suc n) cont ds st = Returns ((RunStream c' None, ds'), st')"
  proof (cases lim)
    case True
    with grab locked run rest Suc.prems(2) fails(3) show ?thesis
      by (simp add: lim_def [symmetric] st1_def st3_def Let_def)
  next
    case False
    with locked have "st1\<lparr>lr_world := w\<rparr> = st1" by (cases st) (simp add: st1_def)
    with False grab run rest Suc.prems(2) fails(3) show ?thesis
      by (simp add: lim_def [symmetric] st1_def st3_def Let_def)
  qed
  then show ?case by blast
qed simp


section \<open>Removed containers\<close>

text \<open>
  A container that is not cached is not removed quietly: the reference counts are taken down
  all the same. With one container of the script left on the worker, the second notification
  for another one drops the worker from the index, and \<open>Delete\<close> does not ask it any more.
\<close>

lemma removeCache_unknown:
  assumes "nested_get (lb_cached s) (Definition_Hash h d) contID = None"
    and "nested_get (lb_index s) (Index_Hash h (Index d)) (w_ID (wk s r)) = Some 1"
  shows "fst (removeCache h r d contID s) = False \<and>
    nested_get (lb_index (snd (removeCache h r d contID s))) (Index_Hash h (Index d)) (w_ID (wk s r)) = None \<and>
    (\<forall>k i. nested_get (lb_cached (snd (removeCache h r d contID s))) k i = nested_get (lb_cached s) k i)"
proof -
  have same: "lb_index (snd (RemoveCache h r d contID s)) = lb_index s" "lb_cached (snd (RemoveCache h r d contID s)) = lb_cached s"
    by (simp_all add: RemoveCache_def Let_def set_worker_def)
  show ?thesis using assms by (simp add: removeCache_def Let_def same)
qed

lemma refcount_roundtrip:
  assumes "map_of (w_scriptsRefCounter (wk s r)) (Definition_Hash h d) \<noteq> Some 0"
    "\<forall>n. map_of (w_scriptsRefCounter (wk s r)) (Definition_Hash h d) = Some n \<longrightarrow> 1 \<le> n"
    "contID = wc_ID (wc s c)" "s1 = AddCache h r d c s"
  shows "map_of (w_scriptsRefCounter (wk (snd (RemoveCache h r d contID s1)) r)) = map_of (w_scriptsRefCounter (wk s r))"
  using assms
  by (cases "map_of (w_scriptsRefCounter (wk s r)) (Definition_Hash h d)")
    (auto simp: AddCache_def RemoveCache_def Let_def set_worker_def)

section \<open>An instance\<close>

text \<open>The association list of \<open>Cache_Api\<close>, with \<open>Set\<close> and \<open>Reduce\<close>.\<close>

definition list_workers :: "((string \<times> nat) list) workers_cache" where
  "list_workers = lru_cache.extend (list_lru 100)
     \<lparr>lc_Set = \<lambda>k v c. ([], AList.update k v c), lc_Items = AList.clearjunk\<rparr>"

lemma list_workers_documented: "workers_documented list_workers map_of"
proof -
  have "lru_documented (list_lru 100 :: ((string \<times> nat) list, nat) lru_cache) map_of"
    by (rule list_lru_documented)
  then have "get_documented list_workers map_of" "delete_documented list_workers map_of"
    by (simp_all add: list_workers_def lru_cache.defs lru_documented_def get_documented_def delete_documented_def)
  moreover have "set (AList.clearjunk c) = {(k, v). map_of c k = Some v}" for c :: "(string \<times> nat) list"
    using map_of_clearjunk [of c] distinct_clearjunk [of c] by (auto simp flip: map_of_eq_Some_iff)
  ultimately show ?thesis
    by (auto simp: workers_documented_def list_workers_def lru_cache.defs)
qed

definition toy_hasher :: hasher where
  "toy_hasher = \<lparr>hash_index = \<lambda>i. of_nat (length (SourceHash i)), hash_definition = \<lambda>d. of_nat (length (Entrypoint d))\<rparr>"

definition toy_script :: script_def where
  "toy_script = \<lparr>Index = \<lparr>Runtime = ''nodejs_v8'', SourceHash = ''src'', UserID = ''u''\<rparr>, Environment = [],
     Entrypoint = ''main.js'', MCPU = 125, Async = 1\<rparr>"

text \<open>A server with two workers that have not failed yet.\<close>

definition toy_workers :: lb_heap where
  "toy_workers = (case NewWorker True ''v'' (''10.0.0.2'', 80) 2000 125 0 toy_heap1 of
     Returns (r, s) \<Rightarrow> s | _ \<Rightarrow> toy_heap)"

definition toy_lb :: "((string \<times> nat) list) lb_server" where
  "toy_lb = (NewServer (\<lambda>a b. b) None [(''w'', 0), (''v'', 1)] toy_workers)"

lemma toy_lb_fields:
  "wk toy_lb 0 = \<lparr>w_ID = ''w'', w_Addr = (''10.0.0.1'', 80), w_waitGroup = 0, w_mCPU = 1000,
     w_defaultMCPU = 125, w_memory = 0, w_freeCPU = 1000, w_freeMemory = 0, w_alive = True,
     w_scriptsRefCounter = [], w_scripts = [], w_containers = [], w_errorCount = 0\<rparr>"
  "wk toy_lb (Suc 0) = \<lparr>w_ID = ''v'', w_Addr = (''10.0.0.2'', 80), w_waitGroup = 0, w_mCPU = 2000,
     w_defaultMCPU = 125, w_memory = 0, w_freeCPU = 2000, w_freeMemory = 0, w_alive = True,
     w_scriptsRefCounter = [], w_scripts = [], w_containers = [], w_errorCount = 0\<rparr>"
  "lb_workers toy_lb = [(''w'', 0), (''v'', 1)]" "lb_cached toy_lb = []" "lb_index toy_lb = []"
  "lb_options toy_lb = DefaultLbOptions" "next_wc toy_lb = 0" "next_wk toy_lb = 2"
  by (simp_all add: toy_lb_def NewServer_def lb_heap.defs toy_workers_def toy_heap1_def NewWorker_def toy_heap_def
      add_metric_CPU_def)

section \<open>Properties\<close>

text \<open>
  The choice of a worker is the best one. Whatever order the cache visits its workers in,
  \<open>findWorkerWithMaxFreeCPU\<close> returns none only when there is none, and otherwise a worker of
  the cache that no other exceeds in free CPU, nor in free memory at the same free CPU.
\<close>

theorem lb_choice_maximal:
  "case findWorkerWithMaxFreeCPU lc s of
     None \<Rightarrow> lc_Items lc (lb_workers s) = []
   | Some w \<Rightarrow> w \<in> snd ` set (lc_Items lc (lb_workers s)) \<and>
       (\<forall>(k, v)\<in>set (lc_Items lc (lb_workers s)).
          FreeCPU s v < FreeCPU s w \<or> (FreeCPU s v = FreeCPU s w \<and> FreeMemory s v \<le> FreeMemory s w))"
  using findWorker_cases [of lc s] by (auto simp: freer_def split: option.splits)

theorem lb_choice_maximal_witness:
  "findWorkerWithMaxFreeCPU list_workers toy_lb = Some 1 \<and>
   (FreeCPU toy_lb 0 < FreeCPU toy_lb 1 \<or>
    (FreeCPU toy_lb 0 = FreeCPU toy_lb 1 \<and> FreeMemory toy_lb 0 \<le> FreeMemory toy_lb 1))"
proof -
  have items: "(''w'', 0) \<in> set (lc_Items list_workers (lb_workers toy_lb))"
    by (simp add: list_workers_def lru_cache.defs toy_lb_fields)
  have one: "findWorkerWithMaxFreeCPU list_workers toy_lb = Some 1"
    by (simp add: findWorkerWithMaxFreeCPU_def list_workers_def lru_cache.defs toy_lb_fields reduce_max_def
        FreeCPU_def FreeMemory_def)
  with lb_choice_maximal [of list_workers toy_lb] items show ?thesis by auto
qed



lemma source_found:
  assumes "\<And>key w. fst (le_Get env key w) \<noteq> []"
  shows "\<exists>w. le_Exists_source env meta st = Returns (Inr True, st\<lparr>lr_world := w\<rparr>)"
proof -
  have path: "\<exists>p w. p \<noteq> [] \<and> le_path env key t = Returns (Inr p, t\<lparr>lr_world := w\<rparr>)" for key and t :: "('b, 'a) lb_run"
    using assms [of key "lr_world t"] by (auto simp: le_path_def lr_world_proc_def split: prod.split)
  obtain p w where p: "p \<noteq> []" "le_path env (sm_SourceHash meta) st = Returns (Inr p, st\<lparr>lr_world := w\<rparr>)"
    using path by blast
  obtain q w' where q: "q \<noteq> []" "le_path env (sm_Environment meta) (st\<lparr>lr_world := w\<rparr>) = Returns (Inr q, st\<lparr>lr_world := w'\<rparr>)"
    using path [of "sm_Environment meta" "st\<lparr>lr_world := w\<rparr>"] by auto
  show ?thesis
    by (cases "sm_Environment meta = []") (use p q in \<open>auto simp: le_Exists_source_def proc_eval\<close>)
qed

text \<open>
  C12: a run whose attempts all fail never returns. When the source is there, the script has no
  cached container, each attempt is refused by the worker's file repository with an error that
  is no cancellation, and the workers can fail as often as the run retries before they are all
  dropped, then \<open>processRun\<close> goes on to relay the responses of a channel that was never made
  and waits for ever, with all its reservations held.
\<close>

theorem lb_exhausted_run_hangs:
  assumes "workers_documented lc ent"
    and "CreateDefinitionFromScriptMeta meta = Returns d"
    and "\<And>key w. fst (le_Get env key w) \<noteq> []"
    and "sm_SourceHash meta \<noteq> []" "\<And>addr key w. fst (rpc_Exists (le_rpc env) addr key w) = Inl e"
    and "\<not> le_IsCancellation env e" "\<And>key n w. fst (le_Lock env key n w) = Inr ()"
    and "\<not> IsDirty (lr_reader st)"
    and "map_of (lb_cached (lr_srv st)) (Definition_Hash h d) = None" "workers_ready ent (lr_srv st)"
    and "nat (WorkerRetry (lb_options (lr_srv st))) \<le> error_budget ent (lr_srv st)"
  shows "lb_processRun h lc env lbMeta meta st = Blocks"
proof -
  obtain w where src: "le_Exists_source env meta st = Returns (Inr True, st\<lparr>lr_world := w\<rparr>)"
    using source_found [OF assms(3)] by blast
  have ready0: "can_try ent h d (nat (WorkerRetry (lb_options (lr_srv st)))) (lr_srv (st\<lparr>lr_world := w\<rparr>))"
    using assms(9-11) by (simp add: can_try_def)
  have clean: "\<not> IsDirty (lr_reader (st\<lparr>lr_world := w\<rparr>))" using assms(8) by simp
  obtain c ds st' where "run_attempts h lc env d lbMeta meta (nat (WorkerRetry (lb_options (lr_srv st)))) None []
      (st\<lparr>lr_world := w\<rparr>) = Returns ((RunStream c None, ds), st')"
    using run_attempts_exhausted [OF assms(1,4,5,6,7) ready0 clean] by blast
  then show ?thesis
    using src by (simp add: lb_processRun_def assms(2) proc_eval relayReponse_def)
qed

definition toy_meta :: script_meta where
  "toy_meta = \<lparr>sm_Runtime = ''nodejs_v8'', sm_SourceHash = ''src'', sm_UserId = ''u'', sm_Environment = [], sm_Options = None\<rparr>"

text \<open>Workers that do not answer.\<close>

definition toy_env :: "unit lb_env" where
  "toy_env = \<lparr>le_rpc = \<lparr>rpc_Exists = \<lambda>_ _. eff_fail (EOther ''unavailable''), rpc_Upload = \<lambda>_. eff_return 0,
      rpc_UploadSend = \<lambda>_ _. eff_return (), rpc_UploadRecv = \<lambda>_. eff_return True, rpc_Run = \<lambda>_. eff_return 0,
      rpc_RunSend = \<lambda>_ _. eff_return (), rpc_CloseSend = \<lambda>_. eff_return (),
      rpc_Responses = \<lambda>_ w. (([], EEOF), w), rpc_Delete = \<lambda>_ _. eff_return []\<rparr>,
     le_Lock = \<lambda>_ _. eff_return (), le_Unlock = \<lambda>_ _ w. w, le_Get = \<lambda>_ w. (''/src'', w), le_Walk = \<lambda>_ _. [],
     le_Send = \<lambda>_. eff_return (), le_IsCancellation = \<lambda>e. e = EContextCanceled\<rparr>"

theorem lb_exhausted_run_hangs_witness:
  "lb_processRun toy_hasher list_workers toy_env \<lparr>lm_ConcurrencyKey = [], lm_ConcurrencyLimit = 0\<rparr> toy_meta
     \<lparr>lr_srv = toy_lb, lr_world = (), lr_reader = NewChunkReader []\<rparr> = Blocks"
proof -
  let ?d = "\<lparr>Index = \<lparr>Runtime = ''nodejs_v8'', SourceHash = ''src'', UserID = ''u''\<rparr>, Environment = [],
     Entrypoint = [], MCPU = 0, Async = 0\<rparr>"
  have d: "CreateDefinitionFromScriptMeta toy_meta = Returns ?d"
    by (simp add: CreateDefinitionFromScriptMeta_def toy_meta_def sm_GetOptions_def no_options_def
        NewDefinition_eq supported_def SupportedRuntimes_def)
  have dom: "dom (map_of (lb_workers toy_lb)) = {''w'', ''v''}" by (auto simp: toy_lb_fields)
  show ?thesis
  proof (rule lb_exhausted_run_hangs [OF list_workers_documented d, where e = "EOther ''unavailable''"])
    show "workers_ready map_of (lr_srv \<lparr>lr_srv = toy_lb, lr_world = (), lr_reader = NewChunkReader []\<rparr>)"
      by (auto simp: workers_ready_def dom toy_lb_fields DefaultLbOptions_def split: if_splits)
    show "nat (WorkerRetry (lb_options (lr_srv \<lparr>lr_srv = toy_lb, lr_world = (), lr_reader = NewChunkReader []\<rparr>)))
        \<le> error_budget map_of (lr_srv \<lparr>lr_srv = toy_lb, lr_world = (), lr_reader = NewChunkReader []\<rparr>)"
      by (simp add: error_budget_def dom toy_lb_fields DefaultLbOptions_def)
  qed (simp_all add: toy_env_def toy_meta_def toy_lb_fields NewChunkReader_def IsDirty_def)
qed


text \<open>A container of the first worker is cached, then the worker is evicted.\<close>

definition toy_cached :: "((string \<times> nat) list) lb_server" where
  "toy_cached = (case w_NewContainer 0 1 0 toy_lb of
     (c, s) \<Rightarrow> addCache toy_hasher c toy_script (set_container c (\<lambda>k. k\<lparr>wc_ID := ''c1''\<rparr>) s))"

lemma toy_cached_recorded: "recorded toy_hasher toy_cached"
proof -
  obtain c s where new: "w_NewContainer 0 1 0 toy_lb = (c, s)" by force
  have "lb_cached s = []" using new by (auto simp: w_NewContainer_def Let_def toy_lb_fields)
  then have "recorded toy_hasher (set_container c (\<lambda>k. k\<lparr>wc_ID := ''c1''\<rparr>) s)"
    by (simp add: recorded_def cached_containers_def set_container_def)
  from recorded_addCache [OF this] show ?thesis by (simp add: toy_cached_def new)
qed


text \<open>
  Caching a container and removing it again undoes both maps and the worker's reference
  counts. With counts of at least one where there are any, \<open>removeCache\<close> after \<open>addCache\<close>
  finds the container and its index entry, and leaves every other cached container, every
  index count and every reference count of the worker as they were.
\<close>

theorem lb_add_remove_roundtrip:
  assumes "\<forall>n. nested_get (lb_index s) (Index_Hash h (Index d)) (w_ID (wk s (wc_Worker (wc s c)))) = Some n \<longrightarrow> 1 \<le> n"
    and "\<forall>n. map_of (w_scriptsRefCounter (wk s (wc_Worker (wc s c)))) (Definition_Hash h d) = Some n \<longrightarrow> 1 \<le> n"
    and "removeCache h (wc_Worker (wc s c)) d (wc_ID (wc s c)) (addCache h c d s) = (found, s')"
  shows "found \<and>
    (\<forall>k i. nested_get (lb_cached s') k i =
      (if k = Definition_Hash h d \<and> i = wc_ID (wc s c) then None else nested_get (lb_cached s) k i)) \<and>
    (\<forall>j w. nested_get (lb_index s') j w = nested_get (lb_index s) j w) \<and>
    map_of (w_scriptsRefCounter (wk s' (wc_Worker (wc s c)))) = map_of (w_scriptsRefCounter (wk s (wc_Worker (wc s c))))"
proof -
  let ?r = "wc_Worker (wc s c)" and ?s1 = "addCache h c d s"
  have wk1: "wk ?s1 = wk (AddCache h ?r d c s)" "w_ID (wk ?s1 ?r) = w_ID (wk s ?r)"
    by (simp_all add: addCache_def Let_def AddCache_def set_worker_def)
  have rem: "lb_index (snd (RemoveCache h r d i t)) = lb_index t" "lb_cached (snd (RemoveCache h r d i t)) = lb_cached t" for r i and t :: "'a lb_server"
    by (simp_all add: RemoveCache_def Let_def set_worker_def)
  have "wk (snd (RemoveCache h ?r d (wc_ID (wc s c)) ?s1)) = wk (snd (RemoveCache h ?r d (wc_ID (wc s c)) (AddCache h ?r d c s)))"
    by (simp add: RemoveCache_def Let_def set_worker_def wk1)
  moreover have "wk s' = wk (snd (RemoveCache h ?r d (wc_ID (wc s c)) ?s1))"
    using assms(3) by (auto simp: removeCache_def Let_def)
  moreover have "map_of (w_scriptsRefCounter (wk (snd (RemoveCache h ?r d (wc_ID (wc s c)) (AddCache h ?r d c s))) ?r)) =
      map_of (w_scriptsRefCounter (wk s ?r))"
    by (rule refcount_roundtrip [OF _ assms(2) refl refl]) (use assms(2) in force)
  ultimately have refs: "map_of (w_scriptsRefCounter (wk s' ?r)) = map_of (w_scriptsRefCounter (wk s ?r))"
    by simp
  have lb1: "lb_cached ?s1 = nested_put (Definition_Hash h d) (wc_ID (wc s c)) c (lb_cached s)"
    "lb_index ?s1 = nested_put (Index_Hash h (Index d)) (w_ID (wk s ?r))
       ((case nested_get (lb_index s) (Index_Hash h (Index d)) (w_ID (wk s ?r)) of None \<Rightarrow> 0 | Some n \<Rightarrow> n) + 1) (lb_index s)"
    by (simp_all add: addCache_def Let_def AddCache_def set_worker_def)
  show ?thesis
    using assms(1,3) refs
    by (cases "nested_get (lb_index s) (Index_Hash h (Index d)) (w_ID (wk s ?r))")
      (auto simp: removeCache_def Let_def rem lb1 wk1(2))
qed

lemma toy_cached_fields:
  "wc_Worker (wc toy_cached 0) = 0" "w_ID (wk toy_cached 0) = ''w''"
  "nested_get (lb_index toy_cached) (Index_Hash toy_hasher (Index toy_script)) ''w'' = Some 1"
  "map_of (w_scriptsRefCounter (wk toy_cached 0)) (Definition_Hash toy_hasher toy_script) = Some 1"
proof -
  define s0 where "s0 = set_container 0 (\<lambda>k. k\<lparr>wc_ID := ''c1''\<rparr>) (snd (w_NewContainer 0 1 0 toy_lb))"
  have eq: "toy_cached = addCache toy_hasher 0 toy_script s0"
    by (simp add: toy_cached_def w_NewContainer_def Let_def s0_def toy_lb_fields)
  have s0: "wc_Worker (wc s0 0) = 0" "wk s0 = wk toy_lb" "lb_index s0 = []"
    by (simp_all add: s0_def w_NewContainer_def Let_def set_container_def toy_lb_fields)
  have w: "wk toy_cached = wk (AddCache toy_hasher 0 toy_script 0 s0)"
    "lb_index toy_cached = nested_put (Index_Hash toy_hasher (Index toy_script)) (w_ID (wk s0 0)) 1 (lb_index s0)"
    by (simp_all add: eq addCache_def Let_def s0 AddCache_def set_worker_def)
  show "wc_Worker (wc toy_cached 0) = 0" by (simp add: eq addCache_def Let_def s0 AddCache_def set_worker_def)
  show "w_ID (wk toy_cached 0) = ''w''"
    "map_of (w_scriptsRefCounter (wk toy_cached 0)) (Definition_Hash toy_hasher toy_script) = Some 1"
    by (simp_all add: w AddCache_def Let_def set_worker_def s0 toy_lb_fields)
  show "nested_get (lb_index toy_cached) (Index_Hash toy_hasher (Index toy_script)) ''w'' = Some 1"
    by (simp add: w s0 toy_lb_fields)
qed

theorem lb_add_remove_roundtrip_witness:
  "\<forall>k i. nested_get (lb_cached (snd (removeCache toy_hasher 0 toy_script ''c2''
       (addCache toy_hasher 0 toy_script (set_container 0 (\<lambda>k. k\<lparr>wc_ID := ''c2''\<rparr>) toy_cached))))) k i =
     (if k = Definition_Hash toy_hasher toy_script \<and> i = ''c2'' then None else nested_get (lb_cached toy_cached) k i)"
proof -
  let ?s = "set_container 0 (\<lambda>k. k\<lparr>wc_ID := ''c2''\<rparr>) toy_cached"
  have s: "wc_Worker (wc ?s 0) = 0" "wc_ID (wc ?s 0) = ''c2''" "lb_cached ?s = lb_cached toy_cached"
    and idx: "nested_get (lb_index ?s) (Index_Hash toy_hasher (Index toy_script)) (w_ID (wk ?s 0)) = Some 1"
    and rc: "map_of (w_scriptsRefCounter (wk ?s 0)) (Definition_Hash toy_hasher toy_script) = Some 1"
    by (simp_all add: set_container_def toy_cached_fields)
  obtain found s' where rem: "removeCache toy_hasher (wc_Worker (wc ?s 0)) toy_script (wc_ID (wc ?s 0))
      (addCache toy_hasher 0 toy_script ?s) = (found, s')" by force
  have "\<forall>k i. nested_get (lb_cached s') k i =
      (if k = Definition_Hash toy_hasher toy_script \<and> i = wc_ID (wc ?s 0) then None else nested_get (lb_cached ?s) k i)"
    using lb_add_remove_roundtrip [OF _ _ rem, unfolded s(1) idx rc] by simp
  then show ?thesis unfolding rem [unfolded s(1,2), symmetric, THEN arg_cong [where f = snd], unfolded snd_conv] s(2,3) .
qed

end
