(* ===== verification/Lb_Maps.thy ===== *)
theory Lb_Maps
  imports Lb_Server
begin

text \<open>
  The two maps of the load balancer under all its handlers: no key twice, no empty inner map,
  and no count below one.
\<close>

definition maps_ok :: "'c lb_server \<Rightarrow> bool" where
  "maps_ok s \<longleftrightarrow> nested_wf (lb_cached s) \<and> nested_wf (lb_index s) \<and>
     (\<forall>idx wid n. nested_get (lb_index s) idx wid = Some n \<longrightarrow> 0 < n)"

definition same_maps :: "'c lb_server \<Rightarrow> 'c lb_server \<Rightarrow> bool" where
  "same_maps s s' \<longleftrightarrow> lb_cached s' = lb_cached s \<and> lb_index s' = lb_index s"

lemma same_maps_refl [simp]: "same_maps s s"
  by (simp add: same_maps_def)

lemma same_maps_trans: "same_maps s t \<Longrightarrow> same_maps t u \<Longrightarrow> same_maps s u"
  by (simp add: same_maps_def)

lemma same_maps_ok: "same_maps s s' \<Longrightarrow> maps_ok s \<Longrightarrow> maps_ok s'"
  by (simp add: same_maps_def maps_ok_def)

text \<open>What changes the heap of workers and containers leaves the maps alone.\<close>

lemma heap_same_maps [simp]:
  "same_maps s (set_worker r f s)" "same_maps s (set_container c g s)" "same_maps s (add_metric_CPU dcpu s)"
  "same_maps s (snd (w_reserve r m conns require s))" "same_maps s (w_release r m conns s)"
  "same_maps s (wc_Release c s)" "same_maps s (snd (w_Shutdown r s))" "same_maps s (ResetErrorCount r s)"
  "same_maps s (snd (IncreaseErrorCount r s))" "same_maps s (w_Heartbeat r mem s)" "same_maps s (snd (w_NewContainer r a m' s))"
  "same_maps s (snd (RemoveCache h r d i s))" "same_maps s (AddCache h r d c s)"
  by (simp_all add: same_maps_def set_worker_def set_container_def add_metric_CPU_def w_reserve_def w_release_def wc_Release_def
      w_Shutdown_def ResetErrorCount_def IncreaseErrorCount_def w_Heartbeat_def w_NewContainer_def RemoveCache_def AddCache_def Let_def)

lemma wc_Reserve_same_maps: "same_maps s (snd (wc_Reserve c s))"
proof -
  have "lb_cached (snd (w_reserve r m n q t)) = lb_cached t" "lb_index (snd (w_reserve r m n q t)) = lb_index t"
    for r m n q and t :: "'a lb_server"
    using heap_same_maps(4) [of t r m n q] by (simp_all add: same_maps_def)
  then show ?thesis by (simp add: same_maps_def wc_Reserve_def Let_def set_container_def case_prod_beta)
qed

lemma workers_Get_same_maps: "same_maps s (snd (workers_Get lc i s))"
  by (simp add: workers_Get_def same_maps_def split: prod.splits)

section \<open>The operations under the mutex\<close>

lemma addCache_ok: "maps_ok s \<Longrightarrow> maps_ok (addCache h c d s)"
proof -
  assume ok: "maps_ok s"
  define s1 where "s1 = AddCache h (wc_Worker (wc s c)) d c s"
  have s1: "maps_ok s1" using same_maps_ok [OF heap_same_maps(13) ok] by (simp add: s1_def)
  then have "0 < (case nested_get (lb_index s1) i w of None \<Rightarrow> 0 | Some n \<Rightarrow> n) + 1" for i w
    by (auto simp: maps_ok_def split: option.splits) (blast intro: less_imp_le)
  with s1 show ?thesis
    by (auto simp: addCache_def Let_def s1_def [symmetric] maps_ok_def nested_wf_put split: if_splits)
qed

lemma removeCache_ok: "maps_ok s \<Longrightarrow> maps_ok (snd (removeCache h r d i s))"
proof -
  assume ok: "maps_ok s"
  define s1 where "s1 = snd (RemoveCache h r d i s)"
  have "maps_ok s1" using same_maps_ok [OF heap_same_maps(12) ok] by (simp add: s1_def)
  then show ?thesis
    by (auto simp: removeCache_def Let_def s1_def [symmetric] maps_ok_def nested_wf_put nested_wf_del split: option.splits if_splits)
qed

lemma forget_def_ok: "maps_ok s \<Longrightarrow> maps_ok (forget_def h r d s)"
  by (auto simp: forget_def_def Let_def maps_ok_def nested_wf_del split: option.splits if_splits
      intro!: nested_wf_set distinct_map_filter dest: nested_wfD)

lemma evicted_ok: "maps_ok s \<Longrightarrow> maps_ok (onEvictedWorkerHandler h kr s)"
proof -
  assume ok: "maps_ok s"
  have fold: "maps_ok t \<Longrightarrow> maps_ok (fold (forget_def h r) ds t)" for r ds t
    by (induction ds arbitrary: t) (auto intro: forget_def_ok)
  have "maps_ok (s\<lparr>metric_Count := metric_Count s - 1\<rparr>)" using ok by (simp add: maps_ok_def)
  then have "maps_ok (snd (w_Shutdown r (s\<lparr>metric_Count := metric_Count s - 1\<rparr>)))" for r
    by (rule same_maps_ok [OF heap_same_maps(7)])
  then show ?thesis
    by (cases kr) (simp add: onEvictedWorkerHandler_def Let_def case_prod_beta fold)
qed

lemma workers_op_ok: "maps_ok s \<Longrightarrow> maps_ok (snd (workers_op h f s))"
proof -
  assume ok: "maps_ok s"
  have fold: "maps_ok t \<Longrightarrow> maps_ok (fold (onEvictedWorkerHandler h) ev t)" for ev t
    by (induction ev arbitrary: t) (auto intro: evicted_ok)
  have "maps_ok (s\<lparr>lb_workers := c\<rparr>)" for c using ok by (simp add: maps_ok_def)
  then show ?thesis by (auto simp: workers_op_def split: prod.splits intro!: fold)
qed

lemma handleWorkerError_ok: "maps_ok s \<Longrightarrow> maps_ok (handleWorkerError h lc is_cancel c err s)"
proof -
  assume ok: "maps_ok s"
  have "maps_ok (snd (IncreaseErrorCount r s))" for r by (rule same_maps_ok [OF heap_same_maps(9) ok])
  then show ?thesis
    using ok by (simp add: handleWorkerError_def Let_def case_prod_beta workers_op_ok)
qed

lemma finish_run_ok: "maps_ok s \<Longrightarrow> maps_ok (finish_run h d c response s)"
  by (auto simp: finish_run_def Let_def split: option.splits intro!: addCache_ok
      intro: same_maps_ok [OF heap_same_maps(2)] same_maps_ok [OF heap_same_maps(8)])

section \<open>The choice of a container\<close>

lemma pick_cached_same_maps: "pick_cached lc d bl m (s, co, fc, cpu) = (s', r) \<Longrightarrow> same_maps s s'"
proof (induction m arbitrary: s co fc cpu)
  case (Cons x m)
  obtain i c where x: "x = (i, c)" by (cases x)
  obtain known s1 where get: "workers_Get lc (w_ID (wk s (wc_Worker (wc s c)))) s = (known, s1)" by fastforce
  have s1: "same_maps s s1" using workers_Get_same_maps [of s lc "w_ID (wk s (wc_Worker (wc s c)))"] get by simp
  show ?case
  proof (cases "wc_ID (wc s c) \<in> set bl")
    case True
    with Cons x show ?thesis by (simp add: Let_def)
  next
    case False
    with Cons.prems x get have "\<exists>co fc cpu. pick_cached lc d bl m (s1, co, fc, cpu) = (s', r)"
      by (auto simp: Let_def split: if_split_asm)
    with Cons.IH s1 show ?thesis by (blast intro: same_maps_trans)
  qed
qed simp

lemma grab_loop_same_maps:
  assumes "grab_loop h lc d bl co fc s = Some x"
  shows "same_maps s (snd x)"
proof (rule grab_loop.raw_induct [OF _ assms, where P = "\<lambda>h lc d bl co fc s x. same_maps s (snd x)"])
  fix g and h and lc :: "'a workers_cache" and d bl co fc s x
  assume IH: "\<And>h lc d bl co fc s x. g h lc d bl co fc s = Some x \<Longrightarrow> same_maps s (snd x)"
    and run: "(case pick_cached lc d bl
             (case map_of (lb_cached s) (Definition_Hash h d) of None \<Rightarrow> [] | Some m \<Rightarrow> m) (s, co, fc, 0) of
        (s1, container1, fromCache1, _) \<Rightarrow>
          (case (case container1 of
                   Some c \<Rightarrow> Some (c, fromCache1, s1)
                 | None \<Rightarrow>
                     (case findWorkerWithMaxFreeCPU lc s1 of
                        None \<Rightarrow> None
                      | Some w \<Rightarrow> (case w_NewContainer w (Async d) (MCPU d) s1 of
                                     (c, s2) \<Rightarrow> Some (c, False, s2)))) of
             None \<Rightarrow> Some ((None, 0, fromCache1), s1)
           | Some (c, fromCache2, s2) \<Rightarrow>
               (case wc_Reserve c s2 of
                  (conns, s3) \<Rightarrow>
                    if 0 < conns then Some ((Some c, conns, fromCache2), s3)
                    else if wc_ID (wc s3 c) \<noteq> []
                    then g h lc d (wc_ID (wc s3 c) # bl) None fromCache2 s3
                    else g h lc d bl (Some c) fromCache2 s3))) = Some x"
  obtain s1 c1 f1 cpu where pick: "pick_cached lc d bl
      (case map_of (lb_cached s) (Definition_Hash h d) of None \<Rightarrow> [] | Some m \<Rightarrow> m) (s, co, fc, 0) = (s1, c1, f1, cpu)"
    by (metis prod_cases4)
  have s1: "same_maps s s1" using pick by (rule pick_cached_same_maps)
  define got where "got = (case c1 of Some c \<Rightarrow> Some (c, f1, s1)
     | None \<Rightarrow> (case findWorkerWithMaxFreeCPU lc s1 of None \<Rightarrow> None
                | Some w \<Rightarrow> (case w_NewContainer w (Async d) (MCPU d) s1 of (c, s2) \<Rightarrow> Some (c, False, s2))))"
  show "same_maps s (snd x)"
  proof (cases got)
    case None
    with run pick s1 show ?thesis by (auto simp: got_def [symmetric])
  next
    case (Some cfs)
    obtain c f2 s2 where got: "got = Some (c, f2, s2)" using Some by (cases cfs) auto
    have "same_maps s1 s2"
      using got heap_same_maps(11) [of s1] by (auto simp: got_def case_prod_beta split: option.splits)
    with s1 have s2: "same_maps s s2" by (rule same_maps_trans)
    obtain n s3 where res: "wc_Reserve c s2 = (n, s3)" by fastforce
    then have s3: "same_maps s s3" using wc_Reserve_same_maps [of s2 c] s2 by (auto intro: same_maps_trans)
    from run pick res got have "x = ((Some c, n, f2), s3) \<or> (\<exists>bl' co'. g h lc d bl' co' f2 s3 = Some x)"
      by (auto simp: got_def [symmetric] split: if_split_asm)
    then show ?thesis
    proof
      assume "x = ((Some c, n, f2), s3)"
      with s3 show ?thesis by simp
    next
      assume "\<exists>bl' co'. g h lc d bl' co' f2 s3 = Some x"
      then show ?thesis using IH same_maps_trans [OF s3] by blast
    qed
  qed
qed

lemma grab_same_maps:
  assumes "grabWorkerContainer h lc d s = Returns (r, s')"
  shows "same_maps s s'"
  using assms grab_loop_same_maps [of h lc d "[]" None False s]
  by (auto simp: grabWorkerContainer_def split: option.splits)

section \<open>A run\<close>

text \<open>The calls of a worker change the outside world and the reader only.\<close>

definition same_srv :: "('c, 'w) lb_run \<Rightarrow> ('c, 'w) lb_run \<Rightarrow> bool" where
  "same_srv st st' \<longleftrightarrow> lr_srv st' = lr_srv st"

lemma same_srv_intros [keeps_intros]:
  "reflp same_srv" "transp same_srv" "keeps same_srv (lr_world_proc m)" "keeps same_srv (run_on_container env c meta)"
  by (auto simp: same_srv_def reflp_def transp_def keeps_def lr_world_proc_def run_on_container_def split: outcome.splits prod.splits)

lemma processWorkerRun_same_srv: "keeps same_srv (processWorkerRun env c fromCache meta)"
proof -
  have "keeps same_srv (uploadResource env c key)" for key
    unfolding uploadResource_def le_path_def by (auto intro!: keeps_intros)
  then have "keeps same_srv (upload_resources env c keys)" for keys
    by (induction keys) (auto intro!: keeps_intros)
  then show ?thesis unfolding processWorkerRun_def by (auto intro!: keeps_intros simp del: upload_resources.simps)
qed

lemma source_same_srv: "keeps same_srv (le_Exists_source env meta)"
  unfolding le_Exists_source_def le_path_def by (auto intro!: keeps_intros)

lemma relay_all_same_srv: "keeps same_srv (relay_all env vs response)"
  by (induction vs arbitrary: response) (auto intro!: keeps_intros simp: Let_def)

abbreviation run_ok :: "('c, 'w) lb_run \<Rightarrow> bool" where
  "run_ok st \<equiv> maps_ok (lr_srv st)"

lemma run_attempts_ok:
  "run_attempts h lc env d lm meta n co ds st = Returns (r, st') \<Longrightarrow> run_ok st \<Longrightarrow> run_ok st'"
proof (induction n arbitrary: co ds st)
  case (Suc n)
  obtain co' conns fc srv where grab: "grabWorkerContainer h lc d (lr_srv st) = Returns ((co', conns, fc), srv)"
    using Suc.prems(1) by (cases "grabWorkerContainer h lc d (lr_srv st)") auto
  have srv: "maps_ok srv" using same_maps_ok [OF grab_same_maps [OF grab] Suc.prems(2)] .
  show ?case
  proof (cases co')
    case None
    with Suc.prems grab srv show ?thesis by auto
  next
    case (Some c)
    define lim where "lim \<longleftrightarrow> conns = 1 \<and> 0 < lm_ConcurrencyLimit lm"
    obtain l w where lock: "(if lim then le_Lock env (lm_ConcurrencyKey lm) (lm_ConcurrencyLimit lm) (lr_world st)
        else (Inr (), lr_world st)) = (l, w)" by fastforce
    show ?thesis
    proof (cases l)
      case (Inl e)
      with Suc.prems(1) grab Some lock srv show ?thesis by (cases lim) (auto simp: lim_def [symmetric] Let_def)
    next
      case (Inr u)
      let ?st1 = "st\<lparr>lr_srv := srv, lr_world := w\<rparr>"
      obtain q st2 where run: "processWorkerRun env c fc meta ?st1 = Returns (q, st2)"
        using Suc.prems(1) grab Some lock Inr
        by (cases "processWorkerRun env c fc meta ?st1"; cases lim) (auto simp: lim_def [symmetric] Let_def)
      then have st2: "run_ok st2" using keepsD [OF processWorkerRun_same_srv run] srv by (simp add: same_srv_def)
      show ?thesis
      proof (cases q)
        case (Inr str)
        with Suc.prems(1) grab Some lock \<open>l = Inr u\<close> run st2 show ?thesis by (cases lim) (auto simp: lim_def [symmetric] Let_def)
      next
        case (Inl err)
        let ?st3 = "st2\<lparr>lr_srv := handleWorkerError h lc (le_IsCancellation env) c err (lr_srv st2)\<rparr>"
        have st3: "run_ok ?st3" using handleWorkerError_ok [OF st2] by simp
        from Suc.prems(1) grab Some lock Inl \<open>l = Inr u\<close> run
        have "st' = ?st3 \<or> (\<exists>co ds. run_attempts h lc env d lm meta n co ds ?st3 = Returns (r, st'))"
          by (cases lim) (auto simp: lim_def [symmetric] Let_def split: if_split_asm)
        with Suc.IH st3 show ?thesis by blast
      qed
    qed
  qed
qed simp

lemma run_deferred_ok: "run_ok st \<Longrightarrow> run_ok (run_deferred env ds st)"
proof (induction env ds st rule: run_deferred.induct)
  case (2 env c ds st)
  then show ?case using same_maps_ok [OF heap_same_maps(6), of "lr_srv st" c] by simp
qed simp_all

lemma relayReponse_ok:
  assumes "relayReponse h lc env c resCh st = Returns (r, st')" "run_ok st"
  shows "run_ok st'"
proof (cases resCh)
  case None
  with assms(1) show ?thesis by (simp add: relayReponse_def)
next
  case (Some str)
  obtain vs final w where resp: "rpc_Responses (le_rpc env) str (lr_world st) = ((vs, final), w)" by (metis prod.exhaust)
  obtain q st1 where relay: "relay_all env vs None (st\<lparr>lr_world := w\<rparr>) = Returns (q, st1)"
    using assms(1) Some resp by (auto simp: relayReponse_def elim!: andThen_ReturnsE)
  then have st1: "run_ok st1" using keepsD [OF relay_all_same_srv relay] assms(2) by (simp add: same_srv_def)
  have "run_ok (st1\<lparr>lr_srv := handleWorkerError h lc (le_IsCancellation env) c final (lr_srv st1)\<rparr>)"
    using handleWorkerError_ok [OF st1] by simp
  with assms(1) Some resp relay st1 show ?thesis
    by (auto simp: relayReponse_def proc_eval lr_srv_modify_def split: sum.splits prod.splits if_splits)
qed

lemma processRun_ok:
  assumes "lb_processRun h lc env lbMeta meta st = Returns (r, st')" "run_ok st"
  shows "run_ok st'"
proof -
  obtain d where d: "CreateDefinitionFromScriptMeta meta = Returns d"
    using assms(1) by (cases "CreateDefinitionFromScriptMeta meta") (auto simp: lb_processRun_def)
  obtain q st0 where src: "le_Exists_source env meta st = Returns (q, st0)"
    using assms(1) d by (auto simp: lb_processRun_def elim!: andThen_ReturnsE)
  have st0: "run_ok st0" using keepsD [OF source_same_srv src] assms(2) by (simp add: same_srv_def)
  show ?thesis
  proof (cases "q = Inr True")
    case False
    with assms(1) d src st0 show ?thesis by (cases q) (auto simp: lb_processRun_def proc_eval)
  next
    case True
    obtain res ds st1 where tries: "run_attempts h lc env d lbMeta meta (nat (WorkerRetry (lb_options (lr_srv st0)))) None [] st0
        = Returns ((res, ds), st1)"
      using assms(1) d src True by (auto simp: lb_processRun_def proc_eval elim!: bind_outcome_ReturnsE)
    have st1: "run_ok st1" using run_attempts_ok [OF tries st0] .
    show ?thesis
    proof (cases res)
      case (RunError e)
      with assms(1) d src True tries st1 show ?thesis
        by (auto simp: lb_processRun_def proc_eval with_deferred_def intro: run_deferred_ok)
    next
      case (RunStream co resCh)
      obtain q2 st2 where relay: "relayReponse h lc env (the co) resCh st1 = Returns (q2, st2)"
        using assms(1) d src True tries RunStream by (auto simp: lb_processRun_def proc_eval elim!: bind_outcome_ReturnsE)
      have st2: "run_ok st2" using relayReponse_ok [OF relay st1] .
      then have "run_ok (st2\<lparr>lr_srv := finish_run h d (the co) response (lr_srv st2)\<rparr>)" for response
        using finish_run_ok by simp
      with assms(1) d src True tries RunStream relay st2 show ?thesis
        by (auto simp: lb_processRun_def proc_eval with_deferred_def split: sum.splits intro: run_deferred_ok)
    qed
  qed
qed

section \<open>All handlers\<close>

text \<open>
  The steps of the load balancer: the handlers, the parts of a run that other calls can come
  between (the choice of a container, a worker's error, the end of the run, a release), and
  workers that leave the cache by themselves.
\<close>

inductive lb_step ::
  "hasher \<Rightarrow> 'c workers_cache \<Rightarrow> 'w lb_env \<Rightarrow> 'c lb_server \<times> 'w \<Rightarrow> 'c lb_server \<times> 'w \<Rightarrow> bool"
  for h lc env where
  run: "lb_Run h lc env ins (s, w) = Returns (r, (s', w')) \<Longrightarrow> lb_step h lc env (s, w) (s', w')"
| grab: "grabWorkerContainer h lc d s = Returns (r, s') \<Longrightarrow> lb_step h lc env (s, w) (s', w)"
| worker_error: "lb_step h lc env (s, w) (handleWorkerError h lc (le_IsCancellation env) c err s, w)"
| finish: "lb_step h lc env (s, w) (finish_run h d c response s, w)"
| release: "lb_step h lc env (s, w) (wc_Release c s, w)"
| removed: "lb_ContainerRemoved h lc req s = Returns (r, s') \<Longrightarrow> lb_step h lc env (s, w) (s', w)"
| register: "lb_Register h lc dial_ok peer rreq s = Returns (r, s') \<Longrightarrow> lb_step h lc env (s, w) (s', w)"
| heartbeat: "lb_Heartbeat lc wid mem s = Returns (r, s') \<Longrightarrow> lb_step h lc env (s, w) (s', w)"
| disconnect: "lb_Disconnect h lc wid s = Returns (r, s') \<Longrightarrow> lb_step h lc env (s, w) (s', w)"
| delete: "lb_Delete h lc (le_rpc env) dreq (s, w) = (r, (s', w')) \<Longrightarrow> lb_step h lc env (s, w) (s', w')"
| expire: "lb_step h lc env (s, w) (snd (workers_op h (lc_Delete lc wid) s), w)"

lemma delete_on_workers_same_maps:
  "delete_on_workers lc rpc req m acc (s, w) = (r, (s', w')) \<Longrightarrow> same_maps s s'"
proof (induction m arbitrary: acc s w)
  case (Cons x m)
  obtain wid n where x: "x = (wid, n)" by (cases x)
  obtain ids err where acc: "acc = (ids, err)" by (cases acc)
  obtain k s1 where get: "workers_Get lc wid s = (k, s1)" by fastforce
  have s1: "same_maps s s1" using workers_Get_same_maps [of s lc wid] get by simp
  from Cons.prems x acc get have "\<exists>acc w. delete_on_workers lc rpc req m acc (s1, w) = (r, (s', w'))"
    by (auto split: option.splits prod.splits sum.splits)
  with Cons.IH s1 show ?case by (blast intro: same_maps_trans)
qed simp

lemma register_ok: "lb_Register h lc dial_ok peer req s = Returns (r, s') \<Longrightarrow> maps_ok s \<Longrightarrow> maps_ok s'"
proof -
  assume run: "lb_Register h lc dial_ok peer req s = Returns (r, s')" and ok: "maps_ok s"
  obtain x s1 where new: "NewWorker dial_ok (rg_Id req) (peer, rg_Port req) (rg_Mcpu req) (rg_DefaultMcpu req) (rg_Memory req)
      (s\<lparr>metric_Count := metric_Count s + 1\<rparr>) = Returns (x, s1)"
    using run by (auto simp: lb_Register_def elim!: bind_outcome_ReturnsE)
  then have "same_maps s s1" by (auto simp: NewWorker_def same_maps_def add_metric_CPU_def Let_def split: if_splits)
  then have "maps_ok s1" using ok by (rule same_maps_ok)
  with run new show ?thesis by (auto simp: lb_Register_def workers_op_ok)
qed

lemma lb_Run_ok:
  assumes "lb_Run h lc env ins (s, w) = Returns (r, (s', w'))" "maps_ok s"
  shows "maps_ok s'"
proof -
  obtain q rest where metas: "lb_read_metas ins None None = (q, rest)" by fastforce
  show ?thesis
  proof (cases "\<exists>lm sm. q = Inr (Some lm, Some sm)")
    case True
    with assms(1) metas obtain lm sm st where "s' = lr_srv st"
      "lb_processRun h lc env lm (default_mcpu (DefaultScriptMcpu (lb_options s)) sm)
        \<lparr>lr_srv = s, lr_world = w, lr_reader = NewChunkReader (map lb_chunk rest)\<rparr> = Returns (r, st)"
      by (auto simp: lb_Run_def elim!: bind_outcome_ReturnsE)
    with assms(2) processRun_ok show ?thesis by fastforce
  next
    case False
    with assms metas show ?thesis by (auto simp: lb_Run_def split: sum.splits option.splits)
  qed
qed

lemma lb_step_ok:
  assumes "lb_step h lc env p q" "maps_ok (fst p)"
  shows "maps_ok (fst q)"
  using assms
proof (cases rule: lb_step.cases)
  case (removed req s r s' w)
  obtain d where d: "CreateDefinitionFromContainerRemove req = Returns d"
    using removed(3) by (cases "CreateDefinitionFromContainerRemove req") (auto simp: lb_ContainerRemoved_def)
  obtain k s1 where get: "workers_Get lc (cr_Id req) s = (k, s1)" by fastforce
  have "maps_ok s1" using workers_Get_same_maps [of s lc "cr_Id req"] get removed(1) assms(2) by (auto intro: same_maps_ok)
  with removed d get show ?thesis by (auto simp: lb_ContainerRemoved_def removeCache_ok split: option.splits)
next
  case (heartbeat wid mem s r s' w)
  obtain k s1 where get: "workers_Get lc wid s = (k, s1)" by fastforce
  have "maps_ok s1" using workers_Get_same_maps [of s lc wid] get heartbeat(1) assms(2) by (auto intro: same_maps_ok)
  with heartbeat get show ?thesis
    by (auto simp: lb_Heartbeat_def split: option.splits intro: same_maps_ok [OF heap_same_maps(10)])
next
  case (delete dreq s w r s' w')
  then have "same_maps s s'"
    by (auto simp: lb_Delete_def Let_def split: prod.splits option.splits dest: delete_on_workers_same_maps)
  with delete assms(2) show ?thesis by (auto intro: same_maps_ok)
next
  case (disconnect wid s r s' w)
  with assms(2) show ?thesis by (auto simp: lb_Disconnect_def workers_op_ok)
qed (use assms(2) in \<open>auto intro: lb_Run_ok same_maps_ok [OF grab_same_maps] handleWorkerError_ok finish_run_ok
      same_maps_ok [OF heap_same_maps(6)] register_ok workers_op_ok\<close>)

section \<open>Properties\<close>





end
