(* ===== verification/Autoscaler.thy ===== *)
theory Autoscaler
  imports Lb_Worker
begin

text \<open>
  The autoscaler of the load balancer (cmd/autoscaler/autoscaler.go): every ten seconds it
  compares the free CPU of the workers with two thresholds and changes the number of replicas
  of their deployment by one.
\<close>

section \<open>Options\<close>

record autoscaler_options =
  UpscaleConsecutive :: int
  DownscaleConsecutive :: int
  Deployment :: string
  MinScale :: int
  MaxScale :: int
  MinFreeCPU :: u64
  MaxFreeCPU :: u64
  Cooldown :: int

definition DefaultAutoscalerOptions :: autoscaler_options where
  "DefaultAutoscalerOptions = \<lparr>UpscaleConsecutive = 2, DownscaleConsecutive = 5, Deployment = [],
     MinScale = 1, MaxScale = 8, MinFreeCPU = 6, MaxFreeCPU = 16, Cooldown = 10 * 60 * 10 ^ 9\<rparr>"

record autoscaler =
  as_url :: string
  as_token :: bytes
  as_options :: autoscaler_options

record replica_spec =
  Replicas :: int

record scale_response =
  sr_Spec :: replica_spec
  sr_Status :: replica_spec

text \<open>
  The environment: variables and files of the pod, the certificates, HTTP/2, URLs, and the
  HTTP client. A response is a handle whose body is read and closed; a failed call may have
  one too.
\<close>

record 'w autoscaler_env =
  ae_Getenv :: "string \<Rightarrow> 'w \<Rightarrow> string"
  ae_ReadFile :: "string \<Rightarrow> ('w, bytes) eff"
  ae_AppendCerts :: "bytes \<Rightarrow> bool"
  ae_ConfigureTransport :: "('w, unit) eff"
  ae_ParseURL :: "string \<Rightarrow> string result"
  ae_URLString :: "string \<Rightarrow> string list \<Rightarrow> string"
  ae_NewRequest :: "string \<Rightarrow> string \<Rightarrow> bytes \<Rightarrow> nat result"
  ae_Do :: "nat \<Rightarrow> (string, string) gomap \<Rightarrow> 'w \<Rightarrow> (nat option \<times> go_error option) \<times> 'w"
  ae_ReadAll :: "nat \<Rightarrow> ('w, bytes) eff"
  ae_Close :: "nat \<Rightarrow> ('w, unit) eff"
  ae_Unmarshal :: "bytes \<Rightarrow> scale_response result"
  ae_Now :: "'w \<Rightarrow> int"
  ae_workerCPU :: "'w \<Rightarrow> i64"
  ae_workerCount :: "'w \<Rightarrow> i64"

text \<open>\<open>path.Join\<close> of the parts is left to \<open>ae_URLString\<close>.\<close>

definition NewAutoscaler :: "'w autoscaler_env \<Rightarrow> autoscaler_options \<Rightarrow> ('w, autoscaler) eff" where
  "NewAutoscaler env options = (\<lambda>w.
     let host = ae_Getenv env ''KUBERNETES_SERVICE_HOST'' w;
         port = ae_Getenv env ''KUBERNETES_SERVICE_PORT'' w;
         dir = ''/var/run/secrets/kubernetes.io/serviceaccount/''
     in if host = [] \<or> port = [] then eff_fail (EOther ''unable to load in-cluster configuration'') w
        else eff_bind (ae_ReadFile env (dir @ ''namespace'')) (\<lambda>ns.
             eff_bind (ae_ReadFile env (dir @ ''ca.crt'')) (\<lambda>ca.
             eff_bind (ae_ReadFile env (dir @ ''token'')) (\<lambda>token.
             if \<not> ae_AppendCerts env ca then eff_fail (EOther ''certificate authority has no certificates'')
             else eff_bind (ae_ConfigureTransport env) (\<lambda>_.
             case ae_ParseURL env (''https://'' @ host @ '':'' @ port) of
               Inl e \<Rightarrow> eff_fail e
             | Inr u \<Rightarrow> eff_return
                 \<lparr>as_url = ae_URLString env u [''apis/apps/v1/namespaces'', string_of_bytes ns, ''deployments'',
                    Deployment options, ''scale''],
                  as_token = token, as_options = options\<rparr>)))) w)"

section \<open>The two calls\<close>

definition bearer :: "autoscaler \<Rightarrow> string" where
  "bearer a = ''Bearer '' @ string_of_bytes (as_token a)"

text \<open>The body is closed on every way out that has a response.\<close>

definition closing :: "'w autoscaler_env \<Rightarrow> nat option \<Rightarrow> 'a result \<times> 'w \<Rightarrow> 'a result \<times> 'w" where
  "closing env res = (\<lambda>(r, w). (r, case res of None \<Rightarrow> w | Some h \<Rightarrow> snd (ae_Close env h w)))"

definition getReplicas :: "'w autoscaler_env \<Rightarrow> autoscaler \<Rightarrow> ('w, scale_response) eff" where
  "getReplicas env a = (\<lambda>w.
     case ae_NewRequest env ''GET'' (as_url a) [] of
       Inl e \<Rightarrow> (Inl e, w)
     | Inr req \<Rightarrow>
         (case ae_Do env req [(''Authorization'', bearer a)] w of
            ((res, err), w1) \<Rightarrow> closing env res
              (case (err, res) of
                 (Some e, _) \<Rightarrow> (Inl e, w1)
               | (None, None) \<Rightarrow> (Inl (EOther ''no response''), w1)
               | (None, Some h) \<Rightarrow>
                   eff_bind (ae_ReadAll env h) (\<lambda>body. case ae_Unmarshal env body of
                      Inl e \<Rightarrow> eff_fail e | Inr spec \<Rightarrow> eff_return spec) w1)))"

definition scale_body :: "int \<Rightarrow> bytes" where
  "scale_body n = bytes_of_string (''{'' @ [CHR 0x22] @ ''spec'' @ [CHR 0x22] @ '': {'' @ [CHR 0x22] @ ''replicas'' @ [CHR 0x22]
     @ '': '' @ show_int n @ ''}}'')"

definition updateReplicas :: "'w autoscaler_env \<Rightarrow> autoscaler \<Rightarrow> int \<Rightarrow> ('w, unit) eff" where
  "updateReplicas env a updated = (\<lambda>w.
     case ae_NewRequest env ''PATCH'' (as_url a) (scale_body updated) of
       Inl e \<Rightarrow> (Inl e, w)
     | Inr req \<Rightarrow>
         (case ae_Do env req [(''Authorization'', bearer a), (''Content-Type'', ''application/merge-patch+json'')] w of
            ((res, Some e), w1) \<Rightarrow> (Inl e, w1)
          | ((None, None), w1) \<Rightarrow> (Inl (EOther ''no response''), w1)
          | ((Some h, None), w1) \<Rightarrow> ae_Close env h w1))"

section \<open>The loop\<close>

record scaler =
  sc_lastUpdate :: int
  sc_upscale :: int
  sc_downscale :: int

text \<open>
  The switch: the number of replicas to ask for if it changes, and the two counters. The gauge
  of free CPU is an \<open>int64\<close> that is read as an unsigned number.
\<close>

definition scale_switch ::
  "autoscaler_options \<Rightarrow> int \<Rightarrow> u64 \<Rightarrow> scale_response \<Rightarrow> int \<Rightarrow> scaler \<Rightarrow> int option \<times> scaler" where
  "scale_switch o' workerCount freeCPU spec now s =
     (let desired = Replicas (sr_Spec spec); cur = Replicas (sr_Status spec) in
      if workerCount = cur \<and> freeCPU < MinFreeCPU o' \<and> cur = desired then
        (if desired < MaxScale o' then
           if UpscaleConsecutive o' < sc_upscale s + 1 then (Some (desired + 1), s)
           else (None, s\<lparr>sc_upscale := sc_upscale s + 1\<rparr>)
         else (None, s))
      else if MaxFreeCPU o' < freeCPU \<and> Cooldown o' < now - sc_lastUpdate s then
        (if MinScale o' < desired then
           if DownscaleConsecutive o' < sc_downscale s + 1 then (Some (desired - 1), s)
           else (None, s\<lparr>sc_downscale := sc_downscale s + 1\<rparr>)
         else (None, s))
      else (None, s\<lparr>sc_downscale := 0, sc_upscale := 0\<rparr>))"

definition as_tick :: "'w autoscaler_env \<Rightarrow> autoscaler \<Rightarrow> scaler \<times> 'w \<Rightarrow> scaler \<times> 'w" where
  "as_tick env a = (\<lambda>(s, w).
     let workerCount = sint (ae_workerCount env w) in
     if workerCount \<le> 0 then (s, w)
     else let freeCPU = ucast (ae_workerCPU env w) in
       (case getReplicas env a w of
          (Inl e, w1) \<Rightarrow> (s, w1)
        | (Inr spec, w1) \<Rightarrow>
            (case scale_switch (as_options a) workerCount freeCPU spec (ae_Now env w1) s of
               (None, s1) \<Rightarrow> (s1, w1)
             | (Some n, s1) \<Rightarrow> (s1\<lparr>sc_lastUpdate := ae_Now env w1\<rparr>, snd (updateReplicas env a n w1)))))"

text \<open>What the loop selects: a tick, or the stop, which ends it.\<close>

datatype as_event = AsTick | AsStop

fun as_loop :: "'w autoscaler_env \<Rightarrow> autoscaler \<Rightarrow> as_event list \<Rightarrow> scaler \<times> 'w \<Rightarrow> scaler \<times> 'w" where
  "as_loop env a [] st = st"
| "as_loop env a (AsTick # es) st = as_loop env a es (as_tick env a st)"
| "as_loop env a (AsStop # es) st = st"

definition as_Start :: "'w autoscaler_env \<Rightarrow> autoscaler \<Rightarrow> as_event list \<Rightarrow> 'w \<Rightarrow> scaler \<times> 'w" where
  "as_Start env a events w = as_loop env a events (\<lparr>sc_lastUpdate = ae_Now env w, sc_upscale = 0, sc_downscale = 0\<rparr>, w)"

section \<open>Facts\<close>

lemma scale_switch_cases:
  assumes "scale_switch o' workerCount freeCPU spec now s = (Some n, s')"
  obtains (up) "n = Replicas (sr_Spec spec) + 1" "n \<le> MaxScale o'" "workerCount = Replicas (sr_Status spec)"
      "workerCount = Replicas (sr_Spec spec)" "freeCPU < MinFreeCPU o'" "UpscaleConsecutive o' \<le> sc_upscale s" "s' = s"
    | (down) "n = Replicas (sr_Spec spec) - 1" "MinScale o' \<le> n" "MaxFreeCPU o' < freeCPU"
      "Cooldown o' < now - sc_lastUpdate s" "DownscaleConsecutive o' \<le> sc_downscale s" "s' = s"
proof (cases "workerCount = Replicas (sr_Status spec) \<and> freeCPU < MinFreeCPU o' \<and> Replicas (sr_Status spec) = Replicas (sr_Spec spec)")
  case True
  with assms have "Replicas (sr_Spec spec) < MaxScale o' \<and> UpscaleConsecutive o' < sc_upscale s + 1 \<and>
      n = Replicas (sr_Spec spec) + 1 \<and> s' = s"
    by (simp add: scale_switch_def Let_def split: if_split_asm)
  with True show ?thesis by (intro up) simp_all
next
  case False
  with assms have "MaxFreeCPU o' < freeCPU \<and> Cooldown o' < now - sc_lastUpdate s \<and> MinScale o' < Replicas (sr_Spec spec) \<and>
      DownscaleConsecutive o' < sc_downscale s + 1 \<and> n = Replicas (sr_Spec spec) - 1 \<and> s' = s"
    by (simp add: scale_switch_def Let_def split: if_split_asm)
  then show ?thesis by (intro down) simp_all
qed

text \<open>A deployment whose size \<open>reps\<close> is what the calls say, and changes to what they ask for.\<close>

definition deployment_documented :: "'w autoscaler_env \<Rightarrow> autoscaler \<Rightarrow> ('w \<Rightarrow> int) \<Rightarrow> bool" where
  "deployment_documented env a reps \<longleftrightarrow>
     (\<forall>w r w'. getReplicas env a w = (r, w') \<longrightarrow> reps w' = reps w \<and> (\<forall>spec. r = Inr spec \<longrightarrow> Replicas (sr_Spec spec) = reps w)) \<and>
     (\<forall>n w r w'. updateReplicas env a n w = (r, w') \<longrightarrow> reps w' = reps w \<or> r = Inr () \<and> reps w' = n)"

definition within :: "autoscaler_options \<Rightarrow> int \<Rightarrow> bool" where
  "within o' n \<longleftrightarrow> MinScale o' \<le> n \<and> n \<le> MaxScale o'"

lemma as_tick_within:
  assumes "deployment_documented env a reps" "within (as_options a) (reps w)"
  shows "within (as_options a) (reps (snd (as_tick env a (s, w))))"
proof (cases "sint (ae_workerCount env w) \<le> 0")
  case True
  with assms(2) show ?thesis by (simp add: as_tick_def)
next
  case False
  obtain r w1 where get: "getReplicas env a w = (r, w1)" by (cases "getReplicas env a w")
  with assms(1) have w1: "reps w1 = reps w" by (auto simp: deployment_documented_def)
  show ?thesis
  proof (cases r)
    case (Inl e)
    with False get w1 assms(2) show ?thesis by (simp add: as_tick_def Let_def)
  next
    case (Inr spec)
    with assms(1) get have spec: "Replicas (sr_Spec spec) = reps w" by (auto simp: deployment_documented_def)
    obtain c s1 where sw: "scale_switch (as_options a) (sint (ae_workerCount env w)) (ucast (ae_workerCPU env w)) spec
        (ae_Now env w1) s = (c, s1)" by fastforce
    show ?thesis
    proof (cases c)
      case None
      with False get Inr sw w1 assms(2) show ?thesis by (simp add: as_tick_def Let_def)
    next
      case (Some n)
      with sw have "within (as_options a) n"
        using spec assms(2) by (auto simp: within_def elim: scale_switch_cases)
      moreover have "reps (snd (updateReplicas env a n w1)) \<in> {reps w, n}"
        using assms(1) w1 by (cases "updateReplicas env a n w1") (fastforce simp: deployment_documented_def)
      ultimately show ?thesis
        using False get Inr sw Some assms(2) by (auto simp: as_tick_def Let_def)
    qed
  qed
qed

lemma as_loop_within:
  "deployment_documented env a reps \<Longrightarrow> within (as_options a) (reps (snd st)) \<Longrightarrow>
   within (as_options a) (reps (snd (as_loop env a events st)))"
proof (induction events arbitrary: st)
  case (Cons e es)
  then show ?case using as_tick_within [of env a reps "snd st" "fst st"] by (cases e) auto
qed simp

text \<open>The counter of an upscale is not reset by it: the next tick short of CPU asks again.\<close>

lemma upscale_not_reset:
  assumes "scale_switch o' wc1 free1 spec1 now1 s = (Some (Replicas (sr_Spec spec1) + 1), s1)"
    and "wc2 = Replicas (sr_Status spec2)" "free2 < MinFreeCPU o'" "Replicas (sr_Status spec2) = Replicas (sr_Spec spec2)"
    and "Replicas (sr_Spec spec2) < MaxScale o'"
  shows "scale_switch o' wc2 free2 spec2 now2 (s1\<lparr>sc_lastUpdate := now1\<rparr>) =
    (Some (Replicas (sr_Spec spec2) + 1), s1\<lparr>sc_lastUpdate := now1\<rparr>)"
  using assms by (auto simp: scale_switch_def Let_def split: if_splits)

section \<open>Properties\<close>


text \<open>
  A deployment as a world: its size and the time. It can be set to two replicas only, and a
  worker is connected for each replica, with two millicpus free in all.
\<close>

definition toy_as_env :: "(int \<times> int) autoscaler_env" where
  "toy_as_env = \<lparr>ae_Getenv = \<lambda>_ _. ''h'', ae_ReadFile = \<lambda>_. eff_return [], ae_AppendCerts = \<lambda>_. True,
     ae_ConfigureTransport = eff_return (), ae_ParseURL = Inr, ae_URLString = \<lambda>u _. u,
     ae_NewRequest = \<lambda>verb _ body. if body = [] then Inr 0 else if body = scale_body 2 then Inr 1 else Inl ErrInvalidArgument,
     ae_Do = \<lambda>req _ (n, t). ((Some (nat n), None), if req = 0 then (n, t + 1) else (2, t + 1)),
     ae_ReadAll = \<lambda>h. eff_return (replicate h 0), ae_Close = \<lambda>_. eff_return (),
     ae_Unmarshal = \<lambda>b. Inr \<lparr>sr_Spec = \<lparr>Replicas = int (length b)\<rparr>, sr_Status = \<lparr>Replicas = int (length b)\<rparr>\<rparr>,
     ae_Now = snd, ae_workerCPU = \<lambda>_. 2, ae_workerCount = \<lambda>(n, _). word_of_int n\<rparr>"

definition toy_autoscaler :: autoscaler where
  "toy_autoscaler = \<lparr>as_url = ''u'', as_token = [], as_options = DefaultAutoscalerOptions\<rparr>"

lemma scale_body_2: "scale_body n = scale_body 2 \<longleftrightarrow> n = 2"
proof
  assume "scale_body n = scale_body 2"
  then have "string_of_bytes (scale_body n) = string_of_bytes (scale_body 2)" by simp
  then have "show_int n = show_int 2" by (simp add: scale_body_def)
  moreover have "length (show_int 2) = 1" by (simp add: show_int_def show_base.simps)
  ultimately show "n = 2"
    by (auto simp: show_int_def split: if_splits dest: show_base_inject [of 10, simplified] arg_cong [where f = length])
qed simp

lemma toy_get:
  "0 \<le> n \<Longrightarrow> getReplicas toy_as_env a (n, t) = (Inr \<lparr>sr_Spec = \<lparr>Replicas = n\<rparr>, sr_Status = \<lparr>Replicas = n\<rparr>\<rparr>, (n, t + 1))"
  by (simp add: getReplicas_def toy_as_env_def closing_def)

lemma scale_body_nonempty: "scale_body n \<noteq> []"
  by (simp add: scale_body_def bytes_of_string_def)

lemma toy_update:
  "updateReplicas toy_as_env a n w = (if n = 2 then (Inr (), (2, snd w + 1)) else (Inl ErrInvalidArgument, w))"
  by (cases w) (simp add: updateReplicas_def toy_as_env_def scale_body_2 scale_body_nonempty)


text \<open>
  An overload looks like idleness. The gauge of free CPU becomes negative when containers
  are reserved beyond the CPU of a worker, which the load balancer does when a container needs
  more than is left (it then asks for no minimum). Read as an unsigned number it is above every
  threshold, so once the cooldown is over and the count is reached the autoscaler asks for one
  replica less, and it never asks for more.
\<close>

theorem autoscaler_overload_downscales:
  assumes "sint gauge < 0" "MaxFreeCPU o' < 2 ^ 63" "MinFreeCPU o' \<le> MaxFreeCPU o'"
  shows "(\<forall>n. fst (scale_switch o' workerCount (ucast (gauge :: i64)) spec now s) = Some n \<longrightarrow> n < Replicas (sr_Spec spec)) \<and>
    (fst (scale_switch o' workerCount (ucast gauge) spec now s) = Some (Replicas (sr_Spec spec) - 1) \<longleftrightarrow>
       Cooldown o' < now - sc_lastUpdate s \<and> MinScale o' < Replicas (sr_Spec spec) \<and> DownscaleConsecutive o' \<le> sc_downscale s)"
proof -
  have "(2 ^ 63 :: u64) \<le> ucast gauge"
  proof (rule ccontr)
    assume "\<not> (2 ^ 63 :: u64) \<le> ucast gauge"
    then have "uint gauge < 2 ^ 63" by (simp add: word_le_def)
    moreover have "- (2 ^ 63) \<le> uint gauge" by (rule order_trans [OF _ uint_ge_0]) simp
    ultimately have "sint gauge = uint gauge" by (simp add: sint_uint signed_take_bit_int_eq_self)
    with assms(1) show False by (metis linorder_not_less uint_ge_0)
  qed
  then show ?thesis using assms(2,3) by (auto simp: scale_switch_def Let_def)
qed


text \<open>A worker with 100 millicpus left on which a container of 500 is reserved.\<close>

definition overbooked :: lb_heap where
  "overbooked = snd (wc_Reserve 0 \<lparr>wk = \<lambda>_. \<lparr>w_ID = ''w'', w_Addr = (''h'', 1), w_waitGroup = 0, w_mCPU = 100, w_defaultMCPU = 100,
       w_memory = 0, w_freeCPU = 100, w_freeMemory = 0, w_alive = True, w_scriptsRefCounter = [], w_scripts = [],
       w_containers = [], w_errorCount = 0\<rparr>,
     wc = \<lambda>_. \<lparr>wc_Worker = 0, wc_ID = ''c'', wc_conns = 0, wc_mCPU = 500, wc_async = 0\<rparr>,
     next_wk = 1, next_wc = 1, metric_CPU = 100, metric_Count = 1\<rparr>)"

lemma overbooked_gauge: "metric_CPU overbooked = - 400"
  by (simp add: overbooked_def wc_Reserve_def w_reserve_def set_container_def set_worker_def FreeCPU_def Alive_def
      add_metric_CPU_def Let_def)

theorem autoscaler_overload_downscales_witness:
  "fst (scale_switch DefaultAutoscalerOptions 3 (ucast (metric_CPU overbooked))
      \<lparr>sr_Spec = \<lparr>Replicas = 3\<rparr>, sr_Status = \<lparr>Replicas = 3\<rparr>\<rparr> (11 * 60 * 10 ^ 9)
      \<lparr>sc_lastUpdate = 0, sc_upscale = 0, sc_downscale = 5\<rparr>) = Some 2"
proof -
  have "sint (metric_CPU overbooked) < 0" by (simp add: overbooked_gauge)
  from autoscaler_overload_downscales [OF this, where o' = DefaultAutoscalerOptions and workerCount = 3
      and spec = "\<lparr>sr_Spec = \<lparr>Replicas = 3\<rparr>, sr_Status = \<lparr>Replicas = 3\<rparr>\<rparr>" and now = "11 * 60 * 10 ^ 9"
      and s = "\<lparr>sc_lastUpdate = 0, sc_upscale = 0, sc_downscale = 5\<rparr>"] show ?thesis
    by (simp add: DefaultAutoscalerOptions_def)
qed

end
