(* ===== verification/Lb_Cmd.thy ===== *)
theory Lb_Cmd
  imports Command_Line Lb_Maps Autoscaler Repo_Spec
begin

text \<open>
  The command \<open>lb\<close> (cmd/lb.go): its flags, the options they set, the start of the file
  repository, the server and the autoscaler, and the shutdown.
\<close>

section \<open>Flags\<close>

text \<open>
  Left out is the usage text. The defaults of the limiter are constants of its library, here
  the arguments \<open>ttl\<close> and \<open>queue\<close>.
\<close>

definition lb_flags :: "int \<Rightarrow> int \<Rightarrow> cli_flag list" where
  "lb_flags ttl queue =
     [flag ''port'' [''p''] ''PORT'' (IntFlag 9000),
      flag ''repo-path'' [''path''] ''REPO_PATH'' (StringFlag (BasePath DefaultRepoOptions)),
      flag ''repo-max-disk-usage'' [''u''] ''REPO_MAX_DISK_USAGE'' (FloatFlag (MaxDiskUsage DefaultRepoOptions)),
      flag ''repo-ttl'' [''l''] ''REPO_TTL'' (DurationFlag (TTL DefaultRepoOptions)),
      flag ''repo-capacity'' [''c''] ''REPO_CAPACITY'' (IntFlag (Capacity DefaultRepoOptions)),
      flag ''worker-keepalive'' [''k''] ''WORKER_KEEPALIVE'' (DurationFlag (WorkerKeepalive DefaultLbOptions)),
      flag ''worker-retry'' [] ''WORKER_RETRY'' (IntFlag (WorkerRetry DefaultLbOptions)),
      flag ''worker-min-ready'' [] ''WORKER_MIN_READY'' (IntFlag (WorkerMinReady DefaultLbOptions)),
      flag ''worker-error-threshold'' [] ''WORKER_ERROR_THRESHOLD'' (UintFlag (of_nat (WorkerErrorThreshold DefaultLbOptions))),
      flag ''default-script-mcpu'' [] ''DEFAULT_SCRIPT_MCPU'' (UintFlag (DefaultScriptMcpu DefaultLbOptions)),
      flag ''limiter-ttl'' [] ''LIMITER_TTL'' (DurationFlag ttl),
      flag ''limiter-queue'' [] ''LIMITER_QUEUE'' (IntFlag queue),
      flag ''scaling-enabled'' [] ''SCALING_ENABLED'' (BoolFlag False),
      flag ''scaling-deployment'' [] ''SCALING_DEPLOYMENT'' (StringFlag (Deployment DefaultAutoscalerOptions)),
      flag ''scaling-cooldown'' [] ''SCALING_COOLDOWN'' (DurationFlag (Cooldown DefaultAutoscalerOptions)),
      flag ''scaling-min'' [] ''SCALING_MIN'' (IntFlag (MinScale DefaultAutoscalerOptions)),
      flag ''scaling-max'' [] ''SCALING_MAX'' (IntFlag (MaxScale DefaultAutoscalerOptions)),
      flag ''scaling-freecpu-min'' [] ''SCALING_FREECPU_MIN'' (UintFlag (MinFreeCPU DefaultAutoscalerOptions)),
      flag ''scaling-freecpu-max'' [] ''SCALING_FREECPU_MAX'' (UintFlag (MaxFreeCPU DefaultAutoscalerOptions))]"

text \<open>
  The structs the flags write to. They start out zero, and a field without a flag stays so.
\<close>

record lb_settings =
  ls_repo :: repo_options
  ls_lb :: lb_options
  ls_scaler :: autoscaler_options

definition lb_settings_of :: "cli_context \<Rightarrow> lb_settings" where
  "lb_settings_of c =
     \<lparr>ls_repo = \<lparr>BasePath = flag_string (c ''repo-path''), MaxDiskUsage = flag_int (c ''repo-max-disk-usage''),
        TTL = flag_int (c ''repo-ttl''), Capacity = flag_int (c ''repo-capacity''), CleanupInterval = 0,
        StoreLockTimeout = 0\<rparr>,
      ls_lb = \<lparr>WorkerRetry = flag_int (c ''worker-retry''), WorkerKeepalive = flag_int (c ''worker-keepalive''),
        WorkerMinReady = flag_int (c ''worker-min-ready''),
        WorkerErrorThreshold = unat (flag_uint (c ''worker-error-threshold'')),
        DefaultScriptMcpu = flag_uint (c ''default-script-mcpu'')\<rparr>,
      ls_scaler = \<lparr>UpscaleConsecutive = 0, DownscaleConsecutive = 0, Deployment = flag_string (c ''scaling-deployment''),
        MinScale = flag_int (c ''scaling-min''), MaxScale = flag_int (c ''scaling-max''),
        MinFreeCPU = flag_uint (c ''scaling-freecpu-min''), MaxFreeCPU = flag_uint (c ''scaling-freecpu-max''),
        Cooldown = flag_int (c ''scaling-cooldown'')\<rparr>\<rparr>"

section \<open>The process\<close>

text \<open>
  The repository carries the outside world; the gauges the autoscaler reads are those of the
  server.
\<close>

record ('f, 'c, 'w) lb_main =
  lm_repo :: "('f, 'w) fs_repo"
  lm_server :: "'c lb_server"
  lm_listener :: nat
  lm_scaler :: "(autoscaler \<times> scaler) option"

record ('f, 'c, 'w) lb_main_env =
  lv_repo_merge :: "repo_options \<Rightarrow> repo_options \<Rightarrow> repo_options"
  lv_lb_merge :: "lb_options \<Rightarrow> lb_options \<Rightarrow> lb_options"
  lv_fs :: "'w fs_env"
  lv_files :: "('f, string) lru_cache"
  lv_no_files :: 'f
  lv_no_workers :: 'c
  lv_heap :: lb_heap
  lv_Listen :: "int \<Rightarrow> ('w, nat) eff"
  lv_GracefulStop :: "('w, unit) eff"
  lv_autoscaler :: "'w autoscaler_env"

definition lb_start ::
  "('f, 'c, 'w) lb_main_env \<Rightarrow> cli_context \<Rightarrow> 'w \<Rightarrow> (('f, 'c, 'w) lb_main result \<times> 'w) outcome" where
  "lb_start env c w =
     (let o' = lb_settings_of c in
      bind_outcome (NewRepo (lv_repo_merge env) (Some (ls_repo o')) (lv_fs env) (lv_no_files env) w) (\<lambda>repo.
      let server = NewServer (lv_lb_merge env) (Some (ls_lb o')) (lv_no_workers env) (lv_heap env) in
      case lv_Listen env (flag_int (c ''port'')) (fs_world repo) of
        (Inl e, w1) \<Rightarrow> Returns (Inl e, w1)
      | (Inr lis, w1) \<Rightarrow>
          let m = \<lparr>lm_repo = repo\<lparr>fs_world := w1\<rparr>, lm_server = server, lm_listener = lis, lm_scaler = None\<rparr> in
          if flag_bool (c ''scaling-enabled'') then
            (case NewAutoscaler (lv_autoscaler env) (ls_scaler o') w1 of
               (Inl e, w2) \<Rightarrow> Returns (Inl e, w2)
             | (Inr a, w2) \<Rightarrow> Returns (Inr (m\<lparr>lm_repo := repo\<lparr>fs_world := w2\<rparr>,
                 lm_scaler := Some (a, fst (as_Start (lv_autoscaler env) a [] w2))\<rparr>), w2))
          else Returns (Inr m, w1)))"

definition scaler_env :: "'w autoscaler_env \<Rightarrow> 'c lb_server \<Rightarrow> 'w autoscaler_env" where
  "scaler_env env s = env\<lparr>ae_workerCPU := \<lambda>_. metric_CPU s, ae_workerCount := \<lambda>_. metric_Count s\<rparr>"

definition lb_tick :: "('f, 'c, 'w) lb_main_env \<Rightarrow> ('f, 'c, 'w) lb_main \<Rightarrow> ('f, 'c, 'w) lb_main" where
  "lb_tick env m =
     (case lm_scaler m of
        None \<Rightarrow> m
      | Some (a, s) \<Rightarrow>
          (case as_tick (scaler_env (lv_autoscaler env) (lm_server m)) a (s, fs_world (lm_repo m)) of
             (s', w') \<Rightarrow> m\<lparr>lm_repo := (lm_repo m)\<lparr>fs_world := w'\<rparr>, lm_scaler := Some (a, s')\<rparr>))"

text \<open>The two HTTP checks: the status.\<close>

definition lb_health :: "('f, 'c, 'w) lb_main \<Rightarrow> int" where "lb_health m = 200"
definition lb_ready :: "('f, 'c, 'w) lb_main \<Rightarrow> int" where "lb_ready m = lb_ReadyHandler (lm_server m)"

text \<open>The shutdown after a signal; the deferred \<open>close\<close> stops the autoscaler last.\<close>

definition on_lm_repo :: "(('f, 'w) fs_repo, 'a) proc \<Rightarrow> (('f, 'c, 'w) lb_main, 'a) proc" where
  "on_lm_repo p = (\<lambda>m. case p (lm_repo m) of
     Returns (r, u) \<Rightarrow> Returns (r, m\<lparr>lm_repo := u\<rparr>) | Panics \<Rightarrow> Panics | Blocks \<Rightarrow> Blocks)"

definition lb_stop :: "('f, 'c, 'w) lb_main_env \<Rightarrow> (('f, 'c, 'w) lb_main, unit) proc" where
  "lb_stop env =
     andThen (attempt (on_lm_repo (on_fs (lv_GracefulStop env)))) (\<lambda>_.
     andThen (modify (\<lambda>m. m\<lparr>lm_server := lb_Shutdown (lm_server m)\<rparr>)) (\<lambda>_.
     andThen (on_lm_repo (repo_Shutdown (lv_files env) (lv_fs env))) (\<lambda>_.
     modify (\<lambda>m. m\<lparr>lm_scaler := None\<rparr>))))"

text \<open>
  The life of the process between both: calls of the server, in any order and interleaved,
  and ticks of the autoscaler.
\<close>

inductive lb_main_step ::
  "hasher \<Rightarrow> 'c workers_cache \<Rightarrow> 'w lb_env \<Rightarrow> ('f, 'c, 'w) lb_main_env \<Rightarrow> ('f, 'c, 'w) lb_main \<Rightarrow> ('f, 'c, 'w) lb_main \<Rightarrow> bool"
  for h lc lenv env where
  serve: "lb_step h lc lenv (lm_server m, fs_world (lm_repo m)) (s', w') \<Longrightarrow>
    lb_main_step h lc lenv env m (m\<lparr>lm_server := s', lm_repo := (lm_repo m)\<lparr>fs_world := w'\<rparr>\<rparr>)"
| tick: "lb_main_step h lc lenv env m (lb_tick env m)"

section \<open>Facts\<close>

lemma lb_start_cases:
  assumes "lb_start env c w = Returns (Inr m, w')"
  obtains repo where "NewRepo (lv_repo_merge env) (Some (ls_repo (lb_settings_of c))) (lv_fs env) (lv_no_files env) w = Returns repo"
    "repo_options (lm_repo m) = repo_options repo" "storeID (lm_repo m) = storeID repo"
    "lm_server m = NewServer (lv_lb_merge env) (Some (ls_lb (lb_settings_of c))) (lv_no_workers env) (lv_heap env)"
    "case lm_scaler m of None \<Rightarrow> \<not> flag_bool (c ''scaling-enabled'')
     | Some (a, s) \<Rightarrow> flag_bool (c ''scaling-enabled'') \<and> as_options a = ls_scaler (lb_settings_of c) \<and>
         sc_upscale s = 0 \<and> sc_downscale s = 0"
proof -
  have opts: "as_options a = o'" if "NewAutoscaler ae o' w1 = (Inr a, w2)" for ae o' w1 a w2
    using that by (auto simp: NewAutoscaler_def Let_def split: if_splits prod.splits sum.splits elim!: eff_bind_InrE)
  obtain repo where "NewRepo (lv_repo_merge env) (Some (ls_repo (lb_settings_of c))) (lv_fs env) (lv_no_files env) w = Returns repo"
    using assms by (auto simp: lb_start_def Let_def elim!: bind_outcome_ReturnsE)
  with assms that show ?thesis
    by (auto simp: lb_start_def Let_def as_Start_def dest: opts split: if_splits prod.splits sum.splits)
qed

text \<open>
  \<open>mergo.Merge\<close> with \<open>WithOverride\<close>: the fields of the second struct that are not zero replace
  those of the first.
\<close>

definition override :: "'a::zero \<Rightarrow> 'a \<Rightarrow> 'a" where
  "override d x = (if x = 0 then d else x)"

definition override_list :: "'a list \<Rightarrow> 'a list \<Rightarrow> 'a list" where
  "override_list d x = (if x = [] then d else x)"

definition merge_repo :: "repo_options \<Rightarrow> repo_options \<Rightarrow> repo_options" where
  "merge_repo d x =
     \<lparr>BasePath = override_list (BasePath d) (BasePath x), MaxDiskUsage = override (MaxDiskUsage d) (MaxDiskUsage x),
      TTL = override (TTL d) (TTL x), Capacity = override (Capacity d) (Capacity x),
      CleanupInterval = override (CleanupInterval d) (CleanupInterval x),
      StoreLockTimeout = override (StoreLockTimeout d) (StoreLockTimeout x)\<rparr>"

definition merge_lb :: "lb_options \<Rightarrow> lb_options \<Rightarrow> lb_options" where
  "merge_lb d x =
     \<lparr>WorkerRetry = override (WorkerRetry d) (WorkerRetry x), WorkerKeepalive = override (WorkerKeepalive d) (WorkerKeepalive x),
      WorkerMinReady = override (WorkerMinReady d) (WorkerMinReady x),
      WorkerErrorThreshold = override (WorkerErrorThreshold d) (WorkerErrorThreshold x),
      DefaultScriptMcpu = override (DefaultScriptMcpu d) (DefaultScriptMcpu x)\<rparr>"

definition merges_documented :: "('f, 'c, 'w) lb_main_env \<Rightarrow> bool" where
  "merges_documented env \<longleftrightarrow> lv_repo_merge env = merge_repo \<and> lv_lb_merge env = merge_lb"

lemma NewServer_fields:
  "lb_options (NewServer merge opts c hp) = (case opts of None \<Rightarrow> DefaultLbOptions | Some o' \<Rightarrow> merge DefaultLbOptions o')"
  "metric_Count (NewServer merge opts c hp) = metric_Count hp"
  by (simp_all add: NewServer_def lb_heap.defs)

lemma NewRepo_options:
  "NewRepo merge (Some o') fs c w = Returns r \<Longrightarrow> repo_options r = merge DefaultRepoOptions o'"
  by (auto simp: NewRepo_def Let_def split: prod.splits sum.splits)

lemma scaler_env_calls:
  "ae_NewRequest (scaler_env ae s) = ae_NewRequest ae" "ae_Do (scaler_env ae s) = ae_Do ae"
  "ae_ReadAll (scaler_env ae s) = ae_ReadAll ae" "ae_Close (scaler_env ae s) = ae_Close ae"
  "ae_Unmarshal (scaler_env ae s) = ae_Unmarshal ae"
  "ae_workerCPU (scaler_env ae s) w = metric_CPU s" "ae_workerCount (scaler_env ae s) w = metric_Count s"
  by (simp_all add: scaler_env_def)

lemma closing_scaler_env: "closing (scaler_env ae s) res x = closing ae res x"
  unfolding closing_def scaler_env_calls ..

lemma getReplicas_scaler_env: "getReplicas (scaler_env ae s) a = getReplicas ae a"
  unfolding getReplicas_def scaler_env_calls closing_scaler_env ..

lemma updateReplicas_scaler_env: "updateReplicas (scaler_env ae s) a n = updateReplicas ae a n"
  unfolding updateReplicas_def scaler_env_calls ..

text \<open>The options of the autoscaler do not change, and its counters are never negative.\<close>

definition scaler_kept :: "autoscaler_options \<Rightarrow> ('f, 'c, 'w) lb_main \<Rightarrow> bool" where
  "scaler_kept o' m \<longleftrightarrow> (case lm_scaler m of None \<Rightarrow> True
     | Some (a, s) \<Rightarrow> as_options a = o' \<and> 0 \<le> sc_upscale s \<and> 0 \<le> sc_downscale s)"

lemma scale_switch_counters:
  "scale_switch o' n free spec now s = (c, s') \<Longrightarrow> 0 \<le> sc_upscale s \<Longrightarrow> 0 \<le> sc_downscale s \<Longrightarrow>
   0 \<le> sc_upscale s' \<and> 0 \<le> sc_downscale s'"
  by (auto simp: scale_switch_def Let_def split: if_splits)

lemma as_tick_counters:
  assumes "as_tick env a (s, w) = (s', w')" "0 \<le> sc_upscale s" "0 \<le> sc_downscale s"
  shows "0 \<le> sc_upscale s' \<and> 0 \<le> sc_downscale s'"
  using assms
  by (auto simp: as_tick_def Let_def split: if_splits prod.splits sum.splits option.splits dest!: scale_switch_counters)

lemma scaler_kept_step:
  assumes "lb_main_step h lc lenv env m m'" "scaler_kept o' m"
  shows "scaler_kept o' m'"
  using assms
proof cases
  case tick
  with assms(2) show ?thesis
    by (auto simp: lb_tick_def scaler_kept_def split: option.splits prod.splits dest: as_tick_counters)
qed (simp add: scaler_kept_def)

lemma scaler_kept_steps:
  "(lb_main_step h lc lenv env)\<^sup>*\<^sup>* m m' \<Longrightarrow> scaler_kept o' m \<Longrightarrow> scaler_kept o' m'"
  by (induction rule: rtranclp_induct) (auto intro: scaler_kept_step)

section \<open>Properties\<close>

text \<open>
  C32: the autoscaler of the load balancer has no patience. The numbers of consecutive ticks
  after which it scales, two and five by default, have no flag, and the struct the flags fill
  is used as it is: whatever the command line says, and whatever has happened since the
  start, one tick that finds all replicas connected and too little free CPU asks for another.
\<close>

theorem lb_scales_at_once:
  assumes start: "lb_start env c w = Returns (Inr m0, w0)"
    and steps: "(lb_main_step h lc lenv env)\<^sup>*\<^sup>* m0 m" "lm_scaler m = Some (a, s)"
    and spec: "getReplicas (lv_autoscaler env) a (fs_world (lm_repo m)) = (Inr spec, w1)"
    and all: "0 < sint (metric_Count (lm_server m))" "sint (metric_Count (lm_server m)) = Replicas (sr_Status spec)"
      "Replicas (sr_Status spec) = Replicas (sr_Spec spec)"
    and low: "ucast (metric_CPU (lm_server m)) < MinFreeCPU (as_options a)" "Replicas (sr_Spec spec) < MaxScale (as_options a)"
  shows "fs_world (lm_repo (lb_tick env m)) =
    snd (updateReplicas (lv_autoscaler env) a (Replicas (sr_Spec spec) + 1) w1)"
proof -
  have "scaler_kept (ls_scaler (lb_settings_of c)) m0"
    using start by (elim lb_start_cases) (auto simp: scaler_kept_def split: option.splits)
  from scaler_kept_steps [OF steps(1) this] steps(2)
  have kept: "UpscaleConsecutive (as_options a) = 0" "0 \<le> sc_upscale s"
    by (auto simp: scaler_kept_def lb_settings_of_def)
  have "scale_switch (as_options a) (sint (metric_Count (lm_server m))) (ucast (metric_CPU (lm_server m))) spec now s =
      (Some (Replicas (sr_Spec spec) + 1), s)" for now
    using all low kept by (simp add: scale_switch_def Let_def)
  with steps(2) spec all(1) show ?thesis
    by (simp add: lb_tick_def as_tick_def Let_def getReplicas_scaler_env updateReplicas_scaler_env scaler_env_calls)
qed

text \<open>
  A load balancer started without flags has the default options, and a flag that is set
  to zero is taken for one that is not set: told to be ready without any worker, it still
  wants one.
\<close>

theorem lb_flags_default:
  assumes doc: "merges_documented env" "cli_documented (lb_flags ttl queue) given c"
    and start: "lb_start env c w = Returns (Inr m, w')"
    and given: "given = Map.empty \<or> given = [''worker-min-ready'' \<mapsto> IntFlag 0]"
    and fresh: "metric_Count (lv_heap env) = 0"
  shows "repo_options (lm_repo m) = DefaultRepoOptions \<and> lb_options (lm_server m) = DefaultLbOptions \<and>
    lb_ready m = 400"
proof -
  note dflt = cli_defaultD [OF doc(2)]
  have c: "c ''repo-path'' = StringFlag (BasePath DefaultRepoOptions)"
    "c ''repo-max-disk-usage'' = FloatFlag (MaxDiskUsage DefaultRepoOptions)"
    "c ''repo-ttl'' = DurationFlag (TTL DefaultRepoOptions)" "c ''repo-capacity'' = IntFlag (Capacity DefaultRepoOptions)"
    "c ''worker-keepalive'' = DurationFlag (WorkerKeepalive DefaultLbOptions)"
    "c ''worker-retry'' = IntFlag (WorkerRetry DefaultLbOptions)"
    "c ''worker-error-threshold'' = UintFlag (of_nat (WorkerErrorThreshold DefaultLbOptions))"
    "c ''default-script-mcpu'' = UintFlag (DefaultScriptMcpu DefaultLbOptions)"
    by (rule dflt, force simp: lb_flags_def, use given in force)+
  have "c ''worker-min-ready'' = IntFlag (WorkerMinReady DefaultLbOptions) \<or> c ''worker-min-ready'' = IntFlag 0"
    using given
  proof
    assume "given = Map.empty"
    then show ?thesis by (intro disjI1 dflt) (force simp: lb_flags_def, simp)
  next
    assume "given = [''worker-min-ready'' \<mapsto> IntFlag 0]"
    with doc(2) show ?thesis by (force simp: cli_documented_def lb_flags_def flag_def)
  qed
  then have min: "override (WorkerMinReady DefaultLbOptions) (flag_int (c ''worker-min-ready'')) = 1"
    by (auto simp: override_def DefaultLbOptions_def)
  obtain repo where repo: "NewRepo (lv_repo_merge env) (Some (ls_repo (lb_settings_of c))) (lv_fs env) (lv_no_files env) w = Returns repo"
    "repo_options (lm_repo m) = repo_options repo"
    and srv: "lm_server m = NewServer (lv_lb_merge env) (Some (ls_lb (lb_settings_of c))) (lv_no_workers env) (lv_heap env)"
    using lb_start_cases [OF start] by metis
  have "lb_options (lm_server m) = DefaultLbOptions"
    using doc(1) min c by (simp add: srv NewServer_fields merges_documented_def merge_lb_def lb_settings_of_def)
      (simp add: DefaultLbOptions_def override_def)
  moreover have "repo_options (lm_repo m) = DefaultRepoOptions"
    using NewRepo_options [OF repo(1)] doc(1) c
    by (simp add: repo(2) merges_documented_def merge_repo_def lb_settings_of_def)
      (simp add: DefaultRepoOptions_def override_def override_list_def)
  ultimately show ?thesis
    using fresh by (simp add: lb_ready_def lb_ReadyHandler_def srv NewServer_fields DefaultLbOptions_def)
qed

text \<open>
  C29: the shutdown of the load balancer leaves nothing behind. When it returns, no file and no
  volume is stored, the directory of the repository was removed as the last thing done to the
  file system, the gauge of workers is zero and the autoscaler is stopped.
\<close>

theorem lb_stop_leaves_nothing:
  assumes "lru_documented (lv_files env) ent" "lb_stop env m = Returns (r, m')"
  shows "r = Inr () \<and> ent (fileCache (lm_repo m')) = (\<lambda>_. None) \<and> permStore (lm_repo m') = [] \<and>
    volumes (lm_repo m') = [] \<and> metric_Count (lm_server m') = 0 \<and> lm_scaler m' = None \<and>
    (\<exists>w. fs_RemoveAll (lv_fs env) (StoragePath (lm_repo m)) w = (Inr (), fs_world (lm_repo m')))"
proof -
  obtain g w1 where gs: "lv_GracefulStop env (fs_world (lm_repo m)) = (g, w1)" by fastforce
  let ?m1 = "m\<lparr>lm_repo := (lm_repo m)\<lparr>fs_world := w1\<rparr>, lm_server := lb_Shutdown (lm_server m)\<rparr>"
  have eq: "lb_stop env m = andThen (on_lm_repo (repo_Shutdown (lv_files env) (lv_fs env))) (\<lambda>_.
      modify (\<lambda>m. m\<lparr>lm_scaler := None\<rparr>)) ?m1"
    by (simp add: lb_stop_def proc_eval on_lm_repo_def on_fs_run [where m = "lv_GracefulStop env", OF gs] cong: outcome.case_cong)
  obtain x u where run: "repo_Shutdown (lv_files env) (lv_fs env) (lm_repo ?m1) = Returns (x, u)"
    using assms(2) unfolding eq by (cases "repo_Shutdown (lv_files env) (lv_fs env) (lm_repo ?m1)")
      (auto simp: on_lm_repo_def proc_simps)
  note sd = repo_Shutdown_run [OF assms(1) run]
  have "m' = ?m1\<lparr>lm_repo := u, lm_scaler := None\<rparr>" "r = Inr ()"
    using assms(2) run sd(1) unfolding eq by (auto simp: on_lm_repo_def proc_simps)
  with sd show ?thesis by (simp add: lb_Shutdown_def StoragePath_def)
qed


section \<open>Witnesses\<close>

text \<open>A world that is the deployment of the autoscaler; files are stored nowhere.\<close>

definition toy_main_fs :: "'w fs_env" where
  "toy_main_fs = \<lparr>fs_MkdirAll = \<lambda>p. eff_return (), fs_Mkdir = \<lambda>p. eff_return (),
     fs_Create = \<lambda>p. eff_return 1, fs_Chmod = \<lambda>p n. eff_return (), fs_CopyTo = \<lambda>f b. eff_return (),
     fs_CloseFile = \<lambda>f. eff_return (), fs_RemoveAll = \<lambda>p. eff_return (),
     fs_Link = \<lambda>a b. eff_return (), fs_Walk = \<lambda>p w. [], fs_Rel = \<lambda>a b. Inr b,
     fs_ReadDir = \<lambda>p. eff_return [], fs_ReadMounts = \<lambda>w. None, fs_Command = \<lambda>c. eff_return (),
     fs_DiskUsage = \<lambda>p w. 10, fs_GenerateKey = \<lambda>w. (''key'', w)\<rparr>"

definition toy_lb_main_env :: "lb_heap \<Rightarrow> ((string \<times> string) list, (string \<times> nat) list, int \<times> int) lb_main_env" where
  "toy_lb_main_env hp = \<lparr>lv_repo_merge = merge_repo, lv_lb_merge = merge_lb, lv_fs = toy_main_fs, lv_files = list_lru 10,
     lv_no_files = [], lv_no_workers = [], lv_heap = hp, lv_Listen = \<lambda>_. eff_return 0,
     lv_GracefulStop = eff_return (), lv_autoscaler = toy_as_env\<rparr>"

definition toy_lb_context :: cli_context where
  "toy_lb_context n =
     (if n = ''scaling-enabled'' then BoolFlag True else if n = ''scaling-max'' then IntFlag 8
      else if n = ''scaling-freecpu-min'' then UintFlag 6 else IntFlag 0)"

text \<open>One worker of the one replica, with two millicpus free: the deployment grows on the first tick.\<close>

theorem lb_scales_at_once_witness:
  "\<exists>m w. lb_start (toy_lb_main_env (toy_workers\<lparr>metric_CPU := 2, metric_Count := 1\<rparr>)) toy_lb_context (1, 0) =
      Returns (Inr m, w) \<and> fst (fs_world (lm_repo (lb_tick (toy_lb_main_env toy_workers) m))) = 2"
proof -
  let ?env = "toy_lb_main_env (toy_workers\<lparr>metric_CPU := 2, metric_Count := 1\<rparr>)"
  have "\<exists>m w. lb_start ?env toy_lb_context (1, 0) = Returns (Inr m, w)"
    by (simp add: lb_start_def toy_lb_main_env_def NewRepo_def toy_main_fs_def toy_lb_context_def Let_def
        NewAutoscaler_def toy_as_env_def eff_return_def eff_bind_def)
  then obtain m w where start: "lb_start ?env toy_lb_context (1, 0) = Returns (Inr m, w)" by blast
  then have m: "\<exists>a s. lm_scaler m = Some (a, s) \<and> as_options a = ls_scaler (lb_settings_of toy_lb_context)"
    "fs_world (lm_repo m) = (1, 0)" "metric_Count (lm_server m) = 1" "metric_CPU (lm_server m) = 2"
    by (auto simp: lb_start_def toy_lb_main_env_def NewRepo_def toy_main_fs_def toy_lb_context_def Let_def
        NewAutoscaler_def toy_as_env_def eff_return_def eff_bind_def NewServer_def lb_heap.defs)
  then obtain a s where a: "lm_scaler m = Some (a, s)" "MinFreeCPU (as_options a) = 6" "MaxScale (as_options a) = 8"
    by (auto simp: lb_settings_of_def toy_lb_context_def)
  have get: "getReplicas (lv_autoscaler ?env) a (fs_world (lm_repo m)) =
      (Inr \<lparr>sr_Spec = \<lparr>Replicas = 1\<rparr>, sr_Status = \<lparr>Replicas = 1\<rparr>\<rparr>, (1, 1))"
    by (simp add: m(2) toy_lb_main_env_def toy_get)
  have "fs_world (lm_repo (lb_tick ?env m)) = snd (updateReplicas (lv_autoscaler ?env) a 2 (1, 1))"
    using lb_scales_at_once [OF start rtranclp.rtrancl_refl a(1) get] m(3,4) a(2,3) by simp
  moreover have "lv_autoscaler (toy_lb_main_env hp) = toy_as_env" for hp by (simp add: toy_lb_main_env_def)
  then have "lb_tick ?env m = lb_tick (toy_lb_main_env toy_workers) m" by (simp only: lb_tick_def)
  ultimately show ?thesis using start by (auto simp: toy_lb_main_env_def toy_update)
qed

theorem lb_flags_default_witness:
  "\<exists>m w. lb_start (toy_lb_main_env (toy_workers\<lparr>metric_Count := 0\<rparr>))
      (\<lambda>n. if n = ''worker-min-ready'' then IntFlag 0
           else case find (\<lambda>f. fl_Name f = n) (lb_flags 1 2) of None \<Rightarrow> IntFlag 0 | Some f \<Rightarrow> fl_Value f) (1, 0) =
      Returns (Inr m, w) \<and> lb_options (lm_server m) = DefaultLbOptions \<and> lb_ready m = 400"
proof -
  let ?env = "toy_lb_main_env (toy_workers\<lparr>metric_Count := 0\<rparr>)"
  let ?c = "\<lambda>n. if n = ''worker-min-ready'' then IntFlag 0
           else case find (\<lambda>f. fl_Name f = n) (lb_flags 1 2) of None \<Rightarrow> IntFlag 0 | Some f \<Rightarrow> fl_Value f"
  have "\<exists>m w. lb_start ?env ?c (1, 0) = Returns (Inr m, w)"
    by (simp add: lb_start_def toy_lb_main_env_def NewRepo_def toy_main_fs_def Let_def
        NewAutoscaler_def toy_as_env_def eff_return_def eff_bind_def)
  then obtain m w where start: "lb_start ?env ?c (1, 0) = Returns (Inr m, w)" by blast
  have doc: "merges_documented ?env" by (simp add: merges_documented_def toy_lb_main_env_def)
  have cli: "cli_documented (lb_flags 1 2) [''worker-min-ready'' \<mapsto> IntFlag 0] ?c"
    by (simp add: cli_documented_def lb_flags_def flag_def)
  have "metric_Count (lv_heap ?env) = 0" by (simp add: toy_lb_main_env_def)
  from lb_flags_default [OF doc cli start _ this] start show ?thesis by blast
qed

theorem lb_stop_leaves_nothing_witness:
  "\<exists>m m'. lb_stop (toy_lb_main_env toy_workers) m = Returns (Inr (), m') \<and>
    fileCache (lm_repo m) = [(''k'', ''p'')] \<and> map_of (fileCache (lm_repo m')) = (\<lambda>_. None) \<and>
    metric_Count (lm_server m) = 1 \<and> metric_Count (lm_server m') = 0"
proof -
  let ?env = "toy_lb_main_env toy_workers"
  define m :: "((string \<times> string) list, (string \<times> nat) list, int \<times> int) lb_main" where
    "m = \<lparr>lm_repo = \<lparr>storeID = ''id'', fileCache = [(''k'', ''p'')], repo_options = DefaultRepoOptions,
      permStore = [], volumes = [], storeLocks = [], next_ch = 0, closed_chs = [], fs_world = (1, 0)\<rparr>,
    lm_server = NewServer merge_lb None [] (toy_workers\<lparr>metric_Count := 1\<rparr>), lm_listener = 0, lm_scaler = None\<rparr>"
  have files: "lru_documented (lv_files ?env) map_of" by (simp add: toy_lb_main_env_def list_lru_documented)
  have "\<exists>r m'. lb_stop ?env m = Returns (r, m')"
    by (simp add: lb_stop_def m_def on_lm_repo_def repo_Shutdown_def Flush_def proc_eval toy_lb_main_env_def on_fs_def lift_eff_def
        cache_op_def list_lru_def toy_main_fs_def eff_return_def onValueEvictedHandler_def)
  then obtain r m' where stop: "lb_stop ?env m = Returns (r, m')" by blast
  note gone = lb_stop_leaves_nothing [OF files stop]
  have "fileCache (lm_repo m) = [(''k'', ''p'')]" "metric_Count (lm_server m) = 1"
    by (simp_all add: m_def NewServer_fields)
  then show ?thesis using stop gone by blast
qed

end
