(* ===== verification/Broker_Trace.thy ===== *)
theory Broker_Trace
  imports Messages
begin

text \<open>
  The traces of the broker (app/broker/celery.go): the record made from the response of a
  script, and the tasks that carry it to the workers of the platform.
\<close>

section \<open>Traces\<close>

record trace_response =
  tp_Status :: i32
  tp_ContentType :: string
  tp_Content :: bytes
  tp_Headers :: "(string, string) gomap"

record trace_result =
  tr_Stdout :: bytes
  tr_Stderr :: bytes
  tr_Response :: "trace_response option"

record script_trace =
  st_ID :: u64
  st_ExecutedAt :: string
  st_Status :: string
  st_Duration :: int
  st_Result :: "trace_result option"
  st_Weight :: u32

definition successStatus :: string where "successStatus = ''success''"
definition blockedStatus :: string where "blockedStatus = ''blocked''"
definition failureStatus :: string where "failureStatus = ''failure''"
definition timeoutStatus :: string where "timeoutStatus = ''timeout''"

lemmas status_defs = successStatus_def blockedStatus_def failureStatus_def timeoutStatus_def

definition codeToStatus :: "(i32, string) gomap" where
  "codeToStatus = [(0, successStatus), (124, timeoutStatus)]"

text \<open>
  \<open>util.ToQuoteJSON\<close>, the layout of times, and the clock, in the order they are used. A
  time is a number of nanoseconds; of a missing timestamp it is \<open>0\<close>, as the getters read it.
\<close>

record trace_env =
  te_ToQuoteJSON :: "bytes \<Rightarrow> bytes"
  te_Format :: "int \<Rightarrow> string"

definition trace_response_of :: "http_response_pb \<Rightarrow> trace_response" where
  "trace_response_of h = \<lparr>tp_Status = hr_StatusCode h, tp_ContentType = hr_ContentType h,
     tp_Content = hr_Content h, tp_Headers = hr_Headers h\<rparr>"

definition NewScriptTrace :: "trace_env \<Rightarrow> int \<Rightarrow> u64 \<Rightarrow> run_response option \<Rightarrow> script_trace" where
  "NewScriptTrace te now traceID result =
     (case result of
        None \<Rightarrow> \<lparr>st_ID = traceID, st_ExecutedAt = te_Format te now, st_Status = blockedStatus,
                 st_Duration = 0, st_Result = None, st_Weight = 0\<rparr>
      | Some r \<Rightarrow>
          \<lparr>st_ID = traceID, st_ExecutedAt = te_Format te (rr_Time r),
           st_Status = (case map_of codeToStatus (rr_Code r) of None \<Rightarrow> failureStatus | Some st \<Rightarrow> st),
           st_Duration = rr_Took r,
           st_Result = Some \<lparr>tr_Stdout = te_ToQuoteJSON te (rr_Stdout r), tr_Stderr = te_ToQuoteJSON te (rr_Stderr r),
             tr_Response = map_option trace_response_of (rr_Response r)\<rparr>,
           st_Weight = rr_Weight r\<rparr>)"

section \<open>Tasks\<close>

datatype celery_arg = RawMessage bytes | TraceArg script_trace

record celery_task =
  ct_Task :: string
  ct_Queue :: string
  ct_Args :: "celery_arg list"

definition NewCelerySaveTask :: "bytes \<Rightarrow> script_trace \<Rightarrow> celery_task" where
  "NewCelerySaveTask trace updatedTrace =
     \<lparr>ct_Task = ''apps.codeboxes.tasks.SaveTraceTask'', ct_Queue = ''codebox'',
      ct_Args = [RawMessage trace, TraceArg updatedTrace]\<rparr>"

definition NewCeleryUpdateTask :: "bytes \<Rightarrow> celery_task" where
  "NewCeleryUpdateTask trace =
     \<lparr>ct_Task = ''apps.codeboxes.tasks.UpdateTraceTask'', ct_Queue = ''codebox'', ct_Args = [RawMessage trace]\<rparr>"

section \<open>Facts\<close>

lemma trace_status_cases:
  "st_Status (NewScriptTrace te now tid result) \<in> {successStatus, blockedStatus, failureStatus, timeoutStatus}"
  by (auto simp: NewScriptTrace_def codeToStatus_def split: option.splits if_splits)

lemma trace_blocked_iff: "st_Status (NewScriptTrace te now tid result) = blockedStatus \<longleftrightarrow> result = None"
  by (auto simp: NewScriptTrace_def codeToStatus_def status_defs split: option.splits if_splits)

end
