(* ===== verification/Broker_Server.thy ===== *)
theory Broker_Server
  imports Broker_Trace Lb_Server
begin

text \<open>
  The broker (app/broker/server.go): it picks a load balancer for a script, downloads the
  files and uploads those the load balancer lacks, sends the run there, and hands the
  responses on to the client and into a trace.
\<close>

section \<open>State\<close>

record broker_options =
  bo_LBAddr :: "string list"
  bo_LBRetry :: int
  bo_DownloadConcurrency :: u64
  bo_MaxPayloadSize :: int
  bo_MaxTimeout :: int

definition DefaultBrokerOptions :: broker_options where
  "DefaultBrokerOptions = \<lparr>bo_LBAddr = [], bo_LBRetry = 3, bo_DownloadConcurrency = 16,
     bo_MaxPayloadSize = 15 * 2 ^ 20, bo_MaxTimeout = 8 * 60 * 10 ^ 9\<rparr>"

record load_balancer =
  lbr_addr :: string
  lbr_conn :: nat

record broker_meta =
  bm_Files :: "(string, string) gomap"
  bm_EnvironmentUrl :: string
  bm_Trace :: "bytes option"
  bm_TraceId :: u64
  bm_Sync :: bool

text \<open>
  The uploads in progress are channels, by address and key; \<open>br_closed\<close> are the closed ones.
  \<open>br_spawned\<close> are the responses that are processed in goroutines of their own: the start,
  the meta and the stream.
\<close>

record 'w broker =
  br_lbServers :: "load_balancer list"
  br_uploads :: "(string, nat) gomap"
  br_closed :: "nat list"
  br_next_ch :: nat
  br_options :: broker_options
  br_world :: 'w
  br_spawned :: "(int \<times> broker_meta \<times> nat) list"

record download_result =
  dr_URL :: string
  dr_Data :: bytes
  dr_Error :: "go_error option"

text \<open>
  The environment: the connections to load balancers with their two clients, the downloader
  (whose results come in any order), the client's stream, celery, and of \<open>pkg-go/util\<close> the
  hash and the retry that ends when the call is cancelled.
\<close>

record 'w broker_env =
  be_Dial :: "string \<Rightarrow> ('w, nat) eff"
  be_CloseConn :: "nat \<Rightarrow> ('w, unit) eff"
  be_Exists :: "nat \<Rightarrow> string \<Rightarrow> ('w, bool) eff"
  be_Upload :: "nat \<Rightarrow> ('w, nat) eff"
  be_UploadSend :: "nat \<Rightarrow> upload_request \<Rightarrow> ('w, unit) eff"
  be_UploadRecv :: "nat \<Rightarrow> ('w, bool) eff"
  be_Run :: "nat \<Rightarrow> ('w, nat) eff"
  be_RunSend :: "nat \<Rightarrow> lb_request \<Rightarrow> ('w, unit) eff"
  be_CloseSend :: "nat \<Rightarrow> ('w, unit) eff"
  be_Responses :: "nat \<Rightarrow> 'w \<Rightarrow> (run_response list \<times> go_error) \<times> 'w"
  be_Delete :: "nat \<Rightarrow> string \<times> string \<times> string \<times> string \<Rightarrow> ('w, string list) eff"
  be_Download :: "string list \<Rightarrow> 'w \<Rightarrow> download_result list \<times> 'w"
  be_Respond :: "run_response \<Rightarrow> ('w, unit) eff"
  be_Publish :: "celery_task \<Rightarrow> ('w, unit) eff"
  be_Now :: "'w \<Rightarrow> int"
  be_Hash :: "string \<Rightarrow> u32"
  be_Retry :: "int \<Rightarrow> ('w broker, nat) proc \<Rightarrow> ('w broker, nat) proc"
  be_trace :: trace_env

type_synonym ('w, 'a) bproc = "('w broker, 'a) proc"

definition on_world_b :: "('w, 'a) eff \<Rightarrow> ('w, 'a) bproc" where
  "on_world_b m = lift_eff br_world (\<lambda>w s. s\<lparr>br_world := w\<rparr>) m"

fun dial_all :: "'w broker_env \<Rightarrow> string list \<Rightarrow> 'w \<Rightarrow> (load_balancer list \<times> 'w) outcome" where
  "dial_all env [] w = Returns ([], w)"
| "dial_all env (addr # addrs) w =
     (case be_Dial env addr w of
        (Inl e, w1) \<Rightarrow> Panics
      | (Inr conn, w1) \<Rightarrow> bind_outcome (dial_all env addrs w1)
          (\<lambda>(lbs, w2). Returns (\<lparr>lbr_addr = addr, lbr_conn = conn\<rparr> # lbs, w2)))"

definition NewBroker ::
  "(broker_options \<Rightarrow> broker_options \<Rightarrow> broker_options) \<Rightarrow> 'w broker_env \<Rightarrow> broker_options option \<Rightarrow> 'w
   \<Rightarrow> 'w broker outcome" where
  "NewBroker merge env opts w =
     (let o' = (case opts of None \<Rightarrow> DefaultBrokerOptions | Some x \<Rightarrow> merge DefaultBrokerOptions x)
      in bind_outcome (dial_all env (bo_LBAddr o') w) (\<lambda>(lbs, w').
           Returns \<lparr>br_lbServers = lbs, br_uploads = [], br_closed = [], br_next_ch = 0,
             br_options = o', br_world = w', br_spawned = []\<rparr>))"

fun close_all :: "'w broker_env \<Rightarrow> load_balancer list \<Rightarrow> ('w, unit) bproc" where
  "close_all env [] = return ()"
| "close_all env (lb # lbs) = andThen (attempt (on_world_b (be_CloseConn env (lbr_conn lb)))) (\<lambda>_. close_all env lbs)"

definition broker_Shutdown :: "'w broker_env \<Rightarrow> ('w, unit) bproc" where
  "broker_Shutdown env = andThen (get_state br_lbServers) (close_all env)"

section \<open>Uploads\<close>

definition br_chunkSize :: nat where
  "br_chunkSize = 2 * 1024 * 1024"

fun send_pieces :: "'w broker_env \<Rightarrow> nat \<Rightarrow> string \<Rightarrow> bytes list \<Rightarrow> ('w, unit) bproc" where
  "send_pieces env str name [] = return ()"
| "send_pieces env str name (d # ds) =
     andThen (on_world_b (be_UploadSend env str (UploadChunk name d))) (\<lambda>_. send_pieces env str name ds)"

text \<open>The results of the downloads; the name of an unknown URL is the empty string.\<close>

fun send_downloads ::
  "'w broker_env \<Rightarrow> nat \<Rightarrow> (string, string) gomap \<Rightarrow> download_result list \<Rightarrow> ('w, unit) bproc" where
  "send_downloads env str files [] = return ()"
| "send_downloads env str files (res # rs) =
     (case dr_Error res of
        Some e \<Rightarrow> throw e
      | None \<Rightarrow>
          andThen (send_pieces env str (case map_of files (dr_URL res) of None \<Rightarrow> [] | Some n \<Rightarrow> n)
                     (pieces br_chunkSize (dr_Data res))) (\<lambda>_.
          send_downloads env str files rs))"

definition uploadChunks ::
  "'w broker_env \<Rightarrow> nat \<Rightarrow> string \<Rightarrow> download_result list \<Rightarrow> (string, string) gomap \<Rightarrow> ('w, unit) bproc" where
  "uploadChunks env str key results files =
     andThen (on_world_b (be_UploadSend env str (UploadMeta key))) (\<lambda>_.
     andThen (on_world_b (be_UploadRecv env str)) (\<lambda>accepted.
     if \<not> accepted then return ()
     else andThen (send_downloads env str files results) (\<lambda>_.
          andThen (on_world_b (be_UploadSend env str UploadDone)) (\<lambda>_.
          andThen (on_world_b (be_UploadRecv env str)) (\<lambda>_. return ())))))"

definition upload_key :: "load_balancer \<Rightarrow> string \<Rightarrow> string" where
  "upload_key lb key = lbr_addr lb @ '';'' @ key"

text \<open>The wait for the upload of another call.\<close>

definition wait_upload :: "nat \<Rightarrow> ('w, unit) bproc" where
  "wait_upload ch = andThen (get_state br_closed) (\<lambda>closed. if ch \<in> set closed then return () else (\<lambda>s. Blocks))"

text \<open>The download and the upload, once the channel is registered.\<close>

definition do_upload ::
  "'w broker_env \<Rightarrow> load_balancer \<Rightarrow> string \<Rightarrow> (string, string) gomap \<Rightarrow> ('w, unit) bproc" where
  "do_upload env lb key files =
     andThen (on_world_b (be_Upload env (lbr_conn lb))) (\<lambda>str.
     andThen (on_world_b (\<lambda>w. case be_Download env (map fst files) w of (rs, w') \<Rightarrow> (Inr rs, w'))) (\<lambda>results.
     try_catch (uploadChunks env str key results files)
       (\<lambda>err. try_catch (on_world_b (be_Exists env (lbr_conn lb) key))
          (\<lambda>e. throw err) (\<lambda>ok. if ok then return () else throw err))
       return))"

definition uploadFiles ::
  "'w broker_env \<Rightarrow> load_balancer \<Rightarrow> string \<Rightarrow> (string, string) gomap \<Rightarrow> ('w, unit) bproc" where
  "uploadFiles env lb key files =
     andThen (on_world_b (be_Exists env (lbr_conn lb) key)) (\<lambda>exists.
     if exists then return ()
     else andThen (get_state (\<lambda>s. map_of (br_uploads s) (upload_key lb key))) (\<lambda>other.
          case other of
            Some ch \<Rightarrow> wait_upload ch
          | None \<Rightarrow>
              andThen (get_state br_next_ch) (\<lambda>ch.
              andThen (modify (\<lambda>s. s\<lparr>br_uploads := AList.update (upload_key lb key) ch (br_uploads s), br_next_ch := ch + 1\<rparr>)) (\<lambda>_.
              andThen (attempt (do_upload env lb key files)) (\<lambda>r.
              andThen (modify (\<lambda>s. s\<lparr>br_uploads := AList.delete (upload_key lb key) (br_uploads s), br_closed := ch # br_closed s\<rparr>)) (\<lambda>_.
              case r of Inl e \<Rightarrow> throw e | Inr _ \<Rightarrow> return ()))))))"

section \<open>Sending a run\<close>

definition wrapping :: "string \<Rightarrow> ('s, 'a) proc \<Rightarrow> ('s, 'a) proc" where
  "wrapping msg m = try_catch m (\<lambda>e. throw (EWrap msg e)) return"

definition updateTrace :: "'w broker_env \<Rightarrow> u64 \<Rightarrow> bytes option \<Rightarrow> ('w, unit) bproc" where
  "updateTrace env traceID trace =
     (case trace of
        None \<Rightarrow> return ()
      | Some t \<Rightarrow> if traceID = 0 then return () else on_world_b (be_Publish env (NewCeleryUpdateTask t)))"

definition saveTrace :: "'w broker_env \<Rightarrow> bytes option \<Rightarrow> script_trace \<Rightarrow> ('w, unit) bproc" where
  "saveTrace env trace updatedTrace =
     (case trace of
        None \<Rightarrow> return ()
      | Some t \<Rightarrow> on_world_b (be_Publish env (NewCelerySaveTask t updatedTrace)))"

text \<open>One attempt: the uploads, and a stream with both metas.\<close>

definition try_run ::
  "'w broker_env \<Rightarrow> load_balancer \<Rightarrow> broker_meta \<Rightarrow> lb_meta \<Rightarrow> script_meta \<Rightarrow> ('w, nat) bproc" where
  "try_run env lb meta lbMeta scriptMeta =
     andThen (wrapping ''file upload error'' (uploadFiles env lb (sm_SourceHash scriptMeta) (bm_Files meta))) (\<lambda>_.
     andThen (if bm_EnvironmentUrl meta = [] then return ()
              else wrapping ''environment upload error'' (uploadFiles env lb (sm_Environment scriptMeta)
                     [(bm_EnvironmentUrl meta, ''squashfs.img'')])) (\<lambda>_.
     andThen (wrapping ''lb run error'' (on_world_b (be_Run env (lbr_conn lb)))) (\<lambda>str.
     andThen (wrapping ''sending lb meta failed'' (on_world_b (be_RunSend env str (LbMeta lbMeta)))) (\<lambda>_.
     andThen (wrapping ''sending script meta failed'' (on_world_b (be_RunSend env str (LbScriptMeta scriptMeta)))) (\<lambda>_.
     return str)))))"

text \<open>The chunks of the reader, up to its first error.\<close>

fun forward_chunks :: "'w broker_env \<Rightarrow> nat \<Rightarrow> run_chunk result list \<Rightarrow> ('w, unit) bproc" where
  "forward_chunks env str [] = return ()"
| "forward_chunks env str (Inl e # rs) =
     (if e = EEOF then return () else throw (EWrap ''reading script chunk failed'' e))"
| "forward_chunks env str (Inr chunk # rs) =
     andThen (wrapping ''sending script request failed'' (on_world_b (be_RunSend env str (LbScriptChunk chunk)))) (\<lambda>_.
     forward_chunks env str rs)"

definition sendRunToLoadbalancer ::
  "'w broker_env \<Rightarrow> broker_meta \<Rightarrow> lb_meta \<Rightarrow> script_meta \<Rightarrow> chunk_reader option \<Rightarrow> ('w, nat) bproc" where
  "sendRunToLoadbalancer env meta lbMeta scriptMeta chunkReader =
     andThen (get_state (\<lambda>s. (br_lbServers s, bo_LBRetry (br_options s)))) (\<lambda>(lbs, retry).
     if length lbs = 0 then panic
     else let lb = lbs ! (unat (be_Hash env (lm_ConcurrencyKey lbMeta)) mod length lbs) in
       andThen (be_Retry env retry (try_run env lb meta lbMeta scriptMeta)) (\<lambda>str.
       andThen (case chunkReader of None \<Rightarrow> return () | Some cr \<Rightarrow> forward_chunks env str (cr_rest cr)) (\<lambda>_.
       andThen (attempt (on_world_b (be_CloseSend env str))) (\<lambda>_.
       andThen (attempt (updateTrace env (bm_TraceId meta) (bm_Trace meta))) (\<lambda>_.
       return str)))))"

section \<open>The responses\<close>

text \<open>
  A response to the client, if it still listens: a failing send ends that. The flag is whether
  there is a client.
\<close>

definition retSend :: "'w broker_env \<Rightarrow> bool \<Rightarrow> run_response \<Rightarrow> ('w, bool) bproc" where
  "retSend env listening r =
     (if \<not> listening then return False
      else try_catch (on_world_b (be_Respond env r)) (\<lambda>e. return False) (\<lambda>_. return True))"

text \<open>
  The further chunks: their content is appended to that of the result. A chunk without a
  response, or a result without one, is a nil pointer.
\<close>

fun collect_chunks ::
  "'w broker_env \<Rightarrow> bool \<Rightarrow> run_response \<Rightarrow> run_response list \<Rightarrow> ('w, run_response) bproc" where
  "collect_chunks env listening result [] = return result"
| "collect_chunks env listening result (chunk # chunks) =
     (case (rr_Response result, rr_Response chunk) of
        (Some h, Some hc) \<Rightarrow>
          andThen (retSend env listening chunk) (\<lambda>listening'.
          collect_chunks env listening' (result\<lparr>rr_Response := Some (h\<lparr>hr_Content := hr_Content h @ hr_Content hc\<rparr>)\<rparr>) chunks)
      | _ \<Rightarrow> panic)"

definition processResponse ::
  "'w broker_env \<Rightarrow> broker_meta \<Rightarrow> nat \<Rightarrow> bool \<Rightarrow> ('w, script_trace \<times> go_error option) bproc" where
  "processResponse env meta str listening =
     andThen (on_world_b (\<lambda>w. case be_Responses env str w of (rs, w') \<Rightarrow> (Inr rs, w'))) (\<lambda>(rs, final).
     andThen (case rs of
                [] \<Rightarrow> return (None, Some final)
              | r # chunks \<Rightarrow>
                  andThen (retSend env listening r) (\<lambda>listening'.
                  andThen (collect_chunks env listening' r chunks) (\<lambda>result. return (Some result, None)))) (\<lambda>(result, err).
     andThen (get_state (\<lambda>s. be_Now env (br_world s))) (\<lambda>now.
     let updatedTrace = NewScriptTrace (be_trace env) now (bm_TraceId meta) result in
     andThen (attempt (saveTrace env (bm_Trace meta) updatedTrace)) (\<lambda>_.
     return (updatedTrace, err)))))"

section \<open>Runs\<close>

text \<open>The body of \<open>processFunc\<close>: the error of the response is that of the call.\<close>

definition processFunc :: "'w broker_env \<Rightarrow> broker_meta \<Rightarrow> nat \<Rightarrow> bool \<Rightarrow> ('w, unit) bproc" where
  "processFunc env meta str listening =
     andThen (processResponse env meta str listening) (\<lambda>(trace, err).
     case err of None \<Rightarrow> return () | Some e \<Rightarrow> throw e)"

definition broker_processRun ::
  "'w broker_env \<Rightarrow> broker_meta option \<Rightarrow> lb_meta option \<Rightarrow> script_meta option \<Rightarrow> chunk_reader option
   \<Rightarrow> ('w, unit) bproc" where
  "broker_processRun env meta lbMeta scriptMeta chunkReader =
     (case (meta, lbMeta, scriptMeta) of
        (Some m, Some lm, Some sm) \<Rightarrow>
          andThen (get_state (\<lambda>s. be_Now env (br_world s))) (\<lambda>start.
          andThen (sendRunToLoadbalancer env m lm sm chunkReader) (\<lambda>str.
          if bm_Sync m then processFunc env m str True
          else modify (\<lambda>s. s\<lparr>br_spawned := br_spawned s @ [(start, m, str)]\<rparr>)))
      | _ \<Rightarrow> throw ErrInvalidArgument)"

definition broker_SimpleRun ::
  "'w broker_env \<Rightarrow> broker_meta option \<times> lb_meta option \<times> script_meta option \<Rightarrow> ('w, unit) bproc" where
  "broker_SimpleRun env = (\<lambda>(meta, lbMeta, scriptMeta). broker_processRun env meta lbMeta scriptMeta None)"

datatype broker_request =
    BrMeta broker_meta | BrLbMeta lb_meta | BrScriptMeta script_meta | BrScriptChunk run_chunk | BrOther

text \<open>The messages up to the three metas; anything else before them is refused.\<close>

fun read_metas ::
  "broker_request result list \<Rightarrow> broker_meta option \<times> lb_meta option \<times> script_meta option
   \<Rightarrow> (broker_meta option \<times> lb_meta option \<times> script_meta option) result \<times> broker_request result list" where
  "read_metas [] ms = (Inr ms, [])"
| "read_metas (Inl e # ins) ms = (if e = EEOF then (Inr ms, []) else (Inl e, ins))"
| "read_metas (Inr req # ins) (m, lm, sm) =
     (let ms' = (case req of
           BrMeta x \<Rightarrow> Some (Some x, lm, sm)
         | BrLbMeta x \<Rightarrow> Some (m, Some x, sm)
         | BrScriptMeta x \<Rightarrow> Some (m, lm, Some x)
         | _ \<Rightarrow> None)
      in case ms' of
           None \<Rightarrow> (Inl ErrInvalidArgument, ins)
         | Some (m', lm', sm') \<Rightarrow>
             if m' \<noteq> None \<and> lm' \<noteq> None \<and> sm' \<noteq> None then (Inr (m', lm', sm'), ins)
             else read_metas ins (m', lm', sm'))"

fun broker_chunk :: "broker_request result \<Rightarrow> run_chunk result" where
  "broker_chunk (Inl e) = Inl e"
| "broker_chunk (Inr (BrScriptChunk c)) = Inr c"
| "broker_chunk (Inr _) = Inl ErrInvalidArgument"

definition broker_Run :: "'w broker_env \<Rightarrow> broker_request result list \<Rightarrow> ('w, unit) bproc" where
  "broker_Run env ins =
     (case read_metas ins (None, None, None) of
        (Inl e, _) \<Rightarrow> throw e
      | (Inr (m, lm, sm), rest) \<Rightarrow>
          broker_processRun env m lm sm (Some (NewChunkReader (map broker_chunk rest))))"

text \<open>A removal goes to all load balancers; the last error is returned with what was removed.\<close>

fun delete_on_lbs ::
  "'w broker_env \<Rightarrow> string \<times> string \<times> string \<times> string \<Rightarrow> load_balancer list \<Rightarrow> string list \<Rightarrow> go_error option
   \<Rightarrow> ('w, string list \<times> go_error option) bproc" where
  "delete_on_lbs env req [] ids err = return (ids, err)"
| "delete_on_lbs env req (lb # lbs) ids err =
     try_catch (on_world_b (be_Delete env (lbr_conn lb) req))
       (\<lambda>e. delete_on_lbs env req lbs ids (Some e))
       (\<lambda>ids'. delete_on_lbs env req lbs (ids @ ids') err)"

definition broker_Delete ::
  "'w broker_env \<Rightarrow> string \<times> string \<times> string \<times> string \<Rightarrow> ('w, string list \<times> go_error option) bproc" where
  "broker_Delete env req = andThen (get_state br_lbServers) (\<lambda>lbs. delete_on_lbs env req lbs [] None)"

section \<open>Facts\<close>

lemma on_world_b_run: "m (br_world s) = (r, w) \<Longrightarrow> on_world_b m s = Returns (r, s\<lparr>br_world := w\<rparr>)"
  by (simp add: on_world_b_def lift_eff_def)

lemma on_world_b_returns: "\<exists>r w. on_world_b m s = Returns (r, s\<lparr>br_world := w\<rparr>)"
  by (cases "m (br_world s)") (auto dest: on_world_b_run)

lemma br_world_same: "s\<lparr>br_world := br_world s\<rparr> = s"
  by (cases s) simp

lemma br_chunkSize_pos [simp]: "0 < br_chunkSize"
  by (simp add: br_chunkSize_def)

text \<open>The responses to the client change only the outside world.\<close>

lemma retSend_returns: "\<exists>b w. retSend env listening r s = Returns (Inr b, s\<lparr>br_world := w\<rparr>)"
proof (cases listening)
  case True
  obtain x w where "on_world_b (be_Respond env r) s = Returns (x, s\<lparr>br_world := w\<rparr>)"
    using on_world_b_returns [of "be_Respond env r" s] by blast
  with True show ?thesis by (cases x) (auto simp: retSend_def proc_eval)
next
  case False
  then show ?thesis by (simp add: retSend_def proc_eval) (metis br_world_same)
qed

lemma collect_chunks_returns:
  assumes "rr_Response result = Some h" "\<forall>c\<in>set chunks. rr_Response c \<noteq> None"
  shows "\<exists>w. collect_chunks env listening result chunks s = Returns (Inr (result\<lparr>rr_Response :=
      Some (h\<lparr>hr_Content := hr_Content h @ concat (map response_content chunks)\<rparr>)\<rparr>), s\<lparr>br_world := w\<rparr>)"
  using assms
proof (induction chunks arbitrary: listening result h s)
  case Nil
  then have "result\<lparr>rr_Response := Some h\<rparr> = result" by (cases result) simp
  then show ?case by (simp add: proc_run) (metis br_world_same)
next
  case (Cons c chunks)
  obtain hc where hc: "rr_Response c = Some hc" using Cons.prems(2) by auto
  obtain b w where snd: "retSend env listening c s = Returns (Inr b, s\<lparr>br_world := w\<rparr>)"
    using retSend_returns [of env listening c s] by blast
  let ?r = "result\<lparr>rr_Response := Some (h\<lparr>hr_Content := hr_Content h @ hr_Content hc\<rparr>)\<rparr>"
  have "rr_Response ?r = Some (h\<lparr>hr_Content := hr_Content h @ hr_Content hc\<rparr>)" by simp
  from Cons.IH [OF this, where s = "s\<lparr>br_world := w\<rparr>" and listening = b] Cons.prems(2) obtain w' where
    "collect_chunks env b ?r chunks (s\<lparr>br_world := w\<rparr>) = Returns (Inr (?r\<lparr>rr_Response :=
      Some (h\<lparr>hr_Content := (hr_Content h @ hr_Content hc) @ concat (map response_content chunks)\<rparr>)\<rparr>), s\<lparr>br_world := w'\<rparr>)"
    by auto
  moreover have "response_content c = hr_Content hc" using hc by (simp add: response_content_def)
  ultimately show ?case using Cons.prems(1) hc snd by (auto simp: proc_eval)
qed

text \<open>What the broker makes of the responses of a stream.\<close>

lemma saveTrace_returns: "\<exists>x w. saveTrace env t tr s = Returns (x, s\<lparr>br_world := w\<rparr>)"
proof (cases t)
  case None
  then show ?thesis by (simp add: saveTrace_def proc_run) (metis br_world_same)
next
  case (Some b)
  then show ?thesis using on_world_b_returns by (simp add: saveTrace_def)
qed

lemma processResponse_collects:
  assumes "be_Responses env str (br_world s) = ((r # chunks, final), w)"
    and "rr_Response r = Some h" "\<forall>c\<in>set chunks. rr_Response c \<noteq> None"
  shows "\<exists>now w'. processResponse env meta str listening s = Returns (Inr
    (NewScriptTrace (be_trace env) now (bm_TraceId meta) (Some (r\<lparr>rr_Response :=
       Some (h\<lparr>hr_Content := hr_Content h @ concat (map response_content chunks)\<rparr>)\<rparr>)), None), s\<lparr>br_world := w'\<rparr>)"
proof -
  let ?r = "r\<lparr>rr_Response := Some (h\<lparr>hr_Content := hr_Content h @ concat (map response_content chunks)\<rparr>)\<rparr>"
  have recv: "on_world_b (\<lambda>w. case be_Responses env str w of (rs, w') \<Rightarrow> (Inr rs, w')) s =
      Returns (Inr (r # chunks, final), s\<lparr>br_world := w\<rparr>)"
    using assms(1) by (intro on_world_b_run) simp
  obtain b w1 where snd: "retSend env listening r (s\<lparr>br_world := w\<rparr>) = Returns (Inr b, s\<lparr>br_world := w1\<rparr>)"
    using retSend_returns [of env listening r "s\<lparr>br_world := w\<rparr>"] by auto
  obtain w2 where coll: "collect_chunks env b r chunks (s\<lparr>br_world := w1\<rparr>) = Returns (Inr ?r, s\<lparr>br_world := w2\<rparr>)"
    using collect_chunks_returns [OF assms(2,3), of env b "s\<lparr>br_world := w1\<rparr>"] by auto
  let ?t = "NewScriptTrace (be_trace env) (be_Now env w2) (bm_TraceId meta) (Some ?r)"
  obtain x w3 where "saveTrace env (bm_Trace meta) ?t (s\<lparr>br_world := w2\<rparr>) = Returns (x, s\<lparr>br_world := w3\<rparr>)"
    using saveTrace_returns [of env "bm_Trace meta" ?t "s\<lparr>br_world := w2\<rparr>"] by auto
  with recv snd coll show ?thesis
    by (auto simp: processResponse_def proc_eval Let_def)
qed

text \<open>The messages of an upload are the session of the files, in the order of the downloads.\<close>

definition downloaded :: "(string, string) gomap \<Rightarrow> download_result \<Rightarrow> string \<times> bytes" where
  "downloaded files res = ((case map_of files (dr_URL res) of None \<Rightarrow> [] | Some n \<Rightarrow> n), dr_Data res)"

lemma send_pieces_log:
  assumes "\<And>str m w. be_UploadSend env str m w = (Inr (), w @ [m])"
  shows "send_pieces env str name ds s = Returns (Inr (), s\<lparr>br_world := br_world s @ map (UploadChunk name) ds\<rparr>)"
proof (induction ds arbitrary: s)
  case (Cons d ds)
  then show ?case by (simp add: proc_eval on_world_b_def lift_eff_def assms)
qed (simp add: proc_eval)

lemma send_downloads_log:
  assumes "\<And>str m w. be_UploadSend env str m w = (Inr (), w @ [m])" "\<forall>r\<in>set rs. dr_Error r = None"
  shows "send_downloads env str files rs s =
    Returns (Inr (), s\<lparr>br_world := br_world s @ concat (map (file_messages br_chunkSize) (map (downloaded files) rs))\<rparr>)"
  using assms(2)
proof (induction rs arbitrary: s)
  case (Cons r rs)
  then show ?case
    by (simp add: proc_eval send_pieces_log [OF assms(1)] file_messages_def downloaded_def)
qed (simp add: proc_eval)

lemma uploadChunks_session:
  assumes "\<And>str m w. be_UploadSend env str m w = (Inr (), w @ [m])" "\<And>str w. be_UploadRecv env str w = (Inr True, w)"
    and "\<forall>r\<in>set rs. dr_Error r = None"
  shows "uploadChunks env str key rs files s =
    Returns (Inr (), s\<lparr>br_world := br_world s @ session br_chunkSize key (map (downloaded files) rs)\<rparr>)"
  using send_downloads_log [OF assms(1,3)]
  by (simp add: uploadChunks_def proc_eval on_world_b_def lift_eff_def assms(1,2) session_def)

section \<open>Properties\<close>

text \<open>
  Who waits for another's upload is not told that it failed. While an upload of a key to a
  load balancer goes on, a second call for it waits for its channel; when the upload fails, the
  channel is closed all the same, and the wait of the second call ends without an error and
  without asking again, so that it sends its run to a load balancer that lacks the source.
\<close>

theorem broker_waiter_ignores_failure:
  assumes "be_Exists env (lbr_conn lb) key (br_world s) = (Inr False, w)"
    and "map_of (br_uploads s) (upload_key lb key) = None"
    and "uploadFiles env lb key files s = Returns (Inl e, s')"
  shows "wait_upload (br_next_ch s) s' = Returns (Inr (), s') \<and>
    map_of (br_uploads s') (upload_key lb key) = None \<and>
    (\<forall>m w' files'. map_of (br_uploads m) (upload_key lb key) = Some (br_next_ch s) \<and>
       be_Exists env (lbr_conn lb) key (br_world m) = (Inr False, w') \<longrightarrow>
       uploadFiles env lb key files' m = wait_upload (br_next_ch s) (m\<lparr>br_world := w'\<rparr>))"
proof -
  let ?ch = "br_next_ch s"
  let ?t = "s\<lparr>br_world := w, br_uploads := AList.update (upload_key lb key) ?ch (br_uploads s), br_next_ch := ?ch + 1\<rparr>"
  have exists: "on_world_b (be_Exists env (lbr_conn lb) key) m = Returns (Inr False, m\<lparr>br_world := w'\<rparr>)"
    if "be_Exists env (lbr_conn lb) key (br_world m) = (Inr False, w')" for m w'
    using that by (rule on_world_b_run)
  from assms(3) obtain r u where up: "do_upload env lb key files ?t = Returns (r, u)"
    and s': "s' = u\<lparr>br_uploads := AList.delete (upload_key lb key) (br_uploads u), br_closed := ?ch # br_closed u\<rparr>"
    using exists [OF assms(1)] assms(2)
    by (auto simp: uploadFiles_def proc_eval split: outcome.splits prod.splits sum.splits)
  then show ?thesis
    using exists by (auto simp: uploadFiles_def wait_upload_def proc_eval)
qed

text \<open>
  A broker with one load balancer that has no sources, refuses uploads, and whose stream of
  responses breaks off after two messages.
\<close>

definition toy_responses :: "run_response list" where
  "toy_responses =
     [empty_run_response\<lparr>rr_Response := Some (empty_http_response\<lparr>hr_StatusCode := 200, hr_Content := [1, 2]\<rparr>)\<rparr>,
      empty_run_response\<lparr>rr_Response := Some (empty_http_response\<lparr>hr_Content := [3]\<rparr>)\<rparr>]"

definition toy_broker_env :: "unit broker_env" where
  "toy_broker_env = \<lparr>be_Dial = \<lambda>_. eff_return 0, be_CloseConn = \<lambda>_. eff_return (), be_Exists = \<lambda>_ _. eff_return False,
     be_Upload = \<lambda>_. eff_fail EUnexpectedEOF, be_UploadSend = \<lambda>_ _. eff_return (), be_UploadRecv = \<lambda>_. eff_return True,
     be_Run = \<lambda>_. eff_return 0, be_RunSend = \<lambda>_ _. eff_return (), be_CloseSend = \<lambda>_. eff_return (),
     be_Responses = \<lambda>_ w. ((toy_responses, EUnexpectedEOF), w), be_Delete = \<lambda>_ _. eff_return [],
     be_Download = \<lambda>_ w. ([], w), be_Respond = \<lambda>_. eff_return (), be_Publish = \<lambda>_. eff_return (), be_Now = \<lambda>_. 0,
     be_Hash = \<lambda>_. 0, be_Retry = \<lambda>_ m. m, be_trace = \<lparr>te_ToQuoteJSON = \<lambda>b. b, te_Format = \<lambda>_. ''t''\<rparr>\<rparr>"

definition toy_balancer :: load_balancer where
  "toy_balancer = \<lparr>lbr_addr = ''lb'', lbr_conn = 0\<rparr>"

definition toy_broker :: "unit broker" where
  "toy_broker = \<lparr>br_lbServers = [toy_balancer], br_uploads = [], br_closed = [], br_next_ch = 0,
     br_options = DefaultBrokerOptions, br_world = (), br_spawned = []\<rparr>"

theorem broker_waiter_ignores_failure_witness:
  "\<exists>s'. uploadFiles toy_broker_env toy_balancer ''k'' [(''url'', ''a.js'')] toy_broker = Returns (Inl EUnexpectedEOF, s') \<and>
    wait_upload 0 s' = Returns (Inr (), s')"
proof -
  have "be_Exists toy_broker_env (lbr_conn toy_balancer) ''k'' (br_world toy_broker) = (Inr False, ())"
    "map_of (br_uploads toy_broker) (upload_key toy_balancer ''k'') = None" "br_next_ch toy_broker = 0"
    by (simp_all add: toy_broker_env_def toy_broker_def)
  note pre = this
  have "\<exists>s'. uploadFiles toy_broker_env toy_balancer ''k'' [(''url'', ''a.js'')] toy_broker = Returns (Inl EUnexpectedEOF, s')"
    by (simp add: uploadFiles_def do_upload_def proc_eval on_world_b_def lift_eff_def toy_broker_env_def toy_broker_def)
  then obtain s' where "uploadFiles toy_broker_env toy_balancer ''k'' [(''url'', ''a.js'')] toy_broker = Returns (Inl EUnexpectedEOF, s')" ..
  with broker_waiter_ignores_failure [OF pre(1,2) this] pre(3) show ?thesis by auto
qed



end
