(* ===== verification/Broker_Uwsgi.thy ===== *)
theory Broker_Uwsgi
  imports Broker_Server
begin

text \<open>
  The HTTP side of the broker (app/broker/uwsgi.go): a request names a payload in redis, is
  turned into a run, and its trace into a response, which may be kept in a cache.
\<close>

section \<open>Responses of net/http\<close>

text \<open>
  \<open>http.Header\<close> keeps its keys in canonical form: an upper case letter at the start and after
  each hyphen, unless the key has a character that no header has.
\<close>

definition is_upper :: "char \<Rightarrow> bool" where
  "is_upper c \<longleftrightarrow> 65 \<le> (of_char c :: nat) \<and> of_char c \<le> (90 :: nat)"

definition is_lower :: "char \<Rightarrow> bool" where
  "is_lower c \<longleftrightarrow> 97 \<le> (of_char c :: nat) \<and> of_char c \<le> (122 :: nat)"

definition is_digit :: "char \<Rightarrow> bool" where
  "is_digit c \<longleftrightarrow> 48 \<le> (of_char c :: nat) \<and> of_char c \<le> (57 :: nat)"

definition header_char :: "char \<Rightarrow> bool" where
  "header_char c \<longleftrightarrow> is_upper c \<or> is_lower c \<or> is_digit c \<or>
     c \<in> set ''!#$%&*+-.^_|~'' \<or> of_char c = (39 :: nat) \<or> of_char c = (96 :: nat)"

fun canonical :: "bool \<Rightarrow> string \<Rightarrow> string" where
  "canonical up [] = []"
| "canonical up (c # cs) =
     (if up \<and> is_lower c then char_of ((of_char c :: nat) - 32)
      else if \<not> up \<and> is_upper c then char_of ((of_char c :: nat) + 32) else c) # canonical (c = CHR ''-'') cs"

definition canonical_key :: "string \<Rightarrow> string" where
  "canonical_key k = (if list_all header_char k then canonical True k else k)"

text \<open>
  The writer: the headers are sent with the status, once; what is set later is lost. An
  invalid status panics; some statuses allow no body.
\<close>

record http_writer =
  hw_Header :: "(string, string) gomap"
  hw_sent :: "(int \<times> (string, string) gomap) option"
  hw_body :: bytes

definition hw_Set :: "string \<Rightarrow> string \<Rightarrow> http_writer \<Rightarrow> http_writer" where
  "hw_Set k v w = w\<lparr>hw_Header := AList.update (canonical_key k) v (hw_Header w)\<rparr>"

definition hw_WriteHeader :: "int \<Rightarrow> http_writer \<Rightarrow> http_writer outcome" where
  "hw_WriteHeader status w =
     (if hw_sent w \<noteq> None then Returns w
      else if status < 100 \<or> 999 < status then Panics
      else Returns (w\<lparr>hw_sent := Some (status, hw_Header w)\<rparr>))"

definition body_allowed :: "int \<Rightarrow> bool" where
  "body_allowed status \<longleftrightarrow> \<not> (100 \<le> status \<and> status \<le> 199) \<and> status \<noteq> 204 \<and> status \<noteq> 304"

definition hw_Write :: "bytes \<Rightarrow> http_writer \<Rightarrow> http_writer outcome" where
  "hw_Write b w = bind_outcome (hw_WriteHeader 200 w) (\<lambda>w'.
     Returns (case hw_sent w' of
       Some (status, _) \<Rightarrow> if body_allowed status then w'\<lparr>hw_body := hw_body w' @ b\<rparr> else w'
     | None \<Rightarrow> w'))"

definition jsonContentType :: string where
  "jsonContentType = ''application/json; charset=utf-8''"

definition statusToHTTPCode :: "(string, int) gomap" where
  "statusToHTTPCode = [(failureStatus, 500), (blockedStatus, 429), (timeoutStatus, 408)]"

definition httpError :: "int \<Rightarrow> string \<Rightarrow> http_writer \<Rightarrow> http_writer outcome" where
  "httpError status err w =
     bind_outcome (hw_WriteHeader status w) (\<lambda>w1.
     if status = 0 then Returns w1
     else hw_Write (bytes_of_string (''{'' @ [CHR 0x22] @ ''detail'' @ [CHR 0x22, CHR '':'', CHR 0x22] @ err @ [CHR 0x22] @ ''}''))
            (hw_Set ''Content-Type'' jsonContentType w1))"

text \<open>The trace as a response; \<open>json\<close> is the marshalling of a trace.\<close>

definition writeTraceResponse :: "(script_trace \<Rightarrow> bytes) \<Rightarrow> script_trace \<Rightarrow> http_writer \<Rightarrow> http_writer outcome" where
  "writeTraceResponse json trace w =
     (case (case st_Result trace of None \<Rightarrow> None | Some r \<Rightarrow> tr_Response r) of
        Some resp \<Rightarrow>
          bind_outcome (hw_WriteHeader (sint (tp_Status resp))
            (hw_Set ''Content-Type'' (tp_ContentType resp) (fold (\<lambda>(k, v). hw_Set k v) (tp_Headers resp) w)))
            (hw_Write (tp_Content resp))
      | None \<Rightarrow>
          let w1 = hw_Set ''Content-Type'' jsonContentType w
          in bind_outcome (case map_of statusToHTTPCode (st_Status trace) of
                 None \<Rightarrow> Returns w1 | Some code \<Rightarrow> hw_WriteHeader code w1)
               (hw_Write (json (trace\<lparr>st_Weight := 0\<rparr>))))"

section \<open>Requests\<close>

text \<open>
  A number of the payload is a 64-bit float: the code asks whether it is positive, and takes
  the integral part of 1000 times it.
\<close>

record float64 =
  fl_positive :: bool
  fl_millis :: int

record uwsgi_run_payload =
  ur_Args :: string
  ur_Config :: string
  ur_Meta :: string
  ur_Runtime :: string
  ur_ConcurrencyLimit :: int
  ur_Timeout :: float64
  ur_Async :: u32
  ur_MCPU :: u32

record uwsgi_payload =
  up_OutputLimit :: u32
  up_Files :: "(string, string) gomap"
  up_SourceHash :: string
  up_Entrypoint :: string
  up_Environment :: string
  up_EnvironmentURL :: string
  up_Trace :: "bytes option"
  up_Run :: uwsgi_run_payload
  up_Cache :: float64
  up_EndpointName :: string

text \<open>
  A value of the arguments: a string, the list of a name that ends with brackets, or a value
  of a JSON body. A file of a form has a name, a type, and its content unless it cannot be read.
\<close>

datatype arg_value = ArgString string | ArgList "string list" | ArgJSON bytes

record form_file =
  ff_Filename :: string
  ff_ContentType :: string
  ff_Data :: "bytes option"

text \<open>
  A request: its headers and query, what \<open>ParseMultipartForm\<close> makes of it with the limit
  on its size (the form, and the files if there is a multipart form without errors), and its
  body as a JSON object.
\<close>

record http_request =
  rq_Header :: "string \<Rightarrow> string"
  rq_Query :: "string \<Rightarrow> string"
  rq_Form :: "(string, string list) gomap"
  rq_Files :: "(string, form_file list) gomap"
  rq_JSON :: "(string, bytes) gomap option"

text \<open>Redis, JSON and msgpack.\<close>

record 'w uwsgi_env =
  ue_broker :: "'w broker_env"
  ue_RedisGet :: "string \<Rightarrow> ('w, bytes) eff"
  ue_RedisDel :: "string \<Rightarrow> ('w, unit) eff"
  ue_RedisSet :: "string \<Rightarrow> bytes \<Rightarrow> int \<Rightarrow> ('w, unit) eff"
  ue_UnmarshalPayload :: "bytes \<Rightarrow> uwsgi_payload result"
  ue_MarshalTrace :: "script_trace \<Rightarrow> bytes"
  ue_PackTrace :: "script_trace \<Rightarrow> bytes result"
  ue_UnpackTrace :: "bytes \<Rightarrow> script_trace result"
  ue_MarshalArgs :: "(string, arg_value) gomap \<Rightarrow> bytes result"

definition createCacheKey :: "string \<Rightarrow> string \<Rightarrow> string \<Rightarrow> string" where
  "createCacheKey schema endpointName hash = schema @ '':cache:s:'' @ endpointName @ '':'' @ hash"

definition loadPayload :: "'w uwsgi_env \<Rightarrow> http_request \<Rightarrow> ('w, uwsgi_payload) bproc" where
  "loadPayload env r =
     (let payloadKey = rq_Header r ''PAYLOAD_KEY''
      in if payloadKey = [] then throw EMissingPayloadKey
         else andThen (on_world_b (ue_RedisGet env payloadKey)) (\<lambda>payloadBytes.
              andThen (on_world_b (ue_RedisDel env payloadKey)) (\<lambda>_.
              case ue_UnmarshalPayload env payloadBytes of Inl e \<Rightarrow> throw e | Inr p \<Rightarrow> return p)))"

text \<open>\<open>strconv.ParseUint(s, 10, 0)\<close>.\<close>

definition digits_value :: "string \<Rightarrow> nat" where
  "digits_value s = foldl (\<lambda>n c. 10 * n + (of_char c - 48)) 0 s"

definition ParseUint :: "string \<Rightarrow> u64 result" where
  "ParseUint s =
     (if s \<noteq> [] \<and> list_all is_digit s \<and> digits_value s < 2 ^ 64 then Inr (of_nat (digits_value s))
      else Inl (EOther ''parsing uint''))"

definition prepareRequest ::
  "http_request \<Rightarrow> uwsgi_payload \<Rightarrow> (broker_meta \<times> lb_meta \<times> script_meta) result" where
  "prepareRequest r payload =
     (let instancePK = rq_Header r ''INSTANCE_PK''; run = up_Run payload
      in case ParseUint (rq_Header r ''TRACE_PK'') of
           Inl e \<Rightarrow> Inl e
         | Inr tracePK \<Rightarrow> Inr
             (\<lparr>bm_Files = up_Files payload, bm_EnvironmentUrl = up_EnvironmentURL payload,
               bm_Trace = up_Trace payload, bm_TraceId = tracePK, bm_Sync = False\<rparr>,
              \<lparr>lm_ConcurrencyKey = instancePK, lm_ConcurrencyLimit = ur_ConcurrencyLimit run\<rparr>,
              \<lparr>sm_Runtime = ur_Runtime run, sm_SourceHash = up_SourceHash payload, sm_UserId = instancePK,
               sm_Environment = up_Environment payload,
               sm_Options = Some
                 \<lparr>pb_Entrypoint = up_Entrypoint payload, pb_OutputLimit = up_OutputLimit payload,
                  pb_Timeout = fl_millis (ur_Timeout run), pb_Async = ur_Async run, pb_Mcpu = ur_MCPU run,
                  pb_Args = bytes_of_string (ur_Args run), pb_Config = bytes_of_string (ur_Config run),
                  pb_Meta = bytes_of_string (ur_Meta run)\<rparr>\<rparr>))"

section \<open>Arguments and files\<close>

definition ends_with :: "string \<Rightarrow> string \<Rightarrow> bool" where
  "ends_with s suffix \<longleftrightarrow> length suffix \<le> length s \<and> drop (length s - length suffix) s = suffix"

definition starts_with :: "string \<Rightarrow> string \<Rightarrow> bool" where
  "starts_with s prefix \<longleftrightarrow> take (length prefix) s = prefix"

text \<open>The loops over the form, and over the files: the first value of a name, if there is none, panics.\<close>

fun form_args :: "(string, string list) gomap \<Rightarrow> (string, arg_value) gomap \<Rightarrow> (string, arg_value) gomap outcome" where
  "form_args [] m = Returns m"
| "form_args ((k, v) # form) m =
     (if 2 < length k \<and> ends_with k ''[]'' then form_args form (AList.update (take (length k - 2) k) (ArgList v) m)
      else case v of [] \<Rightarrow> Panics | x # _ \<Rightarrow> form_args form (AList.update k (ArgString x) m))"

fun file_chunks :: "(string, form_file list) gomap \<Rightarrow> run_chunk list outcome" where
  "file_chunks [] = Returns []"
| "file_chunks ((name, files) # rest) =
     (case files of
        [] \<Rightarrow> Panics
      | file # _ \<Rightarrow> bind_outcome (file_chunks rest) (\<lambda>chunks.
          Returns (case ff_Data file of
              None \<Rightarrow> chunks
            | Some d \<Rightarrow> \<lparr>ch_Name = name, ch_Filename = ff_Filename file, ch_ContentType = ff_ContentType file,
                         ch_Data = d, ch_Type = GENERIC\<rparr> # chunks)))"

definition processRequestData :: "'w uwsgi_env \<Rightarrow> http_request \<Rightarrow> run_chunk list result outcome" where
  "processRequestData env r =
     bind_outcome (form_args (rq_Form r) []) (\<lambda>dataMap.
     let is_json = starts_with (rq_Header r ''Content-Type'') ''application/json''
     in case (if is_json then map_option (\<lambda>j. fold (\<lambda>(k, v). AList.update k (ArgJSON v)) j dataMap) (rq_JSON r)
              else Some dataMap) of
          None \<Rightarrow> Returns (Inl EJSONParsingFailed)
        | Some m \<Rightarrow>
            bind_outcome (file_chunks (rq_Files r)) (\<lambda>files.
            Returns (Inr ((case ue_MarshalArgs env m of
                Inr data \<Rightarrow> [\<lparr>ch_Name = [], ch_Filename = [], ch_ContentType = [], ch_Data = data, ch_Type = ARGS\<rparr>]
              | Inl _ \<Rightarrow> []) @ files))))"

section \<open>The handler\<close>

record 'w uwsgi_state =
  us_broker :: "'w broker"
  us_writer :: http_writer

text \<open>An error response with the state of the broker, and a trace as response.\<close>

definition answer :: "(http_writer \<Rightarrow> http_writer outcome) \<Rightarrow> http_writer \<Rightarrow> 'w broker \<Rightarrow> 'w uwsgi_state outcome" where
  "answer f w b = bind_outcome (f w) (\<lambda>w'. Returns \<lparr>us_broker = b, us_writer = w'\<rparr>)"

definition cached_trace :: "'w uwsgi_env \<Rightarrow> http_request \<Rightarrow> uwsgi_payload \<Rightarrow> string \<Rightarrow> ('w, script_trace option) bproc" where
  "cached_trace env r payload ckey =
     (if fl_positive (up_Cache payload) \<and> rq_Query r ''__skip_cache'' \<noteq> ''1''
      then try_catch (on_world_b (ue_RedisGet env ckey)) (\<lambda>e. return None)
             (\<lambda>d. case ue_UnpackTrace env d of Inl e \<Rightarrow> return None | Inr trace \<Rightarrow> return (Some trace))
      else return None)"

definition save_cache :: "'w uwsgi_env \<Rightarrow> uwsgi_payload \<Rightarrow> string \<Rightarrow> script_trace \<Rightarrow> ('w, unit) bproc" where
  "save_cache env payload ckey trace =
     (if fl_positive (up_Cache payload)
      then (case ue_PackTrace env trace of
              Inl e \<Rightarrow> return ()
            | Inr b \<Rightarrow> andThen (attempt (on_world_b (ue_RedisSet env ckey b
                         (wrap64 (fl_millis (up_Cache payload) * 1000000))))) (\<lambda>_. return ()))
      else return ())"

text \<open>The run itself, once the arguments are known; the two calls after it return no error.\<close>

definition run_request ::
  "'w uwsgi_env \<Rightarrow> uwsgi_payload \<Rightarrow> string \<Rightarrow> broker_meta \<times> lb_meta \<times> script_meta \<Rightarrow> run_chunk list
   \<Rightarrow> http_writer \<Rightarrow> 'w broker \<Rightarrow> 'w uwsgi_state outcome" where
  "run_request env payload ckey metas chunks w b =
     (case metas of (meta, lbMeta, scriptMeta) \<Rightarrow>
        bind_outcome (sendRunToLoadbalancer (ue_broker env) meta lbMeta scriptMeta (Some (NewArrayChunkReader chunks)) b)
          (\<lambda>(r, b1). case r of
             Inl e \<Rightarrow> answer (httpError 502 ''Processing script failure.'') w b1
           | Inr str \<Rightarrow>
               bind_outcome (andThen (processResponse (ue_broker env) meta str False)
                   (\<lambda>(trace, _). andThen (save_cache env payload ckey trace) (\<lambda>_. return trace)) b1)
                 (\<lambda>(r2, b2). case r2 of
                    Inl e \<Rightarrow> Returns \<lparr>us_broker = b2, us_writer = w\<rparr>
                  | Inr trace \<Rightarrow> answer (writeTraceResponse (ue_MarshalTrace env) trace) w b2)))"

text \<open>\<open>error_text\<close> is the message of the error of the arguments.\<close>

definition error_text :: "go_error \<Rightarrow> string" where
  "error_text e = (if e = EJSONParsingFailed then ''json parsing error, expected an object'' else [])"

definition RunHandler :: "'w uwsgi_env \<Rightarrow> http_request \<Rightarrow> http_writer \<Rightarrow> 'w broker \<Rightarrow> 'w uwsgi_state outcome" where
  "RunHandler env r w0 b0 =
     (let w = (if rq_Header r ''HTTP_ORIGIN'' = [] then w0 else hw_Set ''Access-Control-Allow-Origin'' ''*'' w0)
      in bind_outcome (loadPayload env r b0) (\<lambda>(p, b1).
         case p of
           Inl e \<Rightarrow> answer (httpError 500 ''Loading payload failure.'') w b1
         | Inr payload \<Rightarrow>
             let ckey = createCacheKey (rq_Header r ''INSTANCE_PK'') (up_EndpointName payload) (up_SourceHash payload)
             in bind_outcome (cached_trace env r payload ckey b1) (\<lambda>(c, b2).
                case c of
                  Inr (Some trace) \<Rightarrow> answer (writeTraceResponse (ue_MarshalTrace env) trace) w b2
                | _ \<Rightarrow>
                    (case prepareRequest r payload of
                       Inl e \<Rightarrow> answer (httpError 500 ''Parsing request failure.'') w b2
                     | Inr metas \<Rightarrow>
                         if rq_Header r ''PAYLOAD_PARSED'' = ''1''
                         then run_request env payload ckey metas [] w b2
                         else bind_outcome (processRequestData env r) (\<lambda>chunks.
                              case chunks of
                                Inl e \<Rightarrow> answer (httpError 400 (''Parsing payload failure: '' @ error_text e @ ''.'')) w b2
                              | Inr cs \<Rightarrow> run_request env payload ckey metas cs w b2)))))"

section \<open>Facts\<close>

lemma hw_Set_sent [simp]: "hw_sent (hw_Set k v w) = hw_sent w" "hw_body (hw_Set k v w) = hw_body w"
  by (simp_all add: hw_Set_def)

lemma hw_Set_header [simp]: "map_of (hw_Header (hw_Set k v w)) = (map_of (hw_Header w))(canonical_key k \<mapsto> v)"
  by (simp add: hw_Set_def update_conv')

lemma fold_hw_Set:
  "hw_sent (fold (\<lambda>(k, v). hw_Set k v) hs w) = hw_sent w"
  "hw_body (fold (\<lambda>(k, v). hw_Set k v) hs w) = hw_body w"
  "map_of (hw_Header (fold (\<lambda>(k, v). hw_Set k v) hs w)) =
     map_of (hw_Header w) ++ map_of (rev (map (\<lambda>(k, v). (canonical_key k, v)) hs))"
  by (induction hs arbitrary: w) (auto simp: map_add_def fun_eq_iff split: option.splits)

lemma canonical_content_type [simp]: "canonical_key ''Content-Type'' = ''Content-Type''"
  by code_simp

lemma hw_WriteHeader_fresh:
  assumes "hw_sent w = None"
  shows "hw_WriteHeader status w =
    (if status < 100 \<or> 999 < status then Panics else Returns (w\<lparr>hw_sent := Some (status, hw_Header w)\<rparr>))"
  using assms by (simp add: hw_WriteHeader_def)

lemma hw_WriteHeader_sent: "hw_sent w = Some p \<Longrightarrow> hw_WriteHeader status w = Returns w"
  by (simp add: hw_WriteHeader_def)

lemma hw_Write_sent:
  "hw_sent w = Some (status, h) \<Longrightarrow>
   hw_Write b w = Returns (if body_allowed status then w\<lparr>hw_body := hw_body w @ b\<rparr> else w)"
  by (simp add: hw_Write_def hw_WriteHeader_sent)

lemma hw_Write_fresh:
  "hw_sent w = None \<Longrightarrow> hw_Write b w = Returns (w\<lparr>hw_sent := Some (200, hw_Header w), hw_body := hw_body w @ b\<rparr>)"
  by (simp add: hw_Write_def hw_WriteHeader_def body_allowed_def)

lemmas hw_steps = hw_WriteHeader_fresh hw_Write_sent hw_Write_fresh

text \<open>What is sent for a trace: the custom response if there is one.\<close>

definition trace_custom :: "script_trace \<Rightarrow> trace_response option" where
  "trace_custom trace = (case st_Result trace of None \<Rightarrow> None | Some r \<Rightarrow> tr_Response r)"

definition trace_http_status :: "script_trace \<Rightarrow> int" where
  "trace_http_status trace =
     (if st_Status trace = failureStatus then 500 else if st_Status trace = blockedStatus then 429
      else if st_Status trace = timeoutStatus then 408 else 200)"

lemma statusToHTTPCode_cases:
  "(case map_of statusToHTTPCode s of None \<Rightarrow> 200 | Some code \<Rightarrow> code) =
     (if s = failureStatus then 500 else if s = blockedStatus then 429 else if s = timeoutStatus then 408 else 200)"
  "map_of statusToHTTPCode s = Some code \<Longrightarrow> 400 \<le> code \<and> code \<le> 500 \<and> body_allowed code"
  by (auto simp: statusToHTTPCode_def status_defs body_allowed_def split: if_splits)

lemma writeTraceResponse_plain:
  assumes "hw_sent w = None" "trace_custom trace = None"
  shows "\<exists>w'. writeTraceResponse json trace w = Returns w' \<and>
    hw_sent w' = Some (trace_http_status trace, hw_Header (hw_Set ''Content-Type'' jsonContentType w)) \<and>
    hw_body w' = hw_body w @ json (trace\<lparr>st_Weight := 0\<rparr>)"
proof (cases "map_of statusToHTTPCode (st_Status trace)")
  case None
  then have "trace_http_status trace = 200"
    using statusToHTTPCode_cases(1) [of "st_Status trace"] by (simp add: trace_http_status_def)
  with None assms show ?thesis
    by (auto simp: writeTraceResponse_def trace_custom_def hw_steps Let_def split: option.splits)
next
  case (Some code)
  then have "trace_http_status trace = code" "400 \<le> code" "code \<le> 500" "body_allowed code"
    using statusToHTTPCode_cases(1) [of "st_Status trace"] statusToHTTPCode_cases(2) [OF Some]
    by (simp_all add: trace_http_status_def)
  with Some assms show ?thesis
    by (auto simp: writeTraceResponse_def trace_custom_def hw_steps Let_def split: option.splits)
qed

lemma writeTraceResponse_custom:
  assumes "hw_sent w = None" "trace_custom trace = Some resp" "100 \<le> sint (tp_Status resp)" "sint (tp_Status resp) \<le> 999"
  shows "\<exists>w' h. writeTraceResponse json trace w = Returns w' \<and> hw_sent w' = Some (sint (tp_Status resp), h) \<and>
    map_of h = (map_of (hw_Header w) ++ map_of (rev (map (\<lambda>(k, v). (canonical_key k, v)) (tp_Headers resp))))
                 (''Content-Type'' \<mapsto> tp_ContentType resp) \<and>
    hw_body w' = hw_body w @ (if body_allowed (sint (tp_Status resp)) then tp_Content resp else [])"
  using assms
  by (auto simp: writeTraceResponse_def trace_custom_def hw_steps fold_hw_Set split: option.splits)

lemma writeTraceResponse_bad_status:
  assumes "hw_sent w = None" "trace_custom trace = Some resp" "sint (tp_Status resp) < 100 \<or> 999 < sint (tp_Status resp)"
  shows "writeTraceResponse json trace w = Panics"
  using assms by (auto simp: writeTraceResponse_def trace_custom_def hw_steps fold_hw_Set split: option.splits)

lemma httpError_fresh:
  assumes "hw_sent w = None" "100 \<le> status" "status \<le> 999" "body_allowed status"
  shows "\<exists>w'. httpError status err w = Returns w' \<and> hw_sent w' = Some (status, hw_Header w)"
  using assms by (auto simp: httpError_def hw_steps)


text \<open>The responses of a stream never make the call fail: their error is part of the result.\<close>

lemma never_fails_on_world [never_fails_intros]:
  "(\<And>w e w'. m w \<noteq> (Inl e, w')) \<Longrightarrow> never_fails (on_world_b m)"
  by (auto simp: never_fails_def on_world_b_def lift_eff_def split: prod.splits)

lemma never_fails_retSend [never_fails_intros]: "never_fails (retSend env listening r)"
  unfolding retSend_def by (intro never_fails_intros)

lemma never_fails_collect [never_fails_intros]: "never_fails (collect_chunks env listening result chunks)"
  by (induction chunks arbitrary: listening result) (auto intro!: never_fails_intros split: option.splits)

lemma never_fails_processResponse [never_fails_intros]: "never_fails (processResponse env meta str listening)"
  unfolding processResponse_def
  by (intro never_fails_intros) (auto intro!: never_fails_intros simp: Let_def split: prod.splits list.splits)

lemma never_fails_save_cache [never_fails_intros]: "never_fails (save_cache env payload ckey trace)"
  unfolding save_cache_def by (auto intro!: never_fails_intros split: sum.splits)

definition answers :: "(http_writer \<Rightarrow> http_writer outcome) \<Rightarrow> bool" where
  "answers f \<longleftrightarrow> (\<forall>w w'. hw_sent w = None \<longrightarrow> f w = Returns w' \<longrightarrow> hw_sent w' \<noteq> None)"

lemma answers_httpError: "answers (httpError status err)"
  by (auto simp: answers_def httpError_def hw_steps split: if_splits)

lemma answers_writeTraceResponse: "answers (writeTraceResponse json trace)"
  unfolding answers_def
proof (intro allI impI)
  fix w w' assume w: "hw_sent w = None" "writeTraceResponse json trace w = Returns w'"
  show "hw_sent w' \<noteq> None"
  proof (cases "trace_custom trace")
    case None
    with writeTraceResponse_plain [OF w(1) None, of json] w(2) show ?thesis by auto
  next
    case (Some resp)
    with w show ?thesis
      by (auto simp: writeTraceResponse_def trace_custom_def hw_steps fold_hw_Set split: option.splits if_splits)
  qed
qed

lemma answer_ReturnsD:
  "answers f \<Longrightarrow> answer f w b = Returns s \<Longrightarrow> hw_sent w = None \<Longrightarrow> hw_sent (us_writer s) \<noteq> None"
  by (cases "f w") (auto simp: answer_def answers_def)

lemma run_request_answers:
  assumes "run_request env payload ckey metas chunks w b = Returns s" "hw_sent w = None"
  shows "hw_sent (us_writer s) \<noteq> None"
proof -
  obtain meta lbMeta scriptMeta where [simp]: "metas = (meta, lbMeta, scriptMeta)" by (cases metas)
  obtain p where p: "sendRunToLoadbalancer (ue_broker env) meta lbMeta scriptMeta (Some (NewArrayChunkReader chunks)) b = Returns p"
    using assms(1) by (cases "sendRunToLoadbalancer (ue_broker env) meta lbMeta scriptMeta (Some (NewArrayChunkReader chunks)) b")
      (auto simp: run_request_def)
  show ?thesis
  proof (cases p)
    case (Pair r b1)
    show ?thesis
    proof (cases r)
      case (Inl e)
      with p Pair assms show ?thesis
        by (auto simp: run_request_def dest: answer_ReturnsD [OF answers_httpError])
    next
      case (Inr str)
      let ?m = "andThen (processResponse (ue_broker env) meta str False)
                   (\<lambda>(trace, _). andThen (save_cache env payload ckey trace) (\<lambda>_. return trace))"
      have "never_fails ?m" by (intro never_fails_intros) (auto intro!: never_fails_intros)
      with p Pair Inr assms(1) obtain trace b2 where "?m b1 = Returns (Inr trace, b2)"
        by (cases "?m b1") (auto simp: run_request_def elim: never_fails_Inr)
      with p Pair Inr assms(1) have "answer (writeTraceResponse (ue_MarshalTrace env) trace) w b2 = Returns s"
        by (simp add: run_request_def)
      then show ?thesis using assms(2) by (rule answer_ReturnsD [OF answers_writeTraceResponse])
    qed
  qed
qed

lemma cached_trace_never_fails: "never_fails (cached_trace env r payload ckey)"
  unfolding cached_trace_def by (auto intro!: never_fails_intros split: sum.splits)


lemma processResponse_no_response:
  assumes "be_Responses env str (br_world s) = (([], e), w)"
  shows "\<exists>now w'. processResponse env meta str listening s = Returns (Inr
    (NewScriptTrace (be_trace env) now (bm_TraceId meta) None, Some e), s\<lparr>br_world := w'\<rparr>)"
proof -
  have recv: "on_world_b (\<lambda>w. case be_Responses env str w of (rs, w') \<Rightarrow> (Inr rs, w')) s = Returns (Inr ([], e), s\<lparr>br_world := w\<rparr>)"
    using assms by (intro on_world_b_run) simp
  let ?t = "NewScriptTrace (be_trace env) (be_Now env w) (bm_TraceId meta) None"
  obtain x w3 where "saveTrace env (bm_Trace meta) ?t (s\<lparr>br_world := w\<rparr>) = Returns (x, s\<lparr>br_world := w3\<rparr>)"
    using saveTrace_returns [of env "bm_Trace meta" ?t "s\<lparr>br_world := w\<rparr>"] by auto
  with recv show ?thesis by (auto simp: processResponse_def proc_eval Let_def)
qed

section \<open>Properties\<close>

text \<open>
  C37: the response of a trace. On a writer that has sent nothing, a trace with a custom response
  is answered with the status, the content type and the headers the script set (in canonical
  form, the content type last, so that no header of the script replaces it) and its content if
  the status allows a body; any other trace is answered as JSON, without its weight, with 500
  after a failure, 429 when the run was blocked, 408 after a timeout and 200 otherwise. A custom
  status outside 100 to 999 is a panic of the handler.
\<close>

theorem uwsgi_trace_response:
  assumes "hw_sent w = None"
  shows "case trace_custom trace of
      Some resp \<Rightarrow>
        (if sint (tp_Status resp) < 100 \<or> 999 < sint (tp_Status resp) then writeTraceResponse json trace w = Panics
         else \<exists>w' h. writeTraceResponse json trace w = Returns w' \<and> hw_sent w' = Some (sint (tp_Status resp), h) \<and>
           map_of h = (map_of (hw_Header w) ++ map_of (rev (map (\<lambda>(k, v). (canonical_key k, v)) (tp_Headers resp))))
                        (''Content-Type'' \<mapsto> tp_ContentType resp) \<and>
           hw_body w' = hw_body w @ (if body_allowed (sint (tp_Status resp)) then tp_Content resp else []))
    | None \<Rightarrow>
        (\<exists>w' h. writeTraceResponse json trace w = Returns w' \<and> hw_sent w' = Some (trace_http_status trace, h) \<and>
           map_of h = (map_of (hw_Header w))(''Content-Type'' \<mapsto> jsonContentType) \<and>
           hw_body w' = hw_body w @ json (trace\<lparr>st_Weight := 0\<rparr>))"
proof (cases "trace_custom trace")
  case None
  obtain w' where "writeTraceResponse json trace w = Returns w'"
    "hw_sent w' = Some (trace_http_status trace, hw_Header (hw_Set ''Content-Type'' jsonContentType w))"
    "hw_body w' = hw_body w @ json (trace\<lparr>st_Weight := 0\<rparr>)"
    using writeTraceResponse_plain [OF assms None, of json] by blast
  with None show ?thesis by simp
next
  case (Some resp)
  then show ?thesis
    using writeTraceResponse_custom [OF assms Some, of json] writeTraceResponse_bad_status [OF assms Some, of json]
    by simp
qed

definition fresh_writer :: http_writer where
  "fresh_writer = \<lparr>hw_Header = [], hw_sent = None, hw_body = []\<rparr>"

lemma fresh_writer_simps [simp]: "hw_sent fresh_writer = None" "hw_body fresh_writer = []" "hw_Header fresh_writer = []"
  by (simp_all add: fresh_writer_def)

definition toy_trace :: "trace_response option \<Rightarrow> script_trace" where
  "toy_trace resp = \<lparr>st_ID = 1, st_ExecutedAt = ''t'', st_Status = successStatus, st_Duration = 1,
     st_Result = Some \<lparr>tr_Stdout = [], tr_Stderr = [], tr_Response = resp\<rparr>, st_Weight = 4\<rparr>"

theorem uwsgi_trace_response_witness:
  "\<exists>w' h. writeTraceResponse (\<lambda>_. []) (toy_trace (Some \<lparr>tp_Status = 201, tp_ContentType = ''text/plain'',
        tp_Content = [7], tp_Headers = [(''content-type'', ''x''), (''x-a'', ''b'')]\<rparr>)) fresh_writer = Returns w' \<and>
     hw_sent w' = Some (201, h) \<and> map_of h ''Content-Type'' = Some ''text/plain'' \<and>
     map_of h (canonical_key ''x-a'') = Some ''b'' \<and> hw_body w' = [7]"
proof -
  let ?resp = "\<lparr>tp_Status = 201, tp_ContentType = ''text/plain'', tp_Content = [7 :: 8 word],
     tp_Headers = [(''content-type'', ''x''), (''x-a'', ''b'')]\<rparr>"
  have c: "trace_custom (toy_trace (Some ?resp)) = Some ?resp" by (simp add: trace_custom_def toy_trace_def)
  have keys: "canonical_key ''content-type'' = ''Content-Type''" "canonical_key ''x-a'' = ''X-A''" by code_simp+
  have b: "body_allowed 201" by (simp add: body_allowed_def)
  show ?thesis
    using uwsgi_trace_response [OF fresh_writer_simps(1), of "\<lambda>_. []" "toy_trace (Some ?resp)"] b
    by (auto simp: c keys)
qed

text \<open>
  C38: every request that the handler ends with is answered: whatever fails on the way, a status
  and headers have been sent.
\<close>

theorem uwsgi_always_answers:
  assumes "RunHandler env r w0 b0 = Returns s" "hw_sent w0 = None"
  shows "hw_sent (us_writer s) \<noteq> None"
proof -
  define w where "w = (if rq_Header r ''HTTP_ORIGIN'' = [] then w0 else hw_Set ''Access-Control-Allow-Origin'' ''*'' w0)"
  have w: "hw_sent w = None" using assms(2) by (simp add: w_def)
  note closed = answer_ReturnsD [OF answers_httpError _ w] answer_ReturnsD [OF answers_writeTraceResponse _ w]
    run_request_answers [OF _ w]
  obtain p b1 where load: "loadPayload env r b0 = Returns (p, b1)"
    using assms(1) by (cases "loadPayload env r b0") (auto simp: RunHandler_def)
  show ?thesis
  proof (cases p)
    case (Inl e)
    with assms(1) load show ?thesis by (auto simp: RunHandler_def w_def [symmetric] dest: closed)
  next
    case (Inr payload)
    define ckey where "ckey = createCacheKey (rq_Header r ''INSTANCE_PK'') (up_EndpointName payload) (up_SourceHash payload)"
    obtain c b2 where c: "cached_trace env r payload ckey b1 = Returns (Inr c, b2)"
      using assms(1) load Inr
      by (cases "cached_trace env r payload ckey b1")
        (auto simp: RunHandler_def w_def [symmetric] ckey_def [symmetric] elim: never_fails_Inr [OF cached_trace_never_fails])
    show ?thesis
      using assms(1) load Inr c
      by (auto simp: RunHandler_def Let_def w_def [symmetric] ckey_def [symmetric]
               dest!: closed elim!: bind_outcome_ReturnsE split: option.splits sum.splits if_splits)
  qed
qed


text \<open>
  A broker over a world that is the store of redis: its load balancer has every source, and
  answers every run with the given responses.
\<close>

definition redis_broker_env :: "run_response list \<Rightarrow> (string, bytes) gomap broker_env" where
  "redis_broker_env rs = \<lparr>be_Dial = \<lambda>_. eff_return 0, be_CloseConn = \<lambda>_. eff_return (), be_Exists = \<lambda>_ _. eff_return True,
     be_Upload = \<lambda>_. eff_fail EUnexpectedEOF, be_UploadSend = \<lambda>_ _. eff_return (), be_UploadRecv = \<lambda>_. eff_return True,
     be_Run = \<lambda>_. eff_return 0, be_RunSend = \<lambda>_ _. eff_return (), be_CloseSend = \<lambda>_. eff_return (),
     be_Responses = \<lambda>_ w. ((rs, EEOF), w), be_Delete = \<lambda>_ _. eff_return [],
     be_Download = \<lambda>_ w. ([], w), be_Respond = \<lambda>_. eff_return (), be_Publish = \<lambda>_. eff_return (), be_Now = \<lambda>_. 0,
     be_Hash = \<lambda>_. 0, be_Retry = \<lambda>_ m. m, be_trace = \<lparr>te_ToQuoteJSON = \<lambda>b. b, te_Format = \<lambda>_. ''t''\<rparr>\<rparr>"

text \<open>The packing of a trace keeps here no more than the trace of a blocked run.\<close>

definition blocked_trace :: script_trace where
  "blocked_trace = \<lparr>st_ID = 0, st_ExecutedAt = ''t'', st_Status = blockedStatus, st_Duration = 0,
     st_Result = None, st_Weight = 0\<rparr>"

definition toy_payload :: uwsgi_payload where
  "toy_payload = \<lparr>up_OutputLimit = 0, up_Files = [], up_SourceHash = ''s'', up_Entrypoint = [], up_Environment = [],
     up_EnvironmentURL = [], up_Trace = None,
     up_Run = \<lparr>ur_Args = [], ur_Config = [], ur_Meta = [], ur_Runtime = ''nodejs_v12'', ur_ConcurrencyLimit = 1,
       ur_Timeout = \<lparr>fl_positive = True, fl_millis = 1000\<rparr>, ur_Async = 0, ur_MCPU = 0\<rparr>,
     up_Cache = \<lparr>fl_positive = True, fl_millis = 60000\<rparr>, up_EndpointName = ''e''\<rparr>"

definition toy_uwsgi_env :: "run_response list \<Rightarrow> (string, bytes) gomap uwsgi_env" where
  "toy_uwsgi_env rs = \<lparr>ue_broker = redis_broker_env rs,
     ue_RedisGet = \<lambda>k w. (case map_of w k of None \<Rightarrow> Inl EEOF | Some v \<Rightarrow> Inr v, w),
     ue_RedisDel = \<lambda>k w. (Inr (), AList.delete k w),
     ue_RedisSet = \<lambda>k v _ w. (Inr (), AList.update k v w),
     ue_UnmarshalPayload = \<lambda>_. Inr toy_payload, ue_MarshalTrace = \<lambda>_. [1],
     ue_PackTrace = \<lambda>t. if t = blocked_trace then Inr [2] else Inl EEOF,
     ue_UnpackTrace = \<lambda>d. if d = [2] then Inr blocked_trace else Inl EEOF, ue_MarshalArgs = \<lambda>_. Inr []\<rparr>"

lemma toy_uwsgi_env_simps [simp]:
  "ue_broker (toy_uwsgi_env rs) = redis_broker_env rs"
  "ue_RedisGet (toy_uwsgi_env rs) k w = (case map_of w k of None \<Rightarrow> Inl EEOF | Some v \<Rightarrow> Inr v, w)"
  "ue_RedisDel (toy_uwsgi_env rs) k w = (Inr (), AList.delete k w)"
  "ue_RedisSet (toy_uwsgi_env rs) k v ttl w = (Inr (), AList.update k v w)"
  "ue_UnmarshalPayload (toy_uwsgi_env rs) d = Inr toy_payload" "ue_MarshalTrace (toy_uwsgi_env rs) t = [1]"
  "ue_PackTrace (toy_uwsgi_env rs) t = (if t = blocked_trace then Inr [2] else Inl EEOF)"
  "ue_UnpackTrace (toy_uwsgi_env rs) d = (if d = [2] then Inr blocked_trace else Inl EEOF)"
  by (simp_all add: toy_uwsgi_env_def)

definition redis_broker :: "(string, bytes) gomap \<Rightarrow> (string, bytes) gomap broker" where
  "redis_broker store = \<lparr>br_lbServers = [toy_balancer], br_uploads = [], br_closed = [], br_next_ch = 0,
     br_options = DefaultBrokerOptions, br_world = store, br_spawned = []\<rparr>"

definition toy_request :: http_request where
  "toy_request = \<lparr>rq_Header = (\<lambda>k. if k = ''PAYLOAD_KEY'' then ''p'' else if k = ''TRACE_PK'' then ''7'' else ''''),
     rq_Query = \<lambda>_. [], rq_Form = [], rq_Files = [], rq_JSON = None\<rparr>"

theorem uwsgi_always_answers_witness:
  "\<exists>s. RunHandler (toy_uwsgi_env []) toy_request fresh_writer (redis_broker []) = Returns s \<and> hw_sent (us_writer s) \<noteq> None"
proof -
  have "loadPayload (toy_uwsgi_env []) toy_request (redis_broker []) = Returns (Inl EEOF, redis_broker [])"
    by (simp add: loadPayload_def toy_request_def redis_broker_def proc_eval on_world_b_def lift_eff_def Let_def)
  then obtain s where "RunHandler (toy_uwsgi_env []) toy_request fresh_writer (redis_broker []) = Returns s"
    using httpError_fresh [OF fresh_writer_simps(1), of 500 "''Loading payload failure.''"]
    by (auto simp: RunHandler_def toy_request_def answer_def body_allowed_def)
  from this uwsgi_always_answers [OF this fresh_writer_simps(1)] show ?thesis by auto
qed

text \<open>
  C39: a blocked run is cached like any other. When the stream of a run fails before its first
  response and the endpoint has a cache, the request is answered with 429, and the trace that
  says so is stored: as long as it is kept, the requests with the same key get it as their
  answer, and nothing runs.
\<close>

theorem uwsgi_blocked_cached:
  assumes redis: "\<And>k v ttl w. \<exists>w' w''. ue_RedisSet env k v ttl w = (Inr (), w') \<and> ue_RedisGet env k w' = (Inr v, w'')"
    and pack: "\<And>now. \<exists>d. ue_PackTrace env (NewScriptTrace (be_trace (ue_broker env)) now (bm_TraceId meta) None) = Inr d \<and>
      ue_UnpackTrace env d = Inr (NewScriptTrace (be_trace (ue_broker env)) now (bm_TraceId meta) None)"
    and send: "sendRunToLoadbalancer (ue_broker env) meta lbMeta scriptMeta (Some (NewArrayChunkReader chunks)) b
      = Returns (Inr str, b1)"
    and broken: "be_Responses (ue_broker env) str (br_world b1) = (([], e), w1)"
    and cache: "fl_positive (up_Cache payload)" and fresh: "hw_sent w = None"
  shows "\<exists>s h. run_request env payload ckey (meta, lbMeta, scriptMeta) chunks w b = Returns s \<and>
    hw_sent (us_writer s) = Some (429, h) \<and>
    (\<forall>r payload'. fl_positive (up_Cache payload') \<and> rq_Query r ''__skip_cache'' \<noteq> ''1'' \<longrightarrow>
       (\<exists>t b'. cached_trace env r payload' ckey (us_broker s) = Returns (Inr (Some t), b') \<and> trace_http_status t = 429))"
proof -
  let ?t = "\<lambda>now. NewScriptTrace (be_trace (ue_broker env)) now (bm_TraceId meta) None"
  have t: "st_Status (?t now) = blockedStatus" "st_Result (?t now) = None" "st_ID (?t now) = bm_TraceId meta" for now
    by (simp_all add: NewScriptTrace_def)
  obtain now b2 where resp: "processResponse (ue_broker env) meta str False b1 = Returns (Inr (?t now, Some e), b2)"
    using processResponse_no_response [OF broken, of meta False] by blast
  obtain d where d: "ue_PackTrace env (?t now) = Inr d" "ue_UnpackTrace env d = Inr (?t now)"
    using pack by blast
  obtain w' w'' where set: "ue_RedisSet env ckey d (wrap64 (fl_millis (up_Cache payload) * 1000000)) (br_world b2) = (Inr (), w')"
    and get: "ue_RedisGet env ckey w' = (Inr d, w'')"
    using redis by blast
  have put: "on_world_b (ue_RedisSet env ckey d (wrap64 (fl_millis (up_Cache payload) * 1000000))) b2 =
      Returns (Inr (), b2\<lparr>br_world := w'\<rparr>)"
    by (intro on_world_b_run) (rule set)
  have save: "save_cache env payload ckey (?t now) b2 = Returns (Inr (), b2\<lparr>br_world := w'\<rparr>)"
    using cache d(1) put by (simp add: save_cache_def proc_eval)
  have c: "trace_custom (?t now) = None" "trace_http_status (?t now) = 429"
    using t by (simp_all add: trace_custom_def trace_http_status_def status_defs)
  obtain v h where "writeTraceResponse (ue_MarshalTrace env) (?t now) w = Returns v" "hw_sent v = Some (429, h)"
    using writeTraceResponse_plain [OF fresh c(1)] c(2) by metis
  then have "run_request env payload ckey (meta, lbMeta, scriptMeta) chunks w b =
      Returns \<lparr>us_broker = b2\<lparr>br_world := w'\<rparr>, us_writer = v\<rparr> \<and> hw_sent v = Some (429, h)"
    using send resp save by (simp add: run_request_def proc_eval answer_def)
  moreover have "cached_trace env r payload' ckey (b2\<lparr>br_world := w'\<rparr>) = Returns (Inr (Some (?t now)), b2\<lparr>br_world := w''\<rparr>)"
    if "fl_positive (up_Cache payload')" "rq_Query r ''__skip_cache'' \<noteq> ''1''" for r payload'
  proof -
    have "on_world_b (ue_RedisGet env ckey) (b2\<lparr>br_world := w'\<rparr>) = Returns (Inr d, b2\<lparr>br_world := w''\<rparr>)"
      using get by (simp add: on_world_b_def lift_eff_def)
    with that d(2) show ?thesis by (simp add: cached_trace_def proc_eval)
  qed
  ultimately show ?thesis using c(2) by fastforce
qed


definition toy_metas :: "broker_meta \<times> lb_meta \<times> script_meta" where
  "toy_metas = (\<lparr>bm_Files = [], bm_EnvironmentUrl = [], bm_Trace = None, bm_TraceId = 0, bm_Sync = True\<rparr>,
     \<lparr>lm_ConcurrencyKey = ''i'', lm_ConcurrencyLimit = 1\<rparr>,
     \<lparr>sm_Runtime = ''nodejs_v12'', sm_SourceHash = ''s'', sm_UserId = ''u'', sm_Environment = [], sm_Options = None\<rparr>)"

lemma toy_send:
  "toy_metas = (meta, lbMeta, scriptMeta) \<Longrightarrow>
   sendRunToLoadbalancer (redis_broker_env rs) meta lbMeta scriptMeta (Some (NewArrayChunkReader [])) (redis_broker store) =
     Returns (Inr 0, redis_broker store)"
  by (simp add: toy_metas_def sendRunToLoadbalancer_def redis_broker_env_def redis_broker_def try_run_def uploadFiles_def
      wrapping_def updateTrace_def NewArrayChunkReader_def proc_eval on_world_b_def lift_eff_def Let_def)
    (auto simp: toy_metas_def NewArrayChunkReader_def updateTrace_def wrapping_def uploadFiles_def proc_eval on_world_b_def lift_eff_def)

theorem uwsgi_blocked_cached_witness:
  "\<exists>s h t b'. run_request (toy_uwsgi_env []) toy_payload ''c'' toy_metas [] fresh_writer (redis_broker []) = Returns s \<and>
    hw_sent (us_writer s) = Some (429, h) \<and>
    cached_trace (toy_uwsgi_env []) toy_request toy_payload ''c'' (us_broker s) = Returns (Inr (Some t), b') \<and>
    trace_http_status t = 429"
proof -
  obtain meta lbMeta scriptMeta where m: "toy_metas = (meta, lbMeta, scriptMeta)" by (cases toy_metas)
  then have tid: "bm_TraceId meta = 0" by (auto simp: toy_metas_def)
  have new: "NewScriptTrace (be_trace (redis_broker_env [])) now (bm_TraceId meta) None = blocked_trace" for now
    by (simp add: NewScriptTrace_def tid redis_broker_env_def blocked_trace_def)
  have cache: "fl_positive (up_Cache toy_payload)" "rq_Query toy_request ''__skip_cache'' \<noteq> ''1''"
    by (simp_all add: toy_payload_def toy_request_def)
  have resp: "be_Responses (ue_broker (toy_uwsgi_env [])) 0 (br_world (redis_broker [])) = (([], EEOF), [])"
    by (simp add: redis_broker_env_def redis_broker_def)
  have sent: "sendRunToLoadbalancer (ue_broker (toy_uwsgi_env [])) meta lbMeta scriptMeta (Some (NewArrayChunkReader []))
      (redis_broker []) = Returns (Inr 0, redis_broker [])"
    by (simp add: toy_send [OF m])
  obtain s h where run: "run_request (toy_uwsgi_env []) toy_payload ''c'' (meta, lbMeta, scriptMeta) [] fresh_writer
      (redis_broker []) = Returns s" "hw_sent (us_writer s) = Some (429, h)"
    and hit: "\<exists>t b'. cached_trace (toy_uwsgi_env []) toy_request toy_payload ''c'' (us_broker s) = Returns (Inr (Some t), b') \<and>
      trace_http_status t = 429"
    using uwsgi_blocked_cached [where str = 0 and env = "toy_uwsgi_env []" and ckey = "''c''",
        OF _ _ sent resp cache(1) fresh_writer_simps(1)] cache
    by (fastforce simp: update_conv' new)
  show ?thesis using run hit by (auto simp: m)
qed

text \<open>
  The content type of an error is lost. \<open>httpError\<close> sends the status and the headers before
  it sets the type, so the JSON it writes goes out with the headers as they were, without the type.
\<close>

theorem uwsgi_error_type_lost:
  assumes "hw_sent w = None" "100 \<le> status" "status \<le> 999" "map_of (hw_Header w) ''Content-Type'' = None"
  shows "\<exists>w' h. httpError status err w = Returns w' \<and> hw_sent w' = Some (status, h) \<and> h = hw_Header w \<and>
    map_of h ''Content-Type'' = None \<and> map_of (hw_Header w') ''Content-Type'' = Some jsonContentType"
  using assms by (auto simp: httpError_def hw_steps)

theorem uwsgi_error_type_lost_witness:
  "\<exists>w' h. httpError 502 ''Processing script failure.'' fresh_writer = Returns w' \<and> hw_sent w' = Some (502, h) \<and>
    map_of h ''Content-Type'' = None"
  using uwsgi_error_type_lost [OF fresh_writer_simps(1), of 502 "''Processing script failure.''"] by auto


end
