(* ===== verification/Running_Flag.thy ===== *)
theory Running_Flag
  imports Errors
begin

text \<open>
  The flag with which three components make their shutdown happen once: \<open>setRunning\<close> swaps an
  atomic integer and tells whether it changed.
\<close>

locale running_flag =
  fixes set_running :: "bool \<Rightarrow> 's \<Rightarrow> bool \<times> 's"
    and is_running :: "'s \<Rightarrow> bool"
  assumes set_changes: "fst (set_running b s) \<longleftrightarrow> is_running s \<noteq> b"
    and set_state: "is_running (snd (set_running b s)) = b"
begin

lemma second_set: "\<not> fst (set_running b (snd (set_running b s)))"
  by (simp add: set_changes set_state)

text \<open>
  A sequence of calls that only clear the flag, each followed by what leaves the flag alone:
  at most the first of them sees a change.
\<close>

fun clears :: "('s \<Rightarrow> 's) list \<Rightarrow> 's \<Rightarrow> bool list" where
  "clears [] s = []"
| "clears (f # fs) s = fst (set_running False s) # clears fs (f (snd (set_running False s)))"

lemma clears_when_off:
  "\<forall>f\<in>set fs. \<forall>s. is_running (f s) = is_running s \<Longrightarrow> \<not> is_running s \<Longrightarrow> True \<notin> set (clears fs s)"
proof (induction fs arbitrary: s)
  case (Cons f fs)
  then show ?case using set_state [of False s] by (auto simp: set_changes)
qed simp

lemma clears_once:
  assumes "\<forall>f\<in>set fs. \<forall>s. is_running (f s) = is_running s"
  shows "length (filter id (clears fs s)) = (if is_running s \<and> fs \<noteq> [] then 1 else 0)"
proof (cases fs)
  case (Cons f fs')
  have "\<not> is_running (f (snd (set_running False s)))" using assms Cons set_state [of False s] by auto
  then have "True \<notin> set (clears fs' (f (snd (set_running False s))))"
    using assms Cons by (intro clears_when_off) auto
  then have "filter id (clears fs' (f (snd (set_running False s)))) = []" by (auto simp: filter_empty_conv)
  then show ?thesis using Cons set_changes [of False s] by simp
qed simp

end

end
