(* ===== verification/Amqp_Channel.thy ===== *)
theory Amqp_Channel
  imports Running_Flag
begin

text \<open>
  The connection to the message broker that reconnects (cmd/amqp/client.go). A goroutine waits
  for the end of the channel; on a loss it holds the mutex and connects again until it has
  succeeded or the channel is shut down.
\<close>

section \<open>State\<close>

text \<open>
  The monitor: it waits on a channel, is in the loop that reconnects (with the time it sleeps
  next), has ended, or has dereferenced a nil channel, which ends the process.
\<close>

datatype monitor = NotStarted | Waiting | Reconnecting int | Ended | Crashed

record 'w amqp_channel =
  aq_ch :: "nat option"
  aq_running :: bool
  aq_queues :: "string list"
  aq_monitor :: monitor
  aq_world :: 'w

text \<open>The client library: dialling, opening and closing a channel, and its declarations.\<close>

record 'w amqp_env =
  am_Dial :: "string \<Rightarrow> ('w, nat) eff"
  am_Channel :: "nat \<Rightarrow> ('w, nat) eff"
  am_ExchangeDeclare :: "nat \<Rightarrow> ('w, unit) eff"
  am_QueueDeclare :: "nat \<Rightarrow> string \<Rightarrow> ('w, unit) eff"
  am_Publish :: "nat \<Rightarrow> string \<Rightarrow> string \<Rightarrow> bytes \<Rightarrow> ('w, unit) eff"
  am_CloseChannel :: "nat \<Rightarrow> ('w, unit) eff"
  am_CloseConn :: "nat \<Rightarrow> ('w, unit) eff"

definition amqpRetrySleep :: int where "amqpRetrySleep = 250 * 10 ^ 6"
definition amqpMaxRetrySleep :: int where "amqpMaxRetrySleep = 2 * 10 ^ 9"

text \<open>What is closed on the way out does not change the result.\<close>

definition eff_then_close :: "('w, unit) eff \<Rightarrow> go_error \<Rightarrow> ('w, 'a) eff" where
  "eff_then_close m e = eff_case m (\<lambda>_. eff_fail e) (\<lambda>_. eff_fail e)"

definition open_channel :: "'w amqp_env \<Rightarrow> string \<Rightarrow> ('w, nat) eff" where
  "open_channel env url =
     eff_bind (am_Dial env url) (\<lambda>conn.
     eff_case (am_Channel env conn)
       (eff_then_close (am_CloseConn env conn))
       (\<lambda>ch. eff_case (am_ExchangeDeclare env ch)
          (\<lambda>e. eff_case (am_CloseChannel env ch)
             (\<lambda>_. eff_then_close (am_CloseConn env conn) e) (\<lambda>_. eff_then_close (am_CloseConn env conn) e))
          (\<lambda>_. eff_return ch)))"

definition connect :: "'w amqp_env \<Rightarrow> string \<Rightarrow> 'w amqp_channel \<Rightarrow> go_error option \<times> 'w amqp_channel" where
  "connect env url s =
     (case open_channel env url (aq_world s) of
        (Inl e, w) \<Rightarrow> (Some e, s\<lparr>aq_ch := None, aq_world := w\<rparr>)
      | (Inr ch, w) \<Rightarrow> (None, s\<lparr>aq_ch := Some ch, aq_queues := [], aq_world := w\<rparr>))"

definition amqp_setRunning :: "bool \<Rightarrow> 'w amqp_channel \<Rightarrow> bool \<times> 'w amqp_channel" where
  "amqp_setRunning b s = (aq_running s \<noteq> b, s\<lparr>aq_running := b\<rparr>)"

definition amqp_IsRunning :: "'w amqp_channel \<Rightarrow> bool" where
  "amqp_IsRunning s = aq_running s"

definition amqp_Init :: "'w amqp_env \<Rightarrow> string \<Rightarrow> 'w amqp_channel \<Rightarrow> go_error option \<times> 'w amqp_channel" where
  "amqp_Init env url s =
     (case connect env url s of
        (Some e, s1) \<Rightarrow> (Some e, s1)
      | (None, s1) \<Rightarrow> (None, (snd (amqp_setRunning True s1))\<lparr>aq_monitor := Waiting\<rparr>))"

text \<open>
  \<open>Publish\<close>; the queue is declared once for a connection. Its lock is free when the monitor is
  not reconnecting. A nil channel is a panic.
\<close>

definition publish_on ::
  "'w amqp_env \<Rightarrow> nat \<Rightarrow> string \<Rightarrow> string \<Rightarrow> bytes \<Rightarrow> ('w amqp_channel, unit) proc" where
  "publish_on env ch exchange key msg =
     andThen (get_state aq_queues) (\<lambda>queues.
     andThen (if key \<in> set queues then return ()
              else andThen (lift_eff aq_world (\<lambda>w s. s\<lparr>aq_world := w\<rparr>) (am_QueueDeclare env ch key)) (\<lambda>_.
                   modify (\<lambda>s. s\<lparr>aq_queues := key # aq_queues s\<rparr>))) (\<lambda>_.
     lift_eff aq_world (\<lambda>w s. s\<lparr>aq_world := w\<rparr>) (am_Publish env ch exchange key msg)))"

definition amqp_Publish ::
  "'w amqp_env \<Rightarrow> string \<Rightarrow> string \<Rightarrow> bytes \<Rightarrow> ('w amqp_channel, unit) proc" where
  "amqp_Publish env exchange key msg = (\<lambda>s.
     case aq_monitor s of
       Reconnecting _ \<Rightarrow> Blocks
     | _ \<Rightarrow> (case aq_ch s of None \<Rightarrow> Panics | Some ch \<Rightarrow> publish_on env ch exchange key msg s))"

section \<open>Steps\<close>

text \<open>
  The steps of the monitor and of \<open>Shutdown\<close>, whose two halves are the swap of the flag and,
  once the mutex is free, the close of the channel. \<open>Lost\<close>: the channel ends with an error, so
  that the monitor takes the mutex. An attempt that fails sleeps. \<open>Closed\<close>: the channel ends
  without an error.
\<close>

text \<open>What the monitor does at the start of its loop: \<open>NotifyClose\<close> on the channel.\<close>

definition watch :: "'w amqp_channel \<Rightarrow> 'w amqp_channel" where
  "watch s = s\<lparr>aq_monitor := (if aq_ch s = None then Crashed else Waiting)\<rparr>"

definition retry_step :: "'w amqp_env \<Rightarrow> string \<Rightarrow> int \<Rightarrow> 'w amqp_channel \<Rightarrow> 'w amqp_channel" where
  "retry_step env url sleep s =
     (if \<not> amqp_IsRunning s then watch s
      else case connect env url s of
             (Some e, s1) \<Rightarrow> s1\<lparr>aq_monitor :=
                Reconnecting (if sleep < amqpMaxRetrySleep then sleep + amqpRetrySleep else sleep)\<rparr>
           | (None, s1) \<Rightarrow> watch s1)"

definition shutdown_close :: "'w amqp_env \<Rightarrow> 'w amqp_channel \<Rightarrow> 'w amqp_channel" where
  "shutdown_close env s =
     (case aq_ch s of None \<Rightarrow> s | Some ch \<Rightarrow> s\<lparr>aq_world := snd (am_CloseChannel env ch (aq_world s))\<rparr>)"

text \<open>\<open>Shutdown\<close> by one caller: while the monitor reconnects it waits for the mutex.\<close>

definition amqp_Shutdown :: "'w amqp_env \<Rightarrow> ('w amqp_channel, unit) proc" where
  "amqp_Shutdown env = (\<lambda>s.
     case amqp_setRunning False s of
       (False, s1) \<Rightarrow> Returns (Inr (), s1)
     | (True, s1) \<Rightarrow> (case aq_monitor s1 of Reconnecting _ \<Rightarrow> Blocks | _ \<Rightarrow> Returns (Inr (), shutdown_close env s1)))"

inductive amqp_step :: "'w amqp_env \<Rightarrow> string \<Rightarrow> 'w amqp_channel \<Rightarrow> 'w amqp_channel \<Rightarrow> bool"
  for env :: "'w amqp_env" and url :: string where
  lost: "aq_monitor s = Waiting \<Longrightarrow> amqp_step env url s (s\<lparr>aq_monitor := Reconnecting amqpRetrySleep\<rparr>)"
| closed: "aq_monitor s = Waiting \<Longrightarrow> amqp_step env url s (s\<lparr>aq_monitor := Ended\<rparr>)"
| retry: "aq_monitor s = Reconnecting sleep \<Longrightarrow> amqp_step env url s (retry_step env url sleep s)"
| publish: "amqp_Publish env exchange key msg s = Returns (r, s') \<Longrightarrow> amqp_step env url s s'"
| stop_flag: "amqp_step env url s (snd (amqp_setRunning False s))"
| stop_close: "\<not> amqp_IsRunning s \<Longrightarrow> (\<forall>sleep. aq_monitor s \<noteq> Reconnecting sleep) \<Longrightarrow> amqp_step env url s (shutdown_close env s)"

section \<open>Facts\<close>

interpretation amqp_flag: running_flag amqp_setRunning amqp_IsRunning
  by unfold_locales (simp_all add: amqp_setRunning_def amqp_IsRunning_def)

lemma connect_fields:
  "connect env url s = (r, s1) \<Longrightarrow> aq_running s1 = aq_running s \<and> aq_monitor s1 = aq_monitor s \<and> (aq_ch s1 = None \<longleftrightarrow> r \<noteq> None)"
  by (auto simp: connect_def split: prod.splits sum.splits)

definition same_channel :: "'w amqp_channel \<Rightarrow> 'w amqp_channel \<Rightarrow> bool" where
  "same_channel s s' \<longleftrightarrow> aq_running s' = aq_running s \<and> aq_monitor s' = aq_monitor s \<and> aq_ch s' = aq_ch s"

lemma same_channel_refl: "reflp same_channel" "transp same_channel"
  by (auto simp: same_channel_def reflp_def transp_def)

lemma publish_keeps: "keeps same_channel (publish_on env ch exchange key msg)"
  unfolding publish_on_def
  by (intro keeps_intros same_channel_refl) (auto intro!: keeps_intros keeps_lift keeps_modify same_channel_refl simp: same_channel_def)

lemma publish_fields: "amqp_Publish env exchange key msg s = Returns (r, s') \<Longrightarrow> same_channel s s'"
  by (auto simp: amqp_Publish_def split: monitor.splits option.splits dest: keepsD [OF publish_keeps])

lemma shutdown_close_fields [simp]:
  "aq_running (shutdown_close env s) = aq_running s" "aq_monitor (shutdown_close env s) = aq_monitor s"
  "aq_ch (shutdown_close env s) = aq_ch s"
  by (simp_all add: shutdown_close_def split: option.splits)

text \<open>
  The invariant of a channel that has been initialised: the monitor waits on a channel that is
  there; a crash happens only without a channel, after a shutdown; a sleep is a multiple of the
  first, at most the longest.
\<close>

definition amqp_inv :: "'w amqp_channel \<Rightarrow> bool" where
  "amqp_inv s \<longleftrightarrow>
     (case aq_monitor s of
        NotStarted \<Rightarrow> True
      | Waiting \<Rightarrow> aq_ch s \<noteq> None
      | Reconnecting sleep \<Rightarrow> (\<exists>k. sleep = k * amqpRetrySleep \<and> 1 \<le> k \<and> sleep \<le> amqpMaxRetrySleep)
      | Ended \<Rightarrow> aq_ch s \<noteq> None
      | Crashed \<Rightarrow> aq_ch s = None \<and> \<not> aq_running s)"

lemma next_sleep:
  assumes "sleep = k * amqpRetrySleep" "1 \<le> k" "sleep \<le> amqpMaxRetrySleep"
  shows "\<exists>k. (if sleep < amqpMaxRetrySleep then sleep + amqpRetrySleep else sleep) = k * amqpRetrySleep \<and> 1 \<le> k \<and>
    (if sleep < amqpMaxRetrySleep then sleep + amqpRetrySleep else sleep) \<le> amqpMaxRetrySleep"
proof (cases "sleep < amqpMaxRetrySleep")
  case True
  then have "k < 8" using assms(1) by (simp add: amqpRetrySleep_def amqpMaxRetrySleep_def)
  with True assms show ?thesis
    by (intro exI [of _ "k + 1"]) (simp add: algebra_simps amqpRetrySleep_def amqpMaxRetrySleep_def)
next
  case False
  with assms show ?thesis by (intro exI [of _ k]) auto
qed

lemma amqp_step_inv:
  assumes "amqp_step env url s s'" "amqp_inv s"
  shows "amqp_inv s'"
  using assms
proof (cases rule: amqp_step.cases)
  case lost
  then show ?thesis
    by (auto simp: amqp_inv_def amqpRetrySleep_def amqpMaxRetrySleep_def intro: exI [of _ 1])
next
  case closed
  with assms(2) show ?thesis by (simp add: amqp_inv_def)
next
  case (retry sleep)
  from retry assms(2) obtain k where k: "sleep = k * amqpRetrySleep" "1 \<le> k" "sleep \<le> amqpMaxRetrySleep"
    by (auto simp: amqp_inv_def)
  obtain r s1 where c: "connect env url s = (r, s1)" by fastforce
  show ?thesis
    using retry c next_sleep [OF k] connect_fields [OF c]
    by (cases r) (auto simp: amqp_inv_def retry_step_def watch_def amqp_IsRunning_def)
next
  case (publish exchange key msg r)
  with assms(2) show ?thesis using publish_fields [OF publish] by (simp add: amqp_inv_def same_channel_def split: monitor.splits)
next
  case stop_flag
  with assms(2) show ?thesis by (auto simp: amqp_inv_def amqp_setRunning_def split: monitor.splits)
next
  case stop_close
  with assms(2) show ?thesis by (simp add: amqp_inv_def split: monitor.splits)
qed

lemma amqp_reachable_inv: "(amqp_step env url)\<^sup>*\<^sup>* s s' \<Longrightarrow> amqp_inv s \<Longrightarrow> amqp_inv s'"
  by (induction rule: rtranclp_induct) (auto intro: amqp_step_inv)

section \<open>Properties\<close>

text \<open>
  C33: the channel reconnects in order. From a successful \<open>Init\<close> on, in any interleaving of
  losses, attempts, publishes and shutdowns, the monitor waits only on a channel that is there,
  the sleeps between its attempts are between 250 milliseconds and two seconds, and it
  dereferences a nil channel only after a shutdown.
\<close>

theorem amqp_reconnects_in_order:
  assumes "amqp_Init env url s0 = (None, s)" "(amqp_step env url)\<^sup>*\<^sup>* s s'"
  shows "(aq_monitor s' = Waiting \<longrightarrow> aq_ch s' \<noteq> None) \<and>
    (\<forall>sleep. aq_monitor s' = Reconnecting sleep \<longrightarrow> 250 * 10 ^ 6 \<le> sleep \<and> sleep \<le> 2 * 10 ^ 9) \<and>
    (aq_monitor s' = Crashed \<longrightarrow> aq_ch s' = None \<and> \<not> amqp_IsRunning s')"
proof -
  obtain s1 where c: "connect env url s0 = (None, s1)" and s: "s = (snd (amqp_setRunning True s1))\<lparr>aq_monitor := Waiting\<rparr>"
    using assms(1) by (auto simp: amqp_Init_def split: prod.splits option.splits)
  have "amqp_inv s" using connect_fields [OF c] by (simp add: s amqp_inv_def amqp_setRunning_def)
  from amqp_reachable_inv [OF assms(2) this] show ?thesis
    by (auto simp: amqp_inv_def amqp_IsRunning_def amqpRetrySleep_def amqpMaxRetrySleep_def split: monitor.splits)
qed

text \<open>A broker that can be dialled while the world is positive, and one message takes one.\<close>

definition toy_amqp_env :: "nat amqp_env" where
  "toy_amqp_env = \<lparr>am_Dial = \<lambda>_ w. (if w = 0 then Inl EEOF else Inr 1, w), am_Channel = eff_return,
     am_ExchangeDeclare = \<lambda>_. eff_return (), am_QueueDeclare = \<lambda>_ _. eff_return (),
     am_Publish = \<lambda>_ _ _ _ w. (Inr (), w - 1), am_CloseChannel = \<lambda>_. eff_return (), am_CloseConn = \<lambda>_. eff_return ()\<rparr>"

definition toy_amqp :: "nat \<Rightarrow> monitor \<Rightarrow> bool \<Rightarrow> nat option \<Rightarrow> nat amqp_channel" where
  "toy_amqp w m running ch = \<lparr>aq_ch = ch, aq_running = running, aq_queues = [], aq_monitor = m, aq_world = w\<rparr>"

lemma toy_connect:
  "connect toy_amqp_env url (toy_amqp w m b ch) =
     (if w = 0 then (Some EEOF, toy_amqp w m b None) else (None, toy_amqp w m b (Some 1)))"
  by (simp add: connect_def open_channel_def toy_amqp_env_def toy_amqp_def)

lemma toy_amqp_upd [simp]:
  "(toy_amqp w m b ch)\<lparr>aq_monitor := m'\<rparr> = toy_amqp w m' b ch" "amqp_setRunning b' (toy_amqp w m b ch) = (b \<noteq> b', toy_amqp w m b' ch)"
  "aq_monitor (toy_amqp w m b ch) = m" "amqp_IsRunning (toy_amqp w m b ch) = b" "aq_ch (toy_amqp w m b ch) = ch"
  by (simp_all add: toy_amqp_def amqp_setRunning_def amqp_IsRunning_def)

theorem amqp_reconnects_in_order_witness:
  "\<exists>s. amqp_Init toy_amqp_env ''u'' (toy_amqp 1 NotStarted False None) = (None, s) \<and>
    (\<exists>s' sleep. (amqp_step toy_amqp_env ''u'')\<^sup>*\<^sup>* s s' \<and> aq_monitor s' = Reconnecting sleep \<and> sleep \<le> 2 * 10 ^ 9)"
proof (intro exI conjI)
  show init: "amqp_Init toy_amqp_env ''u'' (toy_amqp 1 NotStarted False None) = (None, toy_amqp 1 Waiting True (Some 1))"
    by (simp add: amqp_Init_def toy_connect)
  show run: "(amqp_step toy_amqp_env ''u'')\<^sup>*\<^sup>* (toy_amqp 1 Waiting True (Some 1)) (toy_amqp 1 (Reconnecting amqpRetrySleep) True (Some 1))"
    using amqp_step.lost [of "toy_amqp 1 Waiting True (Some 1)" toy_amqp_env "''u''"] by simp
  show "aq_monitor (toy_amqp 1 (Reconnecting amqpRetrySleep) True (Some 1)) = Reconnecting amqpRetrySleep" by simp
  with amqp_reconnects_in_order [OF init run] show "amqpRetrySleep \<le> 2 * 10 ^ 9" by blast
qed

text \<open>
  C40: a shutdown during an outage crashes the process. When an attempt to reconnect has failed,
  no channel is there; if the channel is then shut down, the next step of the monitor leaves its
  loop and waits on the nil channel, and whatever else happens before that step, no other step
  of the monitor is possible.
\<close>

theorem amqp_shutdown_in_outage_crashes:
  assumes "aq_monitor s = Reconnecting sleep" "amqp_IsRunning s" "connect env url s = (Some e, s1)"
  shows "\<exists>s2 s3. amqp_step env url s s2 \<and> amqp_step env url s2 s3 \<and> s3 = snd (amqp_setRunning False s2) \<and>
    (\<exists>t. amqp_step env url s3 t \<and> aq_monitor t = Crashed) \<and>
    (\<forall>t. amqp_step env url s3 t \<longrightarrow> aq_monitor t = Crashed \<or> t = s3)"
proof -
  define s2 where "s2 = retry_step env url sleep s"
  define s3 where "s3 = snd (amqp_setRunning False s2)"
  define sleep' where "sleep' = (if sleep < amqpMaxRetrySleep then sleep + amqpRetrySleep else sleep)"
  have s2: "s2 = s1\<lparr>aq_monitor := Reconnecting sleep'\<rparr>"
    using assms(2,3) by (simp add: s2_def sleep'_def retry_step_def)
  then have s3: "aq_monitor s3 = Reconnecting sleep'" "aq_ch s3 = None" "\<not> amqp_IsRunning s3" "aq_running s3 = False"
    using connect_fields [OF assms(3)] by (simp_all add: s3_def amqp_setRunning_def amqp_IsRunning_def)
  have crash: "aq_monitor (retry_step env url sleep' s3) = Crashed"
    using s3 by (simp add: retry_step_def watch_def)
  have "amqp_step env url s s2" using assms(1) unfolding s2_def by (rule amqp_step.retry)
  moreover have "amqp_step env url s2 s3" unfolding s3_def by (rule amqp_step.stop_flag)
  moreover have "amqp_step env url s3 (retry_step env url sleep' s3)" using s3(1) by (rule amqp_step.retry)
  moreover have "aq_monitor t = Crashed \<or> t = s3" if "amqp_step env url s3 t" for t
    using that s3 crash by (cases rule: amqp_step.cases) (auto simp: amqp_Publish_def amqp_setRunning_def)
  ultimately show ?thesis using crash unfolding s3_def by blast
qed

theorem amqp_shutdown_in_outage_crashes_witness:
  "\<exists>t. (amqp_step toy_amqp_env ''u'')\<^sup>*\<^sup>* (toy_amqp 0 (Reconnecting amqpRetrySleep) True (Some 1)) t \<and> aq_monitor t = Crashed"
proof -
  let ?s = "toy_amqp 0 (Reconnecting amqpRetrySleep) True (Some 1)"
  have "connect toy_amqp_env ''u'' ?s = (Some EEOF, toy_amqp 0 (Reconnecting amqpRetrySleep) True None)"
    by (simp add: toy_connect)
  from amqp_shutdown_in_outage_crashes [OF _ _ this] obtain s2 s3 t where
    "amqp_step toy_amqp_env ''u'' ?s s2" "amqp_step toy_amqp_env ''u'' s2 s3" "amqp_step toy_amqp_env ''u'' s3 t" "aq_monitor t = Crashed"
    by auto
  then show ?thesis by (blast intro: converse_rtranclp_into_rtranclp)
qed


end
