(* ===== verification/Runner_Core.thy ===== *)
theory Runner_Core
  imports File_Repo Running_Flag
begin

text \<open>
  The script runner (app/script/runner.go), first part: its state and options, and the
  operations on one container: how a slot of the semaphore is taken and given back, how a
  container is created, retired, cleaned up and evicted. Containers are pointers shared by the
  pool, the cache and the calls in progress, so they live on a heap.
\<close>

section \<open>Options\<close>

record runner_options =
  ro_Concurrency :: u64
  ro_MCPU :: u64
  ro_NodeIOPS :: u64
  ro_MemoryMargin :: u64
  ro_StreamMaxLength :: int
  ro_CreateTimeout :: int
  ro_CreateRetryCount :: int
  ro_CreateRetrySleep :: int
  ro_PruneImages :: bool
  ro_UseExistingImages :: bool
  ro_Constraints :: constraints
  ro_UserCacheConstraints :: "cache_constraints option"
  ro_ContainerTTL :: int
  ro_ContainersCapacity :: int
  ro_HostStoragePath :: string
  ro_StreamCapacityLimit :: int
  ro_StreamPerMinuteQuantum :: int
  ro_UserCacheStreamCapacityLimit :: int
  ro_UserCacheStreamPerMinuteQuantum :: int

definition DefaultRunnerOptions :: runner_options where
  "DefaultRunnerOptions =
     \<lparr>ro_Concurrency = 2, ro_MCPU = 2000, ro_NodeIOPS = 150, ro_MemoryMargin = 100 * 1024 * 1024,
      ro_StreamMaxLength = 512 * 1024, ro_CreateTimeout = 10 * 10 ^ 9, ro_CreateRetryCount = 3,
      ro_CreateRetrySleep = 500 * 10 ^ 6, ro_PruneImages = False, ro_UseExistingImages = False,
      ro_Constraints = \<lparr>CPULimit = 0, CPUPeriod = 0, CPUQuota = 0, IOPSLimit = 0,
        MemoryLimit = 200 * 1024 * 1024, MemorySwapLimit = 0, PidLimit = 32, NofileUlimit = 1024,
        StorageLimit = ''500M''\<rparr>,
      ro_UserCacheConstraints = None, ro_ContainerTTL = 45 * 60 * 10 ^ 9, ro_ContainersCapacity = 250,
      ro_HostStoragePath = ''/home/codebox/storage'', ro_StreamCapacityLimit = 5 * 2 ^ 20,
      ro_StreamPerMinuteQuantum = 2 ^ 20, ro_UserCacheStreamCapacityLimit = 5 * 2 ^ 20,
      ro_UserCacheStreamPerMinuteQuantum = 5 * 2 ^ 20\<rparr>"

section \<open>State\<close>

text \<open>
  The goroutines a call leaves behind, with what they were given: the work after a run, the
  reader of a container's cache stream or of its logs, the notification of a removal.
\<close>

datatype goroutine =
    AfterRun nat string run_options bool "go_error option"
  | ProcessCache nat
  | ReadStdout nat
  | ReadStderr nat
  | NotifyRemoved nat

text \<open>
  The channels of the pool are queues, their capacity is the concurrency. \<open>rn_held\<close> are the
  units acquired of the semaphore, and the file repository carries the state \<open>'w\<close> of the
  outside world.
\<close>

record ('k, 'c, 'w) runner =
  rn_poolID :: string
  rn_running :: bool
  rn_scriptIndex :: "(string, (string, script_def) gomap) gomap"
  rn_containerCache :: 'k
  rn_containerPool :: "(string, nat list) gomap"
  rn_size :: int
  rn_held :: int
  rn_taskWaitGroup :: int
  rn_onRemoved :: bool
  rn_containerWait :: "string list"
  rn_repo :: "('c, 'w) fs_repo"
  rn_options :: runner_options
  rn_workerCPU :: i64
  rn_globals :: cache_globals
  rn_conts :: "nat \<Rightarrow> container"
  rn_next :: nat
  rn_spawned :: "goroutine list"

text \<open>
  The cache of containers (\<open>cache.LRUSetCache\<close>): a set of containers under each key. As for
  the other caches, an operation returns what it evicts.
\<close>

record 'k set_cache =
  sc_Get :: "string \<Rightarrow> 'k \<Rightarrow> nat list \<times> 'k"
  sc_Refresh :: "string \<Rightarrow> nat \<Rightarrow> 'k \<Rightarrow> bool \<times> 'k"
  sc_Add :: "string \<Rightarrow> nat \<Rightarrow> 'k \<Rightarrow> (string \<times> nat) list \<times> 'k"
  sc_Delete :: "string \<Rightarrow> nat \<Rightarrow> 'k \<Rightarrow> (string \<times> nat) list \<times> 'k"
  sc_DeleteLRU :: "'k \<Rightarrow> bool \<times> (string \<times> nat) list \<times> 'k"
  sc_Flush :: "'k \<Rightarrow> (string \<times> nat) list \<times> 'k"

text \<open>
  The environment: docker, network, redis, files, memory, the clock, the readers of
  \<open>pkg-go/util\<close> with a limit (what they read and the error they end with), whether the context
  of a call that waits for the semaphore ends, the JSON of a response and its validation, and the one quotient the source computes with floating-point numbers when the
  divisor is not positive.
\<close>

record ('k, 'c, 'w) runner_env =
  re_docker :: "'w docker_client"
  re_mgr :: std_manager
  re_net :: "'w network"
  re_redis :: "'w redis_client"
  re_fs :: "'w fs_env"
  re_files :: "('c, string) lru_cache"
  re_cache :: "'k set_cache"
  re_merge :: "cache_constraints \<Rightarrow> cache_constraints \<Rightarrow> cache_constraints"
  re_CheckFreeMemory :: "u64 \<Rightarrow> ('w, unit) eff"
  re_ReserveMemory :: "u64 \<Rightarrow> ('w, unit) eff"
  re_ResetMemory :: "'w \<Rightarrow> 'w"
  re_ContextEnds :: "'w \<Rightarrow> bool"
  re_ReadLine :: "nat \<Rightarrow> ('w, bytes) eff"
  re_CloseConn :: "nat \<Rightarrow> ('w, unit) eff"
  re_ReadLimited :: "nat \<Rightarrow> int \<Rightarrow> 'w \<Rightarrow> (bytes \<times> go_error option) \<times> 'w"
  re_ReadLimitedUntil :: "nat option \<Rightarrow> string \<Rightarrow> int \<Rightarrow> 'w \<Rightarrow> (bytes \<times> go_error option) \<times> 'w"
  re_Now :: "'w \<Rightarrow> int"
  re_Publish :: "string \<Rightarrow> string \<Rightarrow> 'w \<Rightarrow> 'w"
  re_OpenWrapper :: "('w, bytes result) eff"
  re_Asset :: "string \<Rightarrow> bytes"
  re_Retry :: "int \<Rightarrow> int \<Rightarrow> (('k, 'c, 'w) runner, unit) proc \<Rightarrow> (('k, 'c, 'w) runner, unit) proc"
  re_unmarshal :: "bytes \<Rightarrow> http_response option"
  re_tag :: "vtag \<Rightarrow> vfield \<Rightarrow> bool"
  re_hasher :: hasher
  re_ceil :: "u32 \<Rightarrow> int \<Rightarrow> u64"

type_synonym ('k, 'c, 'w, 'a) rproc = "(('k, 'c, 'w) runner, 'a) proc"

definition on_world_r :: "('w, 'a) eff \<Rightarrow> ('k, 'c, 'w, 'a) rproc" where
  "on_world_r m = lift_eff (\<lambda>s. fs_world (rn_repo s))
     (\<lambda>w s. s\<lparr>rn_repo := (rn_repo s)\<lparr>fs_world := w\<rparr>\<rparr>) m"

definition on_files :: "(('c, 'w) fs_repo, 'a) proc \<Rightarrow> ('k, 'c, 'w, 'a) rproc" where
  "on_files m = (\<lambda>s. case m (rn_repo s) of
     Returns (r, f) \<Rightarrow> Returns (r, s\<lparr>rn_repo := f\<rparr>) | Panics \<Rightarrow> Panics | Blocks \<Rightarrow> Blocks)"

definition cont_of :: "nat \<Rightarrow> ('k, 'c, 'w) runner \<Rightarrow> container" where
  "cont_of c s = rn_conts s c"

definition upd_cont :: "nat \<Rightarrow> (container \<Rightarrow> container) \<Rightarrow> ('k, 'c, 'w) runner \<Rightarrow> ('k, 'c, 'w) runner" where
  "upd_cont c f s = s\<lparr>rn_conts := (rn_conts s)(c := f (rn_conts s c))\<rparr>"

definition spawn :: "goroutine \<Rightarrow> ('k, 'c, 'w, unit) rproc" where
  "spawn g = modify (\<lambda>s. s\<lparr>rn_spawned := rn_spawned s @ [g]\<rparr>)"

definition add_workerCPU :: "i64 \<Rightarrow> ('k, 'c, 'w, unit) rproc" where
  "add_workerCPU d = modify (\<lambda>s. s\<lparr>rn_workerCPU := rn_workerCPU s + d\<rparr>)"

section \<open>NewRunner\<close>

definition runner_constraints :: "u64 \<Rightarrow> u64 \<Rightarrow> runner_options \<Rightarrow> constraints" where
  "runner_constraints mcpu reserved o' =
     (let limit = wrap64 (sint ((mcpu - reserved) * 1000000 :: i64) sdiv sint (ro_Concurrency o'))
      in (ro_Constraints o')\<lparr>CPULimit := limit, CPUPeriod := 100000,
           CPUQuota := wrap64 (limit * 100000) sdiv 1000000000,
           IOPSLimit := ro_NodeIOPS o' div ro_Concurrency o'\<rparr>)"

text \<open>
  The limits, the memory check and the empty runner. A concurrency of 0 divides by zero.
  The library \<open>mergo\<close> is the argument \<open>merge\<close>.
\<close>

definition NewRunner ::
  "(runner_options \<Rightarrow> runner_options \<Rightarrow> runner_options) \<Rightarrow> runner_options option \<Rightarrow> std_manager
   \<Rightarrow> (u64 \<Rightarrow> ('w, unit) eff) \<Rightarrow> 'k \<Rightarrow> cache_globals \<Rightarrow> i64 \<Rightarrow> ('c, 'w) fs_repo
   \<Rightarrow> (('k, 'c, 'w) runner result \<times> 'w) outcome" where
  "NewRunner merge opts mgr check empty_cache globals metric repo =
     (let o0 = (case opts of None \<Rightarrow> DefaultRunnerOptions | Some o' \<Rightarrow> merge DefaultRunnerOptions o');
          dockerMCPU = (word_of_int (wrap64 (NCPU (Manager_Info mgr) * 1000)) :: u64);
          mcpu = (if dockerMCPU < ro_MCPU o0 then dockerMCPU else ro_MCPU o0);
          o1 = o0\<lparr>ro_MCPU := mcpu\<rparr>
      in if ro_Concurrency o1 = 0 then Panics
         else let con = runner_constraints mcpu (ReservedMCPU (Manager_Options mgr)) o1;
                  o2 = o1\<lparr>ro_Constraints := con\<rparr>
              in case check (word_of_int (MemoryLimit con) * ro_Concurrency o2 + ro_MemoryMargin o2) (fs_world repo) of
                   (Inl e, w) \<Rightarrow> Returns (Inl e, w)
                 | (Inr _, w) \<Rightarrow> Returns (Inr
                     \<lparr>rn_poolID = [], rn_running = False, rn_scriptIndex = [], rn_containerCache = empty_cache,
                      rn_containerPool = [], rn_size = 0, rn_held = 0, rn_taskWaitGroup = 0, rn_onRemoved = False,
                      rn_containerWait = [], rn_repo = repo\<lparr>fs_world := w\<rparr>, rn_options = o2, rn_workerCPU = metric,
                      rn_globals = globals, rn_conts = (\<lambda>_. NewContainer []), rn_next = 0, rn_spawned = []\<rparr>, w))"

text \<open>\<open>setRunning\<close> swaps the flag and tells whether it has changed.\<close>

definition setRunning :: "bool \<Rightarrow> ('k, 'c, 'w) runner \<Rightarrow> bool \<times> ('k, 'c, 'w) runner" where
  "setRunning b s = (rn_running s \<noteq> b, s\<lparr>rn_running := b\<rparr>)"

definition IsRunning :: "('k, 'c, 'w) runner \<Rightarrow> bool" where
  "IsRunning s = rn_running s"

interpretation runner_flag: running_flag setRunning IsRunning
  by unfold_locales (simp_all add: setRunning_def IsRunning_def)

definition OnContainerRemoved :: "bool \<Rightarrow> ('k, 'c, 'w) runner \<Rightarrow> ('k, 'c, 'w) runner" where
  "OnContainerRemoved f s = s\<lparr>rn_onRemoved := f\<rparr>"

section \<open>Slots\<close>

text \<open>
  The weighted semaphore: it grants what is free at once. A request that has to wait ends with
  its context; otherwise it goes on waiting, until another call has given enough back and it
  is granted as if it were made then. Releasing more than is held panics.
\<close>

definition sem_Acquire :: "('k, 'c, 'w) runner_env \<Rightarrow> int \<Rightarrow> ('k, 'c, 'w, unit) rproc" where
  "sem_Acquire env n = (\<lambda>s.
     if rn_held s + n \<le> rn_size s then Returns (Inr (), s\<lparr>rn_held := rn_held s + n\<rparr>)
     else if re_ContextEnds env (fs_world (rn_repo s)) then Returns (Inl EContextCanceled, s)
     else Blocks)"

definition sem_Release :: "int \<Rightarrow> ('k, 'c, 'w, unit) rproc" where
  "sem_Release n =
     andThen (modify (\<lambda>s. s\<lparr>rn_held := rn_held s - n\<rparr>)) (\<lambda>_.
     andThen (get_state rn_held) (\<lambda>held. if held < 0 then panic else return ()))"

definition first_connection ::
  "('k, 'c, 'w) runner_env \<Rightarrow> nat \<Rightarrow> bool \<Rightarrow> run_options \<Rightarrow> constraints \<Rightarrow> nat \<Rightarrow> ('k, 'c, 'w, unit) rproc" where
  "first_connection env c newCont options con numConns =
     (if numConns \<noteq> 1 then return ()
      else try_catch (sem_Acquire env (sint (Weight options)))
        (\<lambda>_. throw ESemaphoreNotAcquired)
        (\<lambda>_. andThen (get_state (cont_of c)) (\<lambda>cont.
             andThen (add_workerCPU (- ucast (MCPU (c_Definition cont)))) (\<lambda>_.
             if 1 < Async (c_Definition cont) \<or> (newCont \<and> 1 < Weight options)
             then on_world_r (ContainerUpdate (re_docker env) (c_ID cont) con)
             else return ()))))"

definition reserveContainer ::
  "('k, 'c, 'w) runner_env \<Rightarrow> nat \<Rightarrow> string \<Rightarrow> bool \<Rightarrow> run_options \<Rightarrow> constraints \<Rightarrow> ('k, 'c, 'w, unit) rproc" where
  "reserveContainer env c connID newCont options con =
     Reserve (cont_of c) (upd_cont c) connID (Some (first_connection env c newCont options con))"

definition last_connection ::
  "('k, 'c, 'w) runner_env \<Rightarrow> nat \<Rightarrow> run_options \<Rightarrow> nat \<Rightarrow> ('k, 'c, 'w, unit) rproc" where
  "last_connection env c options numConns =
     (if numConns \<noteq> 0 then return ()
      else andThen (sem_Release (sint (Weight options))) (\<lambda>_.
           andThen (get_state (cont_of c)) (\<lambda>cont.
           andThen (add_workerCPU (ucast (MCPU (c_Definition cont)))) (\<lambda>_.
           if 1 < Async (c_Definition cont)
           then andThen (get_state (\<lambda>s. MemoryLimit (ro_Constraints (rn_options s)))) (\<lambda>mem.
                on_world_r (ContainerUpdate (re_docker env) (c_ID cont)
                  \<lparr>CPULimit = 0, CPUPeriod = 1000000, CPUQuota = 1000, IOPSLimit = 0,
                   MemoryLimit = wrap64 (sint (Weight options) * mem), MemorySwapLimit = 0, PidLimit = 0,
                   NofileUlimit = 0, StorageLimit = []\<rparr>))
           else return ()))))"

definition releaseContainer ::
  "('k, 'c, 'w) runner_env \<Rightarrow> nat \<Rightarrow> string \<Rightarrow> run_options \<Rightarrow> ('k, 'c, 'w, unit) rproc" where
  "releaseContainer env c requestID options =
     Release (cont_of c) (upd_cont c) requestID (Some (last_connection env c options))"

section \<open>Removal\<close>

text \<open>\<open>cont.Stop()\<close> on the heap.\<close>

definition stop_container :: "('k, 'c, 'w) runner_env \<Rightarrow> nat \<Rightarrow> ('k, 'c, 'w, bool) rproc" where
  "stop_container env c = (\<lambda>s.
     case Stop (re_net env) (rn_conts s c) (fs_world (rn_repo s)) of
       Returns (b, c', w) \<Rightarrow> Returns (Inr b, (upd_cont c (\<lambda>_. c') s)\<lparr>rn_repo := (rn_repo s)\<lparr>fs_world := w\<rparr>\<rparr>)
     | Panics \<Rightarrow> Panics | Blocks \<Rightarrow> Blocks)"

definition cleanupContainer :: "('k, 'c, 'w) runner_env \<Rightarrow> nat \<Rightarrow> ('k, 'c, 'w, unit) rproc" where
  "cleanupContainer env c =
     andThen (stop_container env c) (\<lambda>stopped.
     if \<not> stopped then return ()
     else andThen (get_state (cont_of c)) (\<lambda>cont.
          andThen (if c_ID cont = [] then return ()
                   else andThen (attempt (on_world_r (ContainerStop (re_docker env) (c_ID cont)))) (\<lambda>_. return ())) (\<lambda>_.
          andThen (if c_volumeKey cont = [] then return ()
                   else andThen (attempt (on_files (DeleteVolume (re_fs env) (c_volumeKey cont)))) (\<lambda>_. return ())) (\<lambda>_.
          andThen (get_state rn_onRemoved) (\<lambda>handler.
          if handler then spawn (NotifyRemoved c) else return ())))))"

text \<open>A lookup in the cache of containers, and the entries of the script index.\<close>

definition cache_Get :: "('k, 'c, 'w) runner_env \<Rightarrow> string \<Rightarrow> ('k, 'c, 'w, nat list) rproc" where
  "cache_Get env key = (\<lambda>s. case sc_Get (re_cache env) key (rn_containerCache s) of
     (cs, k) \<Rightarrow> Returns (Inr cs, s\<lparr>rn_containerCache := k\<rparr>))"

definition onEvictedContainerHandler ::
  "('k, 'c, 'w) runner_env \<Rightarrow> string \<times> nat \<Rightarrow> ('k, 'c, 'w, unit) rproc" where
  "onEvictedContainerHandler env = (\<lambda>(key, c).
     andThen (get_state (cont_of c)) (\<lambda>cont.
     andThen (if IsAcceptingConnections cont then modify (upd_cont c StopAcceptingConnections) else return ()) (\<lambda>_.
     andThen (if ConnsNum cont = 0 then cleanupContainer env c else return ()) (\<lambda>_.
     andThen (cache_Get env key) (\<lambda>left.
     if left \<noteq> [] then return ()
     else modify (\<lambda>s. s\<lparr>rn_scriptIndex :=
            nested_del (Index_Hash (re_hasher env) (Index (c_Definition cont)))
              (Definition_Hash (re_hasher env) (c_Definition cont)) (rn_scriptIndex s)\<rparr>))))))"

fun evict_containers :: "('k, 'c, 'w) runner_env \<Rightarrow> (string \<times> nat) list \<Rightarrow> ('k, 'c, 'w, unit) rproc" where
  "evict_containers env [] = return ()"
| "evict_containers env (x # xs) = andThen (onEvictedContainerHandler env x) (\<lambda>_. evict_containers env xs)"

definition set_op ::
  "('k, 'c, 'w) runner_env \<Rightarrow> ('k \<Rightarrow> (string \<times> nat) list \<times> 'k) \<Rightarrow> ('k, 'c, 'w, unit) rproc" where
  "set_op env f = (\<lambda>s. case f (rn_containerCache s) of
     (ev, k) \<Rightarrow> evict_containers env ev (s\<lparr>rn_containerCache := k\<rparr>))"

definition def_hash :: "('k, 'c, 'w) runner_env \<Rightarrow> nat \<Rightarrow> ('k, 'c, 'w) runner \<Rightarrow> string" where
  "def_hash env c s = Definition_Hash (re_hasher env) (c_Definition (rn_conts s c))"

definition deleteContainer :: "('k, 'c, 'w) runner_env \<Rightarrow> nat \<Rightarrow> ('k, 'c, 'w, unit) rproc" where
  "deleteContainer env c =
     andThen (get_state (def_hash env c)) (\<lambda>key.
     andThen (set_op env (sc_Delete (re_cache env) key c)) (\<lambda>_.
     modify (upd_cont c StopAcceptingConnections)))"

text \<open>\<open>hashes\<close> is visited in the order of the list; the whole index entry is taken out.\<close>

fun containers_of ::
  "('k, 'c, 'w) runner_env \<Rightarrow> string \<Rightarrow> string list \<Rightarrow> nat list \<Rightarrow> ('k, 'c, 'w, nat list) rproc" where
  "containers_of env cid [] ret = return ret"
| "containers_of env cid (hash # hs) ret =
     andThen (cache_Get env hash) (\<lambda>cs.
     andThen (get_state (\<lambda>s. filter (\<lambda>c. cid = [] \<or> c_ID (rn_conts s c) = cid) cs)) (\<lambda>found.
     containers_of env cid hs (ret @ found)))"

definition containersByIndexAndID ::
  "('k, 'c, 'w) runner_env \<Rightarrow> index \<Rightarrow> string \<Rightarrow> ('k, 'c, 'w, nat list) rproc" where
  "containersByIndexAndID env i cid =
     (let idx = Index_Hash (re_hasher env) i in
      andThen (get_state (\<lambda>s. map_of (rn_scriptIndex s) idx)) (\<lambda>hashes.
      case hashes of
        None \<Rightarrow> return []
      | Some m \<Rightarrow>
          andThen (modify (\<lambda>s. s\<lparr>rn_scriptIndex := AList.delete idx (rn_scriptIndex s)\<rparr>)) (\<lambda>_.
          containers_of env cid (map fst m) [])))"

fun delete_all :: "('k, 'c, 'w) runner_env \<Rightarrow> nat list \<Rightarrow> ('k, 'c, 'w, unit) rproc" where
  "delete_all env [] = return ()"
| "delete_all env (c # cs) = andThen (deleteContainer env c) (\<lambda>_. delete_all env cs)"

definition DeleteContainersByID ::
  "('k, 'c, 'w) runner_env \<Rightarrow> index \<Rightarrow> string \<Rightarrow> ('k, 'c, 'w, nat list) rproc" where
  "DeleteContainersByID env i cid =
     andThen (containersByIndexAndID env i cid) (\<lambda>conts.
     andThen (delete_all env conts) (\<lambda>_. return conts))"

definition DeleteContainers :: "('k, 'c, 'w) runner_env \<Rightarrow> index \<Rightarrow> ('k, 'c, 'w, nat list) rproc" where
  "DeleteContainers env i = DeleteContainersByID env i []"

section \<open>How they run\<close>

text \<open>The fields a call of the outside world, or of the repository, leaves alone.\<close>

lemma on_world_r_run:
  assumes "on_world_r m s = Returns (r, s')"
  obtains w where "s' = s\<lparr>rn_repo := (rn_repo s)\<lparr>fs_world := w\<rparr>\<rparr>"
  using assms by (auto simp: on_world_r_def lift_eff_def split: prod.splits)

lemma on_world_r_returns: "\<exists>r s'. on_world_r m s = Returns (r, s')"
  by (simp add: on_world_r_def lift_eff_def split: prod.split)

lemma upd_cont_fields [simp]:
  "rn_held (upd_cont c f s) = rn_held s" "rn_size (upd_cont c f s) = rn_size s"
  "rn_next (upd_cont c f s) = rn_next s" "rn_workerCPU (upd_cont c f s) = rn_workerCPU s"
  "rn_containerPool (upd_cont c f s) = rn_containerPool s" "rn_options (upd_cont c f s) = rn_options s"
  "rn_conts (upd_cont c f s) = (rn_conts s)(c := f (rn_conts s c))"
  "rn_repo (upd_cont c f s) = rn_repo s" "rn_taskWaitGroup (upd_cont c f s) = rn_taskWaitGroup s"
  "rn_containerCache (upd_cont c f s) = rn_containerCache s" "rn_scriptIndex (upd_cont c f s) = rn_scriptIndex s"
  by (simp_all add: upd_cont_def)

lemma reserve_run:
  assumes "c_conns (rn_conts s c) = Some ids"
  shows "reserveContainer env c rid new options con s =
    (if c_connLimit (rn_conts s c) \<le> int (length ids) then Returns (Inl ETooManyConnections, s)
     else if rid \<in> set ids then Returns (Inl EConnectionIDReserved, s)
     else first_connection env c new options con (length ids + 1)
            (upd_cont c (c_conns_update (\<lambda>_. Some (ids @ [rid]))) s))"
  using Reserve_run [of "cont_of c" s ids "upd_cont c"] assms
  by (simp add: reserveContainer_def cont_of_def)

lemma release_run:
  assumes "c_conns (rn_conts s c) = Some ids"
  shows "releaseContainer env c rid options s =
    last_connection env c options (length (removeAll rid ids))
      (upd_cont c (c_conns_update (map_option (removeAll rid))) s)"
  using Release_run [of "cont_of c" s ids "upd_cont c"] assms
  by (simp add: releaseContainer_def cont_of_def)

text \<open>The first connection takes the units, or none; the last one gives them back.\<close>

lemma first_connection_cases:
  assumes "first_connection env c new options con n s = Returns (r, s')"
  obtains (later) "n \<noteq> 1" "r = Inr ()" "s' = s"
    | (waited) "n = 1" "r = Inl ESemaphoreNotAcquired" "s' = s" "rn_size s < rn_held s + sint (Weight options)"
    | (taken) rp where "n = 1" "rn_held s + sint (Weight options) \<le> rn_size s"
        "s' = s\<lparr>rn_held := rn_held s + sint (Weight options),
                rn_workerCPU := rn_workerCPU s - ucast (MCPU (c_Definition (rn_conts s c))), rn_repo := rp\<rparr>"
proof (cases "n = 1")
  case False
  with assms later show thesis by (simp add: first_connection_def proc_eval)
next
  case True
  let ?t = "s\<lparr>rn_held := rn_held s + sint (Weight options),
                rn_workerCPU := rn_workerCPU s - ucast (MCPU (c_Definition (rn_conts s c)))\<rparr>"
  show thesis
  proof (cases "rn_held s + sint (Weight options) \<le> rn_size s")
    case False
    with assms True waited show thesis
      by (auto simp: first_connection_def sem_Acquire_def proc_eval split: if_splits)
  next
    case granted: True
    have keep: "s' = ?t \<or> (\<exists>rp. s' = ?t\<lparr>rn_repo := rp\<rparr>)"
      using assms True granted
      by (auto simp: first_connection_def sem_Acquire_def proc_eval cont_of_def add_workerCPU_def
          split: if_splits elim!: on_world_r_run)
    have "?t = ?t\<lparr>rn_repo := rn_repo s\<rparr>" by (cases s) simp
    with keep obtain rp where "s' = ?t\<lparr>rn_repo := rp\<rparr>" by metis
    then show thesis by (intro taken [OF True granted]) simp
  qed
qed

lemma last_connection_cases:
  assumes "last_connection env c options n s = Returns (r, s')"
  obtains (earlier) "n \<noteq> 0" "r = Inr ()" "s' = s"
    | (given) rp where "n = 0" "sint (Weight options) \<le> rn_held s"
        "s' = s\<lparr>rn_held := rn_held s - sint (Weight options),
                rn_workerCPU := rn_workerCPU s + ucast (MCPU (c_Definition (rn_conts s c))), rn_repo := rp\<rparr>"
proof (cases "n = 0")
  case False
  with assms earlier show thesis by (simp add: last_connection_def proc_eval)
next
  case True
  let ?t = "s\<lparr>rn_held := rn_held s - sint (Weight options),
                rn_workerCPU := rn_workerCPU s + ucast (MCPU (c_Definition (rn_conts s c)))\<rparr>"
  have enough: "sint (Weight options) \<le> rn_held s"
    using assms True by (auto simp: last_connection_def sem_Release_def proc_eval split: if_splits)
  have "s' = ?t \<or> (\<exists>rp. s' = ?t\<lparr>rn_repo := rp\<rparr>)"
    using assms True enough
    by (auto simp: last_connection_def sem_Release_def proc_eval cont_of_def add_workerCPU_def
        split: if_splits elim!: on_world_r_run)
  moreover have "?t = ?t\<lparr>rn_repo := rn_repo s\<rparr>" by (cases s) simp
  ultimately obtain rp where "s' = ?t\<lparr>rn_repo := rp\<rparr>" by metis
  then show thesis by (intro given [OF True enough]) simp
qed

lemma last_connection_panics_iff:
  fixes s :: "('k, 'c, 'w) runner"
  shows "last_connection env c options n s = Panics \<longleftrightarrow> n = 0 \<and> rn_held s < sint (Weight options)"
proof -
  have "(case on_world_r m t of Returns (r, s') \<Rightarrow> Returns (r, s') | Panics \<Rightarrow> Panics | Blocks \<Rightarrow> Blocks) \<noteq> Panics"
    and "on_world_r m t \<noteq> Panics" for m :: "('w, unit) eff" and t :: "('k, 'c, 'w) runner"
    using on_world_r_returns [of m t] by auto
  then show ?thesis
    by (simp add: last_connection_def sem_Release_def proc_eval add_workerCPU_def)
qed

end
