(* ===== verification/Runner.thy ===== *)
theory Runner
  imports Runner_Core
begin

text \<open>
  The script runner (app/script/runner.go), second part: creating containers and the pool,
  the choice of a container for a run, the run, and the work after it. A call of another
  goroutine is a step of its own; a wait that only another goroutine can end is \<open>Blocks\<close>.
\<close>

section \<open>New containers\<close>

definition new_container :: "string \<Rightarrow> ('k, 'c, 'w, nat) rproc" where
  "new_container runtime = (\<lambda>s.
     Returns (Inr (rn_next s), s\<lparr>rn_conts := (rn_conts s)(rn_next s := NewContainer runtime),
                                rn_next := Suc (rn_next s)\<rparr>))"

fun link_all ::
  "('k, 'c, 'w) runner_env \<Rightarrow> string \<Rightarrow> string list \<Rightarrow> ('k, 'c, 'w, unit) rproc" where
  "link_all env volKey [] = return ()"
| "link_all env volKey (resKey # rs) =
     andThen (on_files (Link (re_files env) (re_fs env) volKey resKey ''wrapper'')) (\<lambda>_.
     link_all env volKey rs)"

definition createWrapperVolume ::
  "('k, 'c, 'w) runner_env \<Rightarrow> string \<Rightarrow> ('k, 'c, 'w, string \<times> string) rproc" where
  "createWrapperVolume env runtime =
     andThen (on_files (CreateVolume (re_fs env))) (\<lambda>(volKey, volPath).
     andThen (link_all env volKey [''codewrapper'', runtime]) (\<lambda>_.
     andThen (get_state (\<lambda>s. (RelativePath (re_fs env) volPath (rn_repo s), ro_HostStoragePath (rn_options s)))) (\<lambda>(rel, host).
     case rel of Inl e \<Rightarrow> panic | Inr p \<Rightarrow> return (volKey, path_join [host, p]))))"

text \<open>The line the wrapper reports itself with, behind the prefix of docker's stream.\<close>

definition ready_line :: "bytes \<Rightarrow> string" where
  "ready_line l = string_of_bytes (if 8 < length l then drop 8 l else l)"

definition create_steps :: "('k, 'c, 'w) runner_env \<Rightarrow> string \<Rightarrow> nat \<Rightarrow> ('k, 'c, 'w, unit) rproc" where
  "create_steps env runtime c =
     (case map_of SupportedRuntimes runtime of
        None \<Rightarrow> panic
      | Some rInfo \<Rightarrow>
          andThen (createWrapperVolume env runtime) (\<lambda>(volKey, volHostPath).
          andThen (modify (upd_cont c (\<lambda>k. k\<lparr>c_volumeKey := volKey\<rparr>))) (\<lambda>_.
          andThen (get_state (\<lambda>s. (rn_poolID s, ro_Constraints (rn_options s)))) (\<lambda>(poolID, con).
          andThen (on_world_r (ContainerCreate (re_mgr env) (re_docker env) (Image rInfo) (User rInfo)
                     [''/app/wrapper/codewrapper''] (rt_Environment rInfo) [(''workerId'', poolID)] con
                     [volHostPath @ '':/app:ro,rslave''])) (\<lambda>cid.
          andThen (modify (upd_cont c (\<lambda>k. k\<lparr>c_ID := cid\<rparr>))) (\<lambda>_.
          andThen (on_world_r (ContainerAttach (re_docker env) cid)) (\<lambda>resp.
          andThen (on_world_r (ContainerStart (re_docker env) cid)) (\<lambda>_.
          andThen (on_world_r (re_ReadLine env resp)) (\<lambda>l.
          modify (upd_cont c (\<lambda>k. k\<lparr>c_addr := ready_line l\<rparr>)))))))))))"

text \<open>The container is returned with the error, too, so that it can be cleaned up.\<close>

definition createFreshContainer ::
  "('k, 'c, 'w) runner_env \<Rightarrow> string \<Rightarrow> ('k, 'c, 'w, nat \<times> go_error option) rproc" where
  "createFreshContainer env runtime =
     andThen (new_container runtime) (\<lambda>c.
     try_catch (create_steps env runtime c) (\<lambda>e. return (c, Some e)) (\<lambda>_. return (c, None)))"

text \<open>Sending on a channel of the pool: it waits while the channel is full.\<close>

definition pool_put :: "string \<Rightarrow> nat \<Rightarrow> ('k, 'c, 'w, unit) rproc" where
  "pool_put runtime c = (\<lambda>s.
     case map_of (rn_containerPool s) runtime of
       None \<Rightarrow> Blocks
     | Some q \<Rightarrow>
         if int (length q) < rn_size s
         then Returns (Inr (), s\<lparr>rn_containerPool := AList.update runtime (q @ [c]) (rn_containerPool s)\<rparr>)
         else Blocks)"

definition pool_take :: "string \<Rightarrow> ('k, 'c, 'w, nat) rproc" where
  "pool_take runtime = (\<lambda>s.
     case map_of (rn_containerPool s) runtime of
       Some (c # q) \<Rightarrow> Returns (Inr c, s\<lparr>rn_containerPool := AList.update runtime q (rn_containerPool s)\<rparr>)
     | _ \<Rightarrow> Blocks)"

definition recreate_once :: "('k, 'c, 'w) runner_env \<Rightarrow> string \<Rightarrow> ('k, 'c, 'w, unit) rproc" where
  "recreate_once env runtime =
     andThen (createFreshContainer env runtime) (\<lambda>(c, err).
     case err of
       Some e \<Rightarrow> andThen (cleanupContainer env c) (\<lambda>_. throw e)
     | None \<Rightarrow> pool_put runtime c)"

definition recreateContainer :: "('k, 'c, 'w) runner_env \<Rightarrow> string \<Rightarrow> ('k, 'c, 'w, unit) rproc" where
  "recreateContainer env runtime =
     andThen (get_state (\<lambda>s. (ro_CreateRetryCount (rn_options s), ro_CreateRetrySleep (rn_options s)))) (\<lambda>(n, sleep).
     re_Retry env n sleep (recreate_once env runtime))"

section \<open>The pool\<close>

fun reserve_memory :: "('k, 'c, 'w) runner_env \<Rightarrow> nat \<Rightarrow> ('k, 'c, 'w, unit) rproc" where
  "reserve_memory env 0 = return ()"
| "reserve_memory env (Suc n) =
     andThen (get_state (\<lambda>s. word_of_int (MemoryLimit (ro_Constraints (rn_options s))))) (\<lambda>m.
     andThen (on_world_r (re_ReserveMemory env m)) (\<lambda>_. reserve_memory env n))"

text \<open>The containers of one runtime: all are tried, then the first error is returned.\<close>

fun fill_pool :: "('k, 'c, 'w) runner_env \<Rightarrow> string \<Rightarrow> nat \<Rightarrow> go_error option \<Rightarrow> ('k, 'c, 'w, unit) rproc" where
  "fill_pool env runtime 0 err = (case err of None \<Rightarrow> return () | Some e \<Rightarrow> throw e)"
| "fill_pool env runtime (Suc n) err =
     andThen (createFreshContainer env runtime) (\<lambda>(c, e).
     case e of
       Some e' \<Rightarrow> fill_pool env runtime n (case err of None \<Rightarrow> Some e' | Some e0 \<Rightarrow> Some e0)
     | None \<Rightarrow> andThen (pool_put runtime c) (\<lambda>_. fill_pool env runtime n err))"

fun create_pools ::
  "('k, 'c, 'w) runner_env \<Rightarrow> (string \<times> runtime_info) list \<Rightarrow> ('k, 'c, 'w, unit) rproc" where
  "create_pools env [] = return ()"
| "create_pools env ((runtime, rInfo) # rs) =
     andThen (on_files (PermStore (re_files env) (re_fs env) runtime (Inr (re_Asset env (AssetName rInfo)))
                (FileName rInfo) 0)) (\<lambda>_.
     andThen (modify (\<lambda>s. s\<lparr>rn_containerPool := AList.update runtime [] (rn_containerPool s)\<rparr>)) (\<lambda>_.
     andThen (get_state (\<lambda>s. unat (ro_Concurrency (rn_options s)))) (\<lambda>n.
     andThen (fill_pool env runtime n None) (\<lambda>_. create_pools env rs))))"

definition CreatePool :: "('k, 'c, 'w) runner_env \<Rightarrow> ('k, 'c, 'w, string) rproc" where
  "CreatePool env =
     andThen (get_state IsRunning) (\<lambda>running.
     if running then throw EPoolAlreadyCreated
     else andThen (on_files (GenerateKey (re_fs env))) (\<lambda>key.
          andThen (modify (\<lambda>s. s\<lparr>rn_poolID := key\<rparr>)) (\<lambda>_.
          andThen (on_world_r (\<lambda>w. (Inr (), re_ResetMemory env w))) (\<lambda>_.
          andThen (get_state rn_options) (\<lambda>o'.
          andThen (on_world_r (re_ReserveMemory env (ro_MemoryMargin o'))) (\<lambda>_.
          andThen (modify (\<lambda>s. s\<lparr>rn_size := sint (ro_Concurrency o'), rn_held := 0\<rparr>)) (\<lambda>_.
          andThen (reserve_memory env (unat (ro_Concurrency o'))) (\<lambda>_.
          andThen (modify (\<lambda>s. s\<lparr>rn_workerCPU := ro_MCPU o' - ReservedMCPU (Manager_Options (re_mgr env)),
                                  rn_containerPool := []\<rparr>)) (\<lambda>_.
          andThen (must (on_world_r (re_OpenWrapper env))) (\<lambda>f.
          andThen (on_files (PermStore (re_files env) (re_fs env) ''codewrapper'' f ''codewrapper'' 511)) (\<lambda>_.
          andThen (create_pools env SupportedRuntimes) (\<lambda>_.
          andThen (modify (\<lambda>s. snd (setRunning True s))) (\<lambda>_.
          get_state rn_poolID)))))))))))))"

fun cleanup_all :: "('k, 'c, 'w) runner_env \<Rightarrow> nat list \<Rightarrow> ('k, 'c, 'w, unit) rproc" where
  "cleanup_all env [] = return ()"
| "cleanup_all env (c # cs) = andThen (cleanupContainer env c) (\<lambda>_. cleanup_all env cs)"

definition StopPool :: "('k, 'c, 'w) runner_env \<Rightarrow> ('k, 'c, 'w, unit) rproc" where
  "StopPool env =
     andThen (get_state (\<lambda>s. fst (setRunning False s))) (\<lambda>changed.
     andThen (modify (\<lambda>s. snd (setRunning False s))) (\<lambda>_.
     if \<not> changed then return ()
     else andThen (modify (OnContainerRemoved False)) (\<lambda>_.
          andThen (modify (\<lambda>s. s\<lparr>rn_workerCPU := 0\<rparr>)) (\<lambda>_.
          andThen (get_state rn_taskWaitGroup) (\<lambda>n.
          if n \<noteq> 0 then (\<lambda>s. Blocks)
          else andThen (get_state (\<lambda>s. concat (map snd (rn_containerPool s)))) (\<lambda>conts.
               andThen (modify (\<lambda>s. s\<lparr>rn_containerPool := map (\<lambda>(rt, q). (rt, [])) (rn_containerPool s)\<rparr>)) (\<lambda>_.
               andThen (cleanup_all env conts) (\<lambda>_.
               andThen (set_op env (sc_Flush (re_cache env))) (\<lambda>_.
               modify (\<lambda>s. s\<lparr>rn_scriptIndex := []\<rparr>))))))))))"

definition runner_Shutdown :: "('k, 'c, 'w) runner_env \<Rightarrow> ('k, 'c, 'w, unit) rproc" where
  "runner_Shutdown env = StopPool env"

section \<open>Before the pool\<close>

text \<open>Containers of other pools are stopped; a failing list panics.\<close>

fun stop_foreign ::
  "('k, 'c, 'w) runner_env \<Rightarrow> string \<Rightarrow> docker_container list \<Rightarrow> ('k, 'c, 'w, unit) rproc" where
  "stop_foreign env poolID [] = return ()"
| "stop_foreign env poolID (dc # cl) =
     andThen (if (case map_of (dc_Labels dc) ''workerId'' of None \<Rightarrow> [] | Some l \<Rightarrow> l) = poolID then return ()
              else andThen (attempt (on_world_r (ContainerStop (re_docker env) (dc_ID dc)))) (\<lambda>_. return ())) (\<lambda>_.
     stop_foreign env poolID cl)"

definition runner_CleanupUnused :: "('k, 'c, 'w) runner_env \<Rightarrow> ('k, 'c, 'w, unit) rproc" where
  "runner_CleanupUnused env =
     andThen (must (on_world_r (ListContainersByLabel (re_docker env) ''workerId''))) (\<lambda>cl.
     andThen (get_state rn_poolID) (\<lambda>poolID.
     andThen (stop_foreign env poolID cl) (\<lambda>_.
     andThen (on_files (CleanupUnused (re_fs env))) (\<lambda>_.
     andThen (get_state (\<lambda>s. ro_PruneImages (rn_options s))) (\<lambda>prune.
     if prune then must (on_world_r (PruneImages (re_docker env))) else return ())))))"

fun download_all :: "('k, 'c, 'w) runner_env \<Rightarrow> bool \<Rightarrow> string list \<Rightarrow> ('k, 'c, 'w, unit) rproc" where
  "download_all env check [] = return ()"
| "download_all env check (img # imgs) =
     andThen (on_world_r (DownloadImage (re_docker env) img check)) (\<lambda>_. download_all env check imgs)"

definition DownloadAllImages :: "('k, 'c, 'w) runner_env \<Rightarrow> ('k, 'c, 'w, unit) rproc" where
  "DownloadAllImages env =
     andThen (get_state (\<lambda>s. ro_UseExistingImages (rn_options s))) (\<lambda>check.
     download_all env check (remdups (map (Image \<circ> snd) SupportedRuntimes)))"

section \<open>A container for a run\<close>

definition cont_Conn :: "('k, 'c, 'w) runner_env \<Rightarrow> nat \<Rightarrow> ('k, 'c, 'w, nat) rproc" where
  "cont_Conn env c =
     andThen (get_state (\<lambda>s. c_session (rn_conts s c))) (\<lambda>ses.
     case ses of Session n \<Rightarrow> on_world_r (net_Open (re_net env) n) | _ \<Rightarrow> panic)"

definition send_setup :: "('k, 'c, 'w) runner_env \<Rightarrow> nat \<Rightarrow> string list \<Rightarrow> ('k, 'c, 'w, nat) rproc" where
  "send_setup env c cmd = (\<lambda>s.
     case SendSetup (re_net env) (re_merge env) (re_redis env) cmd
            \<lparr>ce_cont = rn_conts s c, ce_globals = rn_globals s, ce_world = fs_world (rn_repo s)\<rparr> of
       Returns (r, ce) \<Rightarrow> Returns (r, (upd_cont c (\<lambda>_. ce_cont ce) s)\<lparr>rn_globals := ce_globals ce,
                             rn_repo := (rn_repo s)\<lparr>fs_world := ce_world ce\<rparr>\<rparr>)
     | Panics \<Rightarrow> Panics | Blocks \<Rightarrow> Blocks)"

text \<open>The resources of a run of a given weight.\<close>

definition weighted :: "constraints \<Rightarrow> u64 \<Rightarrow> constraints" where
  "weighted con weight =
     \<lparr>CPULimit = 0, CPUPeriod = CPUPeriod con, CPUQuota = wrap64 (sint weight * CPUQuota con),
      IOPSLimit = 0, MemoryLimit = wrap64 (sint weight * MemoryLimit con), MemorySwapLimit = 0, PidLimit = 0,
      NofileUlimit = 0, StorageLimit = []\<rparr>"

text \<open>
  What \<open>getContainer\<close> returns: the container, whether it came from the pool, and a
  connection or an error.
\<close>

type_synonym got = "nat \<times> bool \<times> nat result"

text \<open>
  The search of the cache. A container that has too many connections, or has stopped
  accepting them, is passed over.
\<close>

fun try_cached ::
  "('k, 'c, 'w) runner_env \<Rightarrow> string \<Rightarrow> string \<Rightarrow> run_options \<Rightarrow> constraints \<Rightarrow> nat list
   \<Rightarrow> ('k, 'c, 'w, got option) rproc" where
  "try_cached env key requestID options con [] = return None"
| "try_cached env key requestID options con (c # cs) =
     andThen (get_state (\<lambda>s. IsAcceptingConnections (rn_conts s c))) (\<lambda>accepting.
     andThen (if accepting
              then (\<lambda>s. case sc_Refresh (re_cache env) key c (rn_containerCache s) of
                      (ok, k) \<Rightarrow> Returns (Inr ok, s\<lparr>rn_containerCache := k\<rparr>))
              else return False) (\<lambda>usable.
     if \<not> usable then try_cached env key requestID options con cs
     else try_catch (reserveContainer env c requestID False options con)
       (\<lambda>err. andThen (get_state (\<lambda>s. IsAcceptingConnections (rn_conts s c))) (\<lambda>still.
          if error_is err ETooManyConnections \<or> \<not> still then try_cached env key requestID options con cs
          else return (Some (c, False, Inl err))))
       (\<lambda>_. try_catch (cont_Conn env c) (\<lambda>e. return (Some (c, False, Inl e)))
              (\<lambda>conn. return (Some (c, False, Inr conn))))))"

definition add_index :: "('k, 'c, 'w) runner_env \<Rightarrow> nat \<Rightarrow> ('k, 'c, 'w, unit) rproc" where
  "add_index env c = modify (\<lambda>s.
     s\<lparr>rn_scriptIndex := nested_put (Index_Hash (re_hasher env) (Index (c_Definition (rn_conts s c))))
          (def_hash env c s) (c_Definition (rn_conts s c)) (rn_scriptIndex s)\<rparr>)"

text \<open>What is done with a container from the pool, up to the connection.\<close>

definition set_up_container ::
  "('k, 'c, 'w) runner_env \<Rightarrow> nat \<Rightarrow> string \<Rightarrow> string \<Rightarrow> run_options \<Rightarrow> constraints \<Rightarrow> ('k, 'c, 'w, nat) rproc" where
  "set_up_container env c key requestID options con =
     andThen (reserveContainer env c requestID True options con) (\<lambda>_.
     andThen (get_state (cont_of c)) (\<lambda>cont.
     andThen (on_files (Link (re_files env) (re_fs env) (c_volumeKey cont)
                (SourceHash (Index (c_Definition cont))) ''code'')) (\<lambda>_.
     andThen (if Environment (c_Definition cont) = [] then return ()
              else on_files (Mount (re_files env) (re_fs env) (c_volumeKey cont)
                     (Environment (c_Definition cont)) ''squashfs.img'' ''env'')) (\<lambda>_.
     andThen (case map_of SupportedRuntimes (Runtime (Index (c_Definition cont))) of
                None \<Rightarrow> panic | Some ri \<Rightarrow> send_setup env c (Command ri con)) (\<lambda>conn.
     andThen (spawn (ProcessCache c)) (\<lambda>_.
     andThen (if 1 < Async (c_Definition cont)
              then andThen (spawn (ReadStdout c)) (\<lambda>_. spawn (ReadStderr c)) else return ()) (\<lambda>_.
     andThen (set_op env (sc_Add (re_cache env) key c)) (\<lambda>_.
     andThen (add_index env c) (\<lambda>_. return conn)))))))))"

definition configure_container ::
  "nat \<Rightarrow> script_def \<Rightarrow> run_options \<Rightarrow> ('k, 'c, 'w, unit) rproc" where
  "configure_container c d options =
     andThen (get_state (\<lambda>s. ro_UserCacheConstraints (rn_options s))) (\<lambda>ucc.
     modify (upd_cont c (\<lambda>k. Configure \<lparr>co_Timeout = Timeout options\<rparr> ucc (k\<lparr>c_Definition := d\<rparr>))))"

definition from_pool ::
  "('k, 'c, 'w) runner_env \<Rightarrow> string \<Rightarrow> string \<Rightarrow> script_def \<Rightarrow> run_options \<Rightarrow> constraints \<Rightarrow> ('k, 'c, 'w, got) rproc" where
  "from_pool env key requestID d options con =
     andThen (pool_take (Runtime (Index d))) (\<lambda>c.
     andThen (configure_container c d options) (\<lambda>_.
     try_catch (set_up_container env c key requestID options con)
       (\<lambda>e. return (c, True, Inl e)) (\<lambda>conn. return (c, True, Inr conn))))"

text \<open>
  \<open>getContainer\<close>. For an asynchronous script only one call at a time goes to the pool: the
  others wait for it, and then start again.
\<close>

definition getContainer ::
  "('k, 'c, 'w) runner_env \<Rightarrow> string \<Rightarrow> script_def \<Rightarrow> run_options \<Rightarrow> ('k, 'c, 'w, got) rproc" where
  "getContainer env requestID d options =
     andThen (get_state (\<lambda>s. weighted (ro_Constraints (rn_options s)) (Weight options))) (\<lambda>con.
     let key = Definition_Hash (re_hasher env) d in
     andThen (cache_Get env key) (\<lambda>cs.
     andThen (try_cached env key requestID options con cs) (\<lambda>found.
     case found of
       Some g \<Rightarrow> return g
     | None \<Rightarrow>
         if Async d \<le> 1 then from_pool env key requestID d options con
         else andThen (get_state (\<lambda>s. key \<in> set (rn_containerWait s))) (\<lambda>waiting.
              if waiting then (\<lambda>s. Blocks)
              else andThen (modify (\<lambda>s. s\<lparr>rn_containerWait := key # rn_containerWait s\<rparr>)) (\<lambda>_.
                   andThen (attempt (from_pool env key requestID d options con)) (\<lambda>r.
                   andThen (modify (\<lambda>s. s\<lparr>rn_containerWait := removeAll key (rn_containerWait s)\<rparr>)) (\<lambda>_.
                   case r of Inl e \<Rightarrow> throw e | Inr g \<Rightarrow> return g)))))))"

section \<open>A run\<close>

definition read_lim ::
  "('w \<Rightarrow> (bytes \<times> go_error option) \<times> 'w) \<Rightarrow> ('k, 'c, 'w, bytes \<times> go_error option) rproc" where
  "read_lim f = on_world_r (\<lambda>w. case f w of (r, w') \<Rightarrow> (Inr r, w'))"

definition processOutput ::
  "('k, 'c, 'w) runner_env \<Rightarrow> nat \<Rightarrow> nat option \<Rightarrow> nat option \<Rightarrow> string \<Rightarrow> int
   \<Rightarrow> ('k, 'c, 'w, bytes \<times> bytes \<times> bytes \<times> go_error option) rproc" where
  "processOutput env conn out err delim limit =
     andThen (get_state (\<lambda>s. ro_StreamMaxLength (rn_options s))) (\<lambda>n.
     andThen (read_lim (re_ReadLimitedUntil env out delim n)) (\<lambda>(stdoutBytes, e1).
     andThen (read_lim (re_ReadLimitedUntil env err delim n)) (\<lambda>(stderrBytes, e2).
     andThen (read_lim (re_ReadLimited env conn limit)) (\<lambda>(output, e).
     return (output, stdoutBytes, stderrBytes,
       (case e of Some x \<Rightarrow> Some x | None \<Rightarrow> (case e1 of Some x \<Rightarrow> Some x | None \<Rightarrow> e2)))))))"

text \<open>The part of a run after \<open>getContainer\<close>, on the connection, which is closed at the end.\<close>

definition run_on_conn ::
  "('k, 'c, 'w) runner_env \<Rightarrow> nat \<Rightarrow> nat \<Rightarrow> script_def \<Rightarrow> run_options \<Rightarrow> int
   \<Rightarrow> ('k, 'c, 'w, run_result \<times> go_error option) rproc" where
  "run_on_conn env c conn d options start =
     andThen (on_files (GenerateKey (re_fs env))) (\<lambda>key.
     andThen (\<lambda>s. case Run (re_net env) key conn options (fs_world (rn_repo s)) of
                Returns (r, w) \<Rightarrow> Returns (r, s\<lparr>rn_repo := (rn_repo s)\<lparr>fs_world := w\<rparr>\<rparr>)
              | Panics \<Rightarrow> Panics | Blocks \<Rightarrow> Blocks) (\<lambda>delim.
     andThen (get_state (cont_of c)) (\<lambda>cont.
     andThen (if Async d \<le> 1
              then processOutput env conn (c_stdout cont) (c_stderr cont) delim (uint (OutputLimit options))
              else andThen (read_lim (re_ReadLimited env conn (uint (OutputLimit options))))
                     (\<lambda>(output, e). return (output, [], [], e))) (\<lambda>(output, out, err, e).
     andThen (get_state (\<lambda>s. (re_Now env (fs_world (rn_repo s)), ro_StreamMaxLength (rn_options s)))) (\<lambda>(now, n).
     let ret = \<lparr>ContainerID = c_ID cont, Code = 0, Stdout = out, Stderr = err, Response = None,
                Took = now - start, Overhead = 0, run_result.Weight = Weight options, Cached = False\<rparr>
     in (\<lambda>s. bind_outcome (Parse (re_unmarshal env) (re_tag env) ret output n e) (\<lambda>(ret', parseErr).
           Returns (Inr (ret', case e of Some x \<Rightarrow> Some x | None \<Rightarrow> parseErr), upd_cont c IncreaseCalls s))))))))"

text \<open>The result, the container, whether it is new, and the error.\<close>

definition processRun ::
  "('k, 'c, 'w) runner_env \<Rightarrow> string \<Rightarrow> script_def \<Rightarrow> run_options
   \<Rightarrow> ('k, 'c, 'w, run_result option \<times> nat \<times> bool \<times> go_error option) rproc" where
  "processRun env requestID d options =
     andThen (get_state (\<lambda>s. re_Now env (fs_world (rn_repo s)))) (\<lambda>start.
     andThen (getContainer env requestID d options) (\<lambda>(c, newContainer, r).
     case r of
       Inl e \<Rightarrow> return (None, c, newContainer, Some e)
     | Inr conn \<Rightarrow>
         andThen (attempt (run_on_conn env c conn d options start)) (\<lambda>res.
         andThen (attempt (on_world_r (re_CloseConn env conn))) (\<lambda>_.
         case res of
           Inl e \<Rightarrow> return (None, c, newContainer, Some e)
         | Inr (ret, err) \<Rightarrow> return (Some ret, c, newContainer, err)))))"

text \<open>
  The weight of a run: the units of the container's CPU it needs, rounded up. The quotient of
  the floating-point numbers is exact enough for the rounding: the dividend is below
  \<open>2 ^ 53\<close>, and the limit is an integer.
\<close>

definition run_weight :: "('k, 'c, 'w) runner_env \<Rightarrow> u32 \<Rightarrow> int \<Rightarrow> u64" where
  "run_weight env mcpu limit =
     (if 0 < limit then word_of_int ((uint mcpu * 1000000 + limit - 1) div limit) else re_ceil env mcpu limit)"

definition has_source :: "('k, 'c, 'w) runner_env \<Rightarrow> string \<Rightarrow> ('k, 'c, 'w, bool) rproc" where
  "has_source env key = (\<lambda>s. case Get (re_files env) key (rn_repo s) of
     (p, f) \<Rightarrow> Returns (Inr (p \<noteq> []), s\<lparr>rn_repo := f\<rparr>))"

text \<open>The rest of a run once its source is there; \<open>start\<close> is when it was asked for.\<close>

definition run_accepted ::
  "('k, 'c, 'w) runner_env \<Rightarrow> string \<Rightarrow> script_def \<Rightarrow> run_options \<Rightarrow> int
   \<Rightarrow> ('k, 'c, 'w, run_result option \<times> go_error option) rproc" where
  "run_accepted env requestID d options start =
     andThen (modify (\<lambda>s. s\<lparr>rn_taskWaitGroup := rn_taskWaitGroup s + 1\<rparr>)) (\<lambda>_.
     andThen (processRun env requestID d options) (\<lambda>(ret, c, newContainer, err).
     andThen (get_state (\<lambda>s. re_Now env (fs_world (rn_repo s)) - start)) (\<lambda>took.
     andThen (spawn (AfterRun c requestID options newContainer err)) (\<lambda>_.
     return (map_option (\<lambda>r. r\<lparr>Cached := newContainer, Overhead := took - Took r\<rparr>) ret, err)))))"

definition source_available :: "('k, 'c, 'w) runner_env \<Rightarrow> script_def \<Rightarrow> ('k, 'c, 'w, bool) rproc" where
  "source_available env d =
     andThen (has_source env (SourceHash (Index d))) (\<lambda>src.
     if src \<and> Environment d \<noteq> [] then has_source env (Environment d) else return src)"

text \<open>The defaults of the options and of the definition.\<close>

definition run_defaults ::
  "('k, 'c, 'w) runner_env \<Rightarrow> constraints \<Rightarrow> script_def \<Rightarrow> run_options \<Rightarrow> script_def \<times> run_options" where
  "run_defaults env con d0 o0 =
     (let o1 = (if Timeout o0 \<le> 0 then o0\<lparr>Timeout := 30 * 10 ^ 9\<rparr> else o0);
          d = (if MCPU d0 = 0 then d0\<lparr>MCPU := Constraints_MCPU con\<rparr> else d0)
      in (d, if Weight o1 = 0 then o1\<lparr>Weight := run_weight env (MCPU d) (CPULimit con)\<rparr> else o1))"

definition runner_Run ::
  "('k, 'c, 'w) runner_env \<Rightarrow> string \<Rightarrow> script_def option \<Rightarrow> run_options option
   \<Rightarrow> ('k, 'c, 'w, run_result option \<times> go_error option) rproc" where
  "runner_Run env requestID def opts =
     (case (def, opts) of
        (Some d0, Some o0) \<Rightarrow>
          if map_of SupportedRuntimes (Runtime (Index d0)) = None then return (None, Some EUnsupportedRuntime)
          else andThen (get_state (\<lambda>s. run_defaults env (ro_Constraints (rn_options s)) d0 o0)) (\<lambda>(d, options).
               andThen (get_state IsRunning) (\<lambda>running.
               if \<not> running then return (None, Some EPoolNotRunning)
               else andThen (get_state (\<lambda>s. re_Now env (fs_world (rn_repo s)))) (\<lambda>start.
                    andThen (source_available env d) (\<lambda>ok.
                    if \<not> ok then return (None, Some ErrSourceNotAvailable)
                    else run_accepted env requestID d options start))))
      | _ \<Rightarrow> return (None, Some ErrInvalidArgument))"

section \<open>After a run\<close>

definition put_back :: "nat \<Rightarrow> ('k, 'c, 'w, unit) rproc" where
  "put_back c = andThen (get_state (\<lambda>s. Runtime (Index (c_Definition (rn_conts s c))))) (\<lambda>rt. pool_put rt c)"

text \<open>The last part: the slot is given back, a container with an error retired, a new one replaced.\<close>

definition retire_container ::
  "('k, 'c, 'w) runner_env \<Rightarrow> nat \<Rightarrow> string \<Rightarrow> run_options \<Rightarrow> bool \<Rightarrow> go_error option \<Rightarrow> ('k, 'c, 'w, unit) rproc" where
  "retire_container env c requestID options recreate err =
     andThen (attempt (releaseContainer env c requestID options)) (\<lambda>r.
     let err1 = (case err of Some e \<Rightarrow> Some e | None \<Rightarrow> (case r of Inl e \<Rightarrow> Some e | Inr _ \<Rightarrow> None)) in
     andThen (if err1 \<noteq> None then deleteContainer env c else return ()) (\<lambda>_.
     if recreate
     then andThen (get_state (\<lambda>s. Runtime (Index (c_Definition (rn_conts s c))))) (\<lambda>rt.
          must (recreateContainer env rt))
     else return ()))"

definition processContainerDone ::
  "('k, 'c, 'w) runner_env \<Rightarrow> nat \<Rightarrow> string \<Rightarrow> run_options \<Rightarrow> bool \<Rightarrow> go_error option \<Rightarrow> ('k, 'c, 'w, unit) rproc" where
  "processContainerDone env c requestID options newContainer err =
     (if errors_Is err EResourceNotFound
      then andThen (get_state (\<lambda>s. c_volumeKey (rn_conts s c))) (\<lambda>vol.
           try_catch (on_files (CleanupVolume (re_fs env) vol))
             (\<lambda>e. retire_container env c requestID options newContainer (Some e))
             (\<lambda>_. put_back c))
      else if newContainer \<and> errors_Is err ESemaphoreNotAcquired
      then andThen (attempt (Release (cont_of c) (upd_cont c) requestID None)) (\<lambda>_. put_back c)
      else retire_container env c requestID options newContainer err)"

text \<open>
  Containers are dropped, the least recently used first, until memory is free; when there is
  none left, it panics. \<open>None\<close> is a loop that goes on for ever.
\<close>

partial_function (option) free_memory ::
  "('k, 'c, 'w) runner_env \<Rightarrow> ('k, 'c, 'w) runner \<Rightarrow> (unit result \<times> ('k, 'c, 'w) runner) outcome option" where
  "free_memory env s =
     (case on_world_r (re_CheckFreeMemory env 0) s of
        Returns (Inr _, s1) \<Rightarrow> Some (Returns (Inr (), s1))
      | Returns (Inl e, s1) \<Rightarrow>
          (case sc_DeleteLRU (re_cache env) (rn_containerCache s1) of
             (ok, ev, k) \<Rightarrow>
               (case evict_containers env ev (s1\<lparr>rn_containerCache := k\<rparr>) of
                  Returns (_, s2) \<Rightarrow> if ok then free_memory env s2 else Some Panics
                | Panics \<Rightarrow> Some Panics
                | Blocks \<Rightarrow> Some Blocks))
      | Panics \<Rightarrow> Some Panics
      | Blocks \<Rightarrow> Some Blocks)"

definition free_memory_proc :: "('k, 'c, 'w) runner_env \<Rightarrow> ('k, 'c, 'w, unit) rproc" where
  "free_memory_proc env = (\<lambda>s. case free_memory env s of None \<Rightarrow> Blocks | Some r \<Rightarrow> r)"

definition afterRun ::
  "('k, 'c, 'w) runner_env \<Rightarrow> nat \<Rightarrow> string \<Rightarrow> run_options \<Rightarrow> bool \<Rightarrow> go_error option \<Rightarrow> ('k, 'c, 'w, unit) rproc" where
  "afterRun env c requestID options newContainer err =
     andThen (processContainerDone env c requestID options newContainer err) (\<lambda>_.
     andThen (get_state (\<lambda>s. \<not> IsAcceptingConnections (rn_conts s c) \<and> ConnsNum (rn_conts s c) = 0)) (\<lambda>idle.
     andThen (if idle then cleanupContainer env c else return ()) (\<lambda>_.
     andThen (free_memory_proc env) (\<lambda>_.
     modify (\<lambda>s. s\<lparr>rn_taskWaitGroup := rn_taskWaitGroup s - 1\<rparr>)))))"

section \<open>The goroutines of a container\<close>

text \<open>A stream that ends while the container is in use retires it.\<close>

definition stream_failed :: "('k, 'c, 'w) runner_env \<Rightarrow> nat \<Rightarrow> ('k, 'c, 'w, unit) rproc" where
  "stream_failed env c =
     andThen (get_state (\<lambda>s. IsAcceptingConnections (rn_conts s c))) (\<lambda>accepting.
     if accepting then deleteContainer env c else return ())"

text \<open>The reads of a log stream up to its error are published one by one.\<close>

fun read_logs ::
  "('k, 'c, 'w) runner_env \<Rightarrow> nat \<Rightarrow> string \<Rightarrow> string \<Rightarrow> bytes list \<Rightarrow> ('k, 'c, 'w, unit) rproc" where
  "read_logs env c channel kind [] = stream_failed env c"
| "read_logs env c channel kind (buf # bufs) =
     andThen (get_state (\<lambda>s. c_ID (rn_conts s c))) (\<lambda>cid.
     andThen (on_world_r (\<lambda>w. (Inr (), re_Publish env channel
                (cid @ [CHR 0x09] @ kind @ [CHR 0x09] @ string_of_bytes buf) w))) (\<lambda>_.
     read_logs env c channel kind bufs))"

end
