(* ===== verification/Runner_Frame.thy ===== *)
theory Runner_Frame
  imports Runner
begin

text \<open>
  What the operations of the runner leave alone. \<open>rest_kept D s s'\<close>: the options, the wait group,
  the flag and the work that waits after a run are as before, no container is lost, and those
  there were outside \<open>D\<close> keep their definition. \<open>pool_kept\<close> says that the pool is the same as well,
  \<open>books\<close> adds the semaphore and the gauge. The rules carry them through a method.
\<close>

fun is_after :: "goroutine \<Rightarrow> bool" where
  "is_after (AfterRun c rid options new err) = True"
| "is_after _ = False"

definition rest_kept :: "nat set \<Rightarrow> ('k, 'c, 'w) runner \<Rightarrow> ('k, 'c, 'w) runner \<Rightarrow> bool" where
  "rest_kept D s s' \<longleftrightarrow> rn_size s' = rn_size s \<and> rn_options s' = rn_options s \<and> rn_running s' = rn_running s \<and>
     rn_taskWaitGroup s' = rn_taskWaitGroup s \<and> rn_next s \<le> rn_next s' \<and>
     filter is_after (rn_spawned s') = filter is_after (rn_spawned s) \<and>
     (\<forall>c<rn_next s. c \<notin> D \<longrightarrow> c_Definition (rn_conts s' c) = c_Definition (rn_conts s c))"

definition pool_kept :: "('k, 'c, 'w) runner \<Rightarrow> ('k, 'c, 'w) runner \<Rightarrow> bool" where
  "pool_kept s s' \<longleftrightarrow> rn_containerPool s' = rn_containerPool s \<and> rest_kept {} s s'"

definition books :: "('k, 'c, 'w) runner \<Rightarrow> ('k, 'c, 'w) runner \<Rightarrow> bool" where
  "books s s' \<longleftrightarrow> pool_kept s s' \<and> rn_held s' = rn_held s \<and> rn_workerCPU s' = rn_workerCPU s"

lemma upd_cont_running [simp]: "rn_running (upd_cont c f s) = rn_running s" "rn_spawned (upd_cont c f s) = rn_spawned s"
  by (simp_all add: upd_cont_def)

lemma pool_kept_order [keeps_intros]: "reflp pool_kept" "transp pool_kept"
  by (auto simp: pool_kept_def rest_kept_def intro!: reflpI transpI)

lemma books_order [keeps_intros]: "reflp books" "transp books"
  by (auto simp: books_def pool_kept_def rest_kept_def intro!: reflpI transpI)

lemma keeps_mono: "keeps R m \<Longrightarrow> (\<And>s s'. R s s' \<Longrightarrow> Q s s') \<Longrightarrow> keeps Q m"
  by (auto simp: keeps_def)

lemma books_pool_kept: "keeps books m \<Longrightarrow> keeps pool_kept m"
  by (erule keeps_mono) (simp add: books_def)

lemma keeps_if [keeps_intros]: "keeps R m \<Longrightarrow> keeps R m' \<Longrightarrow> keeps R (if b then m else m')"
  by simp

lemma books_world [keeps_intros]: "keeps books (on_world_r m)"
  by (auto simp: keeps_def books_def pool_kept_def rest_kept_def elim!: on_world_r_run)

lemma books_files [keeps_intros]: "keeps books (on_files m)"
  by (auto simp: keeps_def on_files_def books_def pool_kept_def rest_kept_def split: outcome.splits prod.splits)

lemma books_upd: "(\<And>k. c_Definition (f k) = c_Definition k) \<Longrightarrow> keeps books (modify (upd_cont c f))"
  by (rule keeps_modify) (auto simp: books_def pool_kept_def rest_kept_def upd_cont_def)

lemma StopAccepting_Definition [simp]: "c_Definition (StopAcceptingConnections k) = c_Definition k"
  by (simp add: StopAcceptingConnections_def cas_state_def)

lemma Stop_Definition: "Stop net k w = Returns (b, k', w') \<Longrightarrow> c_Definition k' = c_Definition k"
  by (cases "c_state k"; auto simp: Stop_def StopAcceptingConnections_def cas_state_def split: session_ref.splits)

lemma books_stop [keeps_intros]: "keeps books (stop_container env c)"
  by (auto simp: keeps_def stop_container_def books_def pool_kept_def rest_kept_def Stop_Definition upd_cont_def
      split: outcome.splits prod.splits)

lemma books_spawn [keeps_intros]: "\<not> is_after g \<Longrightarrow> keeps books (spawn g)"
  unfolding spawn_def by (rule keeps_modify) (simp add: books_def pool_kept_def rest_kept_def)

lemma books_cleanup [keeps_intros]: "keeps books (cleanupContainer env c)"
  unfolding cleanupContainer_def by (intro keeps_intros) simp

lemma books_cache_Get [keeps_intros]: "keeps books (cache_Get env key)"
  by (auto simp: keeps_def cache_Get_def books_def pool_kept_def rest_kept_def split: prod.splits)

lemma books_index: "keeps books (modify (\<lambda>s. s\<lparr>rn_scriptIndex := f s\<rparr>))"
  by (rule keeps_modify) (simp add: books_def pool_kept_def rest_kept_def)

lemma books_evicted [keeps_intros]: "keeps books (onEvictedContainerHandler env x)"
  unfolding onEvictedContainerHandler_def
  by (cases x) (auto intro!: keeps_intros books_upd books_index)

lemma books_evict_all [keeps_intros]: "keeps books (evict_containers env xs)"
  by (induction xs) (auto intro!: keeps_intros)

lemma books_set_op [keeps_intros]: "keeps books (set_op env f)"
proof (rule keepsI)
  fix s r s'
  assume run: "set_op env f s = Returns (r, s')"
  obtain ev k where "f (rn_containerCache s) = (ev, k)" by force
  with run have "evict_containers env ev (s\<lparr>rn_containerCache := k\<rparr>) = Returns (r, s')"
    by (simp add: set_op_def)
  from keepsD [OF books_evict_all this] show "books s s'" by (simp add: books_def pool_kept_def rest_kept_def)
qed

lemma books_delete [keeps_intros]: "keeps books (deleteContainer env c)"
  unfolding deleteContainer_def by (intro keeps_intros books_upd) simp

lemma books_containers_of [keeps_intros]: "keeps books (containers_of env cid hs ret)"
  by (induction hs arbitrary: ret) (auto intro!: keeps_intros)

lemma books_delete_all [keeps_intros]: "keeps books (delete_all env cs)"
  by (induction cs) (auto intro!: keeps_intros)

lemma books_DeleteContainersByID [keeps_intros]: "keeps books (DeleteContainersByID env i cid)"
  unfolding DeleteContainersByID_def containersByIndexAndID_def Let_def
  by (auto intro!: keeps_intros books_index split: option.split)

lemma books_new [keeps_intros]: "keeps books (new_container runtime)"
  by (auto simp: keeps_def new_container_def books_def pool_kept_def rest_kept_def)

lemma books_link_all [keeps_intros]: "keeps books (link_all env vol rs)"
  by (induction rs) (auto intro!: keeps_intros)

lemma books_volume [keeps_intros]: "keeps books (createWrapperVolume env runtime)"
  unfolding createWrapperVolume_def
  by (auto intro!: keeps_intros split: prod.split sum.split)

lemma books_create_steps [keeps_intros]: "keeps books (create_steps env runtime c)"
  unfolding create_steps_def
  by (auto intro!: keeps_intros books_upd split: option.split prod.split)

lemma books_create [keeps_intros]: "keeps books (createFreshContainer env runtime)"
  unfolding createFreshContainer_def by (intro keeps_intros)

text \<open>Connections: the pool is kept, the semaphore may change.\<close>

lemma pool_kept_reserve: "keeps pool_kept (reserveContainer env c rid new options con)"
proof (rule keepsI)
  fix s r s'
  assume run: "reserveContainer env c rid new options con s = Returns (r, s')"
  show "pool_kept s s'"
  proof (cases "c_conns (rn_conts s c)")
    case None
    with run show ?thesis
      by (auto simp: reserveContainer_def Reserve_def cont_of_def proc_eval pool_kept_def rest_kept_def)
  next
    case (Some ids)
    with run consider "s' = s" | "first_connection env c new options con (length ids + 1)
        (upd_cont c (c_conns_update (\<lambda>_. Some (ids @ [rid]))) s) = Returns (r, s')"
      by (auto simp: reserve_run split: if_splits)
    then show ?thesis
      by cases (auto simp: pool_kept_def rest_kept_def elim!: first_connection_cases)
  qed
qed

lemma pool_kept_last: "keeps pool_kept (last_connection env c options n)"
  by (rule keepsI) (auto simp: pool_kept_def rest_kept_def elim!: last_connection_cases)

lemma pool_kept_release: "keeps pool_kept (releaseContainer env c rid options)"
proof (rule keepsI)
  fix s r s'
  assume run: "releaseContainer env c rid options s = Returns (r, s')"
  define t where "t = upd_cont c (c_conns_update (map_option (removeAll rid))) s"
  have "pool_kept s t" by (simp add: t_def pool_kept_def rest_kept_def)
  moreover from run have "\<exists>n. last_connection env c options n t = Returns (r, s')"
    by (auto simp: releaseContainer_def Release_def proc_eval t_def)
  then have "pool_kept t s'" using keepsD [OF pool_kept_last] by blast
  ultimately show "pool_kept s s'" using pool_kept_order(2) by (auto dest: transpD)
qed

lemmas pool_kept_intros = keeps_intros pool_kept_reserve pool_kept_release
  books_cleanup [THEN books_pool_kept] books_delete [THEN books_pool_kept] books_create [THEN books_pool_kept]
  books_cache_Get [THEN books_pool_kept] books_files [THEN books_pool_kept] books_world [THEN books_pool_kept]
  books_spawn [THEN books_pool_kept] books_set_op [THEN books_pool_kept]

text \<open>The removal of a container returns no error.\<close>

lemma never_fails_stop [never_fails_intros]: "never_fails (stop_container env c)"
  by (auto simp: never_fails_def stop_container_def split: outcome.splits prod.splits)

lemma never_fails_spawn [never_fails_intros]: "never_fails (spawn g)"
  unfolding spawn_def by (intro never_fails_intros)

lemma never_fails_cleanup [never_fails_intros]: "never_fails (cleanupContainer env c)"
  unfolding cleanupContainer_def by (intro never_fails_intros)

lemma never_fails_get [never_fails_intros]: "never_fails (cache_Get env key)"
  by (auto simp: never_fails_def cache_Get_def split: prod.splits)

lemma never_fails_evicted [never_fails_intros]: "never_fails (onEvictedContainerHandler env x)"
  unfolding onEvictedContainerHandler_def by (cases x) (auto intro!: never_fails_intros)

lemma never_fails_evict_all [never_fails_intros]: "never_fails (evict_containers env xs)"
  by (induction xs) (auto intro!: never_fails_intros)

lemma never_fails_set_op [never_fails_intros]: "never_fails (set_op env f)"
  using never_failsD [OF never_fails_evict_all [of env]]
  by (auto simp: never_fails_def set_op_def split: prod.splits)

lemma never_fails_delete [never_fails_intros]: "never_fails (deleteContainer env c)"
  unfolding deleteContainer_def by (intro never_fails_intros)

end
