(* ===== verification/Runner_Slots.thy ===== *)
theory Runner_Slots
  imports Runner_Frame
begin

text \<open>
  The slots of the runner: what the calls of \<open>reserveContainer\<close> and \<open>releaseContainer\<close> do to
  the semaphore, in any order and for any containers, and the two places where a slot is
  given back that was not taken, or not given back that was.
\<close>

section \<open>Steps\<close>

text \<open>
  Reservations and releases of connections. \<open>opts\<close> are the options a container's runs have; a
  reservation that fails because the wait for the semaphore ended is left out here: it leaves
  a connection without a unit.
\<close>

inductive slot_step ::
  "('k, 'c, 'w) runner_env \<Rightarrow> (nat \<Rightarrow> run_options) \<Rightarrow> ('k, 'c, 'w) runner \<Rightarrow> ('k, 'c, 'w) runner \<Rightarrow> bool"
  for env opts where
  reserve: "c < rn_next s \<Longrightarrow> reserveContainer env c rid new (opts c) con s = Returns (r, s') \<Longrightarrow>
    r \<noteq> Inl ESemaphoreNotAcquired \<Longrightarrow> slot_step env opts s s'"
| release: "c < rn_next s \<Longrightarrow> c_conns (rn_conts s c) = Some ids \<Longrightarrow> rid \<in> set ids \<Longrightarrow>
    releaseContainer env c rid (opts c) s = Returns (r, s') \<Longrightarrow> slot_step env opts s s'"
| configure: "c < rn_next s \<Longrightarrow> configure_container c d options s = Returns (r, s') \<Longrightarrow> slot_step env opts s s'"
| create: "new_container runtime s = Returns (Inr c, s') \<Longrightarrow> slot_step env opts s s'"

inductive_cases slot_stepE: "slot_step env opts s s'"

definition weight_of :: "(nat \<Rightarrow> run_options) \<Rightarrow> ('k, 'c, 'w) runner \<Rightarrow> nat \<Rightarrow> int" where
  "weight_of opts s c = (if c_conns (rn_conts s c) = Some [] then 0 else sint (Weight (opts c)))"

definition slots_used :: "(nat \<Rightarrow> run_options) \<Rightarrow> ('k, 'c, 'w) runner \<Rightarrow> int" where
  "slots_used opts s = (\<Sum>c<rn_next s. weight_of opts s c)"

definition slots_ok :: "(nat \<Rightarrow> run_options) \<Rightarrow> ('k, 'c, 'w) runner \<Rightarrow> bool" where
  "slots_ok opts s \<longleftrightarrow> rn_held s = slots_used opts s \<and> rn_held s \<le> rn_size s \<and>
     (\<forall>c<rn_next s. c_conns (rn_conts s c) \<noteq> None)"

text \<open>Changing one container changes one summand.\<close>

lemma slots_used_update:
  assumes "c < rn_next s" "rn_next s' = rn_next s" "\<And>d. d \<noteq> c \<Longrightarrow> rn_conts s' d = rn_conts s d"
  shows "slots_used opts s' = slots_used opts s - weight_of opts s c + weight_of opts s' c"
proof -
  have rest: "(\<Sum>d\<in>{..<rn_next s} - {c}. weight_of opts s' d) = (\<Sum>d\<in>{..<rn_next s} - {c}. weight_of opts s d)"
    by (rule sum.cong) (auto simp: weight_of_def assms(3))
  show ?thesis
    using assms(1) by (simp add: slots_used_def assms(2) sum.remove [of "{..<rn_next s}" c] rest)
qed

lemma slots_ok_update:
  assumes "slots_ok opts s" "c < rn_next s" "rn_next s' = rn_next s" "rn_size s' = rn_size s"
    and "\<And>d. d \<noteq> c \<Longrightarrow> rn_conts s' d = rn_conts s d" "c_conns (rn_conts s' c) \<noteq> None"
    and "rn_held s' - rn_held s = weight_of opts s' c - weight_of opts s c" "rn_held s' \<le> rn_size s"
  shows "slots_ok opts s'"
proof -
  have "c_conns (rn_conts s' d) \<noteq> None" if "d < rn_next s" for d
    using assms(1,5,6) that by (cases "d = c") (auto simp: slots_ok_def)
  with slots_used_update [OF assms(2,3,5), of opts] assms show ?thesis
    by (simp add: slots_ok_def)
qed

lemma slots_ok_reserve:
  assumes ok: "slots_ok opts s" and c: "c < rn_next s"
    and run: "reserveContainer env c rid new (opts c) con s = Returns (r, s')" "r \<noteq> Inl ESemaphoreNotAcquired"
  shows "slots_ok opts s'"
proof -
  obtain ids where ids: "c_conns (rn_conts s c) = Some ids" using ok c by (auto simp: slots_ok_def)
  let ?t = "upd_cont c (c_conns_update (\<lambda>_. Some (ids @ [rid]))) s"
  from run(1) consider "s' = s" | "first_connection env c new (opts c) con (length ids + 1) ?t = Returns (r, s')"
    by (auto simp: reserve_run [OF ids] split: if_splits)
  then show ?thesis
  proof cases
    case 1
    with ok show ?thesis by simp
  next
    case 2
    then show ?thesis
    proof (cases rule: first_connection_cases)
      case later
      then show ?thesis
        using ids ok by (intro slots_ok_update [OF ok c]) (auto simp: weight_of_def slots_ok_def)
    next
      case waited
      with run(2) show ?thesis by simp
    next
      case (taken rp)
      then show ?thesis
        using ids ok by (intro slots_ok_update [OF ok c]) (auto simp: weight_of_def)
    qed
  qed
qed

lemma slots_ok_release:
  assumes ok: "slots_ok opts s" and c: "c < rn_next s" and w: "0 \<le> sint (Weight (opts c))"
    and ids: "c_conns (rn_conts s c) = Some ids" "rid \<in> set ids"
    and run: "releaseContainer env c rid (opts c) s = Returns (r, s')"
  shows "slots_ok opts s'"
proof -
  have ne: "ids \<noteq> []" using ids(2) by auto
  from run show ?thesis
    unfolding release_run [OF ids(1)]
  proof (cases rule: last_connection_cases)
    case earlier
    then show ?thesis
      using ids ne ok by (intro slots_ok_update [OF ok c]) (auto simp: weight_of_def slots_ok_def)
  next
    case (given rp)
    then have "removeAll rid ids = []" by simp
    with given show ?thesis
      using ids(1) ne ok w by (intro slots_ok_update [OF ok c]) (auto simp: weight_of_def slots_ok_def)
  qed
qed

lemma slots_ok_step:
  assumes "slot_step env opts s s'" "slots_ok opts s" "\<forall>c. 0 \<le> sint (Weight (opts c))"
  shows "slots_ok opts s'"
  using assms(1)
proof cases
  case (reserve c rid new con r)
  with slots_ok_reserve [OF assms(2)] show ?thesis by blast
next
  case (release c ids rid r)
  with slots_ok_release [OF assms(2)] assms(3) show ?thesis by blast
next
  case (configure c d options r)
  then have "s' = upd_cont c (\<lambda>k. Configure \<lparr>co_Timeout = Timeout options\<rparr> (ro_UserCacheConstraints (rn_options s)) (k\<lparr>c_Definition := d\<rparr>)) s"
    by (auto simp: configure_container_def proc_eval)
  with assms(2) configure(1) show ?thesis
    by (intro slots_ok_update [OF assms(2) configure(1)]) (auto simp: weight_of_def Configure_def slots_ok_def)
next
  case (create runtime c)
  have "(\<Sum>d<rn_next s. weight_of opts s' d) = (\<Sum>d<rn_next s. weight_of opts s d)"
    using create by (intro sum.cong) (auto simp: new_container_def weight_of_def)
  with create assms(2) show ?thesis
    by (auto simp: slots_ok_def slots_used_def new_container_def weight_of_def NewContainer_def less_Suc_eq)
qed

lemma slots_ok_steps:
  assumes "(slot_step env opts)\<^sup>*\<^sup>* s s'" "slots_ok opts s" "\<forall>c. 0 \<le> sint (Weight (opts c))"
  shows "slots_ok opts s'"
  using assms by induction (auto intro: slots_ok_step)

lemma slots_used_ge:
  assumes "\<forall>c. 0 \<le> sint (Weight (opts c))" "c < rn_next s"
  shows "weight_of opts s c \<le> slots_used opts s"
  unfolding slots_used_def
  by (rule member_le_sum) (use assms in \<open>auto simp: weight_of_def\<close>)

section \<open>Slots that go astray\<close>

text \<open>
  A call that waits for the semaphore with an idle container of the cache, and whose context
  ends: the work after the run releases the container, and with it units this call never had.
\<close>

lemma retire_wait_releases:
  assumes conns: "c_conns (rn_conts s c) = Some [rid]" and err: "\<not> error_is e EResourceNotFound"
  shows "rn_held s < sint (Weight options) \<Longrightarrow>
      processContainerDone env c rid options False (Some e) s = Panics"
    and "processContainerDone env c rid options False (Some e) s = Returns (r, s') \<Longrightarrow>
      rn_held s' = rn_held s - sint (Weight options)"
proof -
  let ?t = "upd_cont c (c_conns_update (map_option (removeAll rid))) s"
  have rel: "releaseContainer env c rid options s = last_connection env c options 0 ?t"
    by (simp add: release_run [OF conns])
  have pcd: "processContainerDone env c rid options False (Some e) s = retire_container env c rid options False (Some e) s"
    using err by (simp add: processContainerDone_def)
  show "processContainerDone env c rid options False (Some e) s = Panics" if "rn_held s < sint (Weight options)"
  proof -
    have "last_connection env c options 0 ?t = Panics" using that by (simp add: last_connection_panics_iff)
    with rel show ?thesis unfolding pcd by (simp add: retire_container_def proc_eval)
  qed
  assume run: "processContainerDone env c rid options False (Some e) s = Returns (r, s')"
  then have "\<exists>r1 t. releaseContainer env c rid options s = Returns (r1, t) \<and> rn_held s' = rn_held t"
    unfolding pcd by (cases "releaseContainer env c rid options s")
      (auto simp: retire_container_def proc_eval books_def split: outcome.splits prod.splits sum.splits
        dest: keepsD [OF books_delete])
  then obtain r1 t where t: "last_connection env c options 0 ?t = Returns (r1, t)" "rn_held s' = rn_held t"
    using rel by auto
  from t(1) have "rn_held t = rn_held s - sint (Weight options)"
    by (cases rule: last_connection_cases) auto
  with t(2) show "rn_held s' = rn_held s - sint (Weight options)" by simp
qed

section \<open>An instance\<close>

text \<open>The cache of containers as a list of entries.\<close>

definition list_set_cache :: "(string \<times> nat) list set_cache" where
  "list_set_cache = \<lparr>sc_Get = \<lambda>k m. (map snd (filter (\<lambda>x. fst x = k) m), m),
     sc_Refresh = \<lambda>k c m. ((k, c) \<in> set m, m),
     sc_Add = \<lambda>k c m. ([], if (k, c) \<in> set m then m else m @ [(k, c)]),
     sc_Delete = \<lambda>k c m. (filter (\<lambda>x. x = (k, c)) m, filter (\<lambda>x. x \<noteq> (k, c)) m),
     sc_DeleteLRU = \<lambda>m. (case m of [] \<Rightarrow> (False, [], []) | x # xs \<Rightarrow> (True, [x], xs)),
     sc_Flush = \<lambda>m. (m, [])\<rparr>"

definition toy_docker :: "string list docker_client" where
  "toy_docker = \<lparr>cli_Info = eff_fail EEOF, cli_NetworkInspect = \<lambda>_. eff_return (),
     cli_NetworkCreate = \<lambda>_ _. eff_return (), cli_ImageInspect = \<lambda>_. eff_return (), cli_ImagePull = \<lambda>_. eff_return 0,
     cli_CopyDiscard = \<lambda>_. eff_return (), cli_Close = \<lambda>_. eff_return (), cli_ImagesPrune = \<lambda>_. eff_return (),
     cli_ContainerList = \<lambda>_. eff_return [], cli_ContainerCreate = \<lambda>_ _. eff_return ''cid'',
     cli_ContainerAttach = \<lambda>_ _ _. eff_return 0, cli_ContainerStart = \<lambda>_. eff_return (),
     cli_ContainerStop = \<lambda>_. eff_return (), cli_ContainerRemove = \<lambda>_ _. eff_return (),
     cli_ContainerUpdate = \<lambda>_ _. eff_return ()\<rparr>"

definition toy_net :: "string list network" where
  "toy_net = \<lparr>net_Dial = \<lambda>_. eff_return 0, net_Client = \<lambda>_. eff_return 0, net_Open = \<lambda>_. eff_return 1,
     net_CloseSession = \<lambda>_. eff_return (), net_Write = \<lambda>_ _. eff_return (), net_Close = \<lambda>_. eff_return (),
     enc_setup = \<lambda>_. Inr [], enc_script_setup = \<lambda>_ _ _. Inr [], enc_context = \<lambda>_. Inr []\<rparr>"

text \<open>An environment in which everything succeeds, and a call that waits is given up.\<close>

definition toy_renv :: "((string \<times> nat) list, (string \<times> string) list, string list) runner_env" where
  "toy_renv = \<lparr>re_docker = toy_docker,
     re_mgr = \<lparr>storageLimitSupported = False, m_options = DefaultDockerOptions,
       m_info = \<lparr>NCPU = 4, Driver = [], DriverStatus = [], Runtimes = []\<rparr>, m_runtime = []\<rparr>,
     re_net = toy_net,
     re_redis = \<lparr>rd_HGet = \<lambda>_ _. eff_return None, rd_Pipelined = \<lambda>_. eff_return (), rd_EvalSha = \<lambda>_ _ _. eff_return (),
       rd_ScriptLoad = \<lambda>_. eff_return ''sha'', rd_Now = \<lambda>_. 0\<rparr>,
     re_fs = toy_fs, re_files = list_lru 10, re_cache = list_set_cache, re_merge = \<lambda>a b. b,
     re_CheckFreeMemory = \<lambda>_. eff_return (), re_ReserveMemory = \<lambda>_. eff_return (), re_ResetMemory = \<lambda>w. w,
     re_ContextEnds = \<lambda>_. True, re_ReadLine = \<lambda>_. eff_return [], re_CloseConn = \<lambda>_. eff_return (),
     re_ReadLimited = \<lambda>_ _ w. (([0], None), w), re_ReadLimitedUntil = \<lambda>_ _ _ w. (([], None), w),
     re_Now = \<lambda>_. 0, re_Publish = \<lambda>_ _ w. w, re_OpenWrapper = eff_return (Inr []), re_Asset = \<lambda>_. [],
     re_Retry = \<lambda>_ _ f. f, re_unmarshal = \<lambda>_. None, re_tag = \<lambda>_ _. True,
     re_hasher = \<lparr>hash_index = \<lambda>_. 1, hash_definition = \<lambda>_. 2\<rparr>, re_ceil = \<lambda>_ _. 1\<rparr>"

text \<open>
  A runner with two slots, both taken, and two containers: the first is idle, the second has
  a connection.
\<close>

definition toy_run_options :: run_options where
  "toy_run_options = \<lparr>OutputLimit = 10, Timeout = 5, Memory = 0, Weight = 2, Args = [], Meta = [], Config = [], Files = []\<rparr>"

definition toy_runner :: "((string \<times> nat) list, (string \<times> string) list, string list) runner" where
  "toy_runner = \<lparr>rn_poolID = ''p'', rn_running = True, rn_scriptIndex = [], rn_containerCache = [],
     rn_containerPool = [(''nodejs_v8'', [])], rn_size = 2, rn_held = 2, rn_taskWaitGroup = 1, rn_onRemoved = False,
     rn_containerWait = [], rn_repo = toy_repo, rn_options = DefaultRunnerOptions, rn_workerCPU = 1000,
     rn_globals = \<lparr>initOnceCache = True, redisPopCacheSHA = [], redisDecrSizeSHA = []\<rparr>,
     rn_conts = (\<lambda>c. (NewContainer ''nodejs_v8'')\<lparr>c_state := ContainerStateRunning, c_connLimit := 1,
        c_volumeKey := ''vol'', c_conns := Some (if c = 1 then [''r1''] else [])\<rparr>),
     rn_next = 2, rn_spawned = []\<rparr>"

lemma toy_runner_fields [simp]:
  "rn_held toy_runner = 2" "rn_size toy_runner = 2" "rn_repo toy_runner = toy_repo" "rn_next toy_runner = 2"
  "rn_containerPool toy_runner = [(''nodejs_v8'', [])]" "rn_containerCache toy_runner = []" "rn_scriptIndex toy_runner = []"
  "c_conns (rn_conts toy_runner 0) = Some []" "c_connLimit (rn_conts toy_runner c) = 1"
  "c_state (rn_conts toy_runner c) = ContainerStateRunning"
  "c_Definition (rn_conts toy_runner c) = c_Definition (NewContainer ''nodejs_v8'')"
  "c_volumeKey (rn_conts toy_runner c) = ''vol''"
  by (simp_all add: toy_runner_def)

section \<open>Properties\<close>


definition toy_sync :: script_def where
  "toy_sync = toy_definition\<lparr>Async := 1\<rparr>"

text \<open>A new container is configured and gets a request.\<close>

definition toy_reserved :: "((string \<times> nat) list, (string \<times> string) list, string list) runner" where
  "toy_reserved = toy_runner\<lparr>rn_next := 1, rn_workerCPU := 1000 - ucast (MCPU toy_sync), rn_conts :=
     (rn_conts toy_runner)(0 := (Configure \<lparr>co_Timeout = 5\<rparr> None ((NewContainer ''nodejs_v8'')\<lparr>c_Definition := toy_sync\<rparr>))
        \<lparr>c_conns := Some [''r2'']\<rparr>)\<rparr>"

lemma toy_reserved_steps:
  "(slot_step toy_renv (\<lambda>c. toy_run_options))\<^sup>*\<^sup>* (toy_runner\<lparr>rn_held := 0, rn_next := 0\<rparr>) toy_reserved"
proof -
  let ?k = "NewContainer ''nodejs_v8''"
  define s0 where "s0 = toy_runner\<lparr>rn_held := 0, rn_next := 0\<rparr>"
  define s1 where "s1 = s0\<lparr>rn_conts := (rn_conts s0)(0 := ?k), rn_next := 1\<rparr>"
  define s2 where "s2 = s1\<lparr>rn_conts := (rn_conts s1)(0 := Configure \<lparr>co_Timeout = 5\<rparr> None (?k\<lparr>c_Definition := toy_sync\<rparr>))\<rparr>"
  have 1: "slot_step toy_renv (\<lambda>c. toy_run_options) s0 s1"
    by (rule slot_step.create [where c = 0 and runtime = "''nodejs_v8''"]) (simp add: new_container_def s1_def s0_def)
  have 2: "slot_step toy_renv (\<lambda>c. toy_run_options) s1 s2"
    by (rule slot_step.configure [where c = 0 and d = toy_sync and options = toy_run_options and r = "Inr ()"])
      (simp_all add: configure_container_def proc_eval upd_cont_def s1_def s2_def s0_def toy_run_options_def toy_runner_def
        DefaultRunnerOptions_def)
  have conns: "c_conns (rn_conts s2 0) = Some []" "0 < c_connLimit (rn_conts s2 0)"
    by (simp_all add: s2_def Configure_def NewContainer_def toy_sync_def toy_definition_def)
  have 3: "slot_step toy_renv (\<lambda>c. toy_run_options) s2 toy_reserved"
    by (rule slot_step.reserve [where c = 0 and rid = "''r2''" and new = False and con = "ro_Constraints DefaultRunnerOptions" and r = "Inr ()"])
      (use conns in \<open>simp_all add: reserve_run first_connection_def sem_Acquire_def proc_eval add_workerCPU_def cont_of_def
        toy_run_options_def s0_def s1_def s2_def toy_reserved_def upd_cont_def toy_runner_def NewContainer_def Configure_def toy_sync_def toy_definition_def\<close>)
  from 1 2 3 show ?thesis by (fold s0_def) (meson converse_rtranclp_into_rtranclp rtranclp.rtrancl_refl)
qed


text \<open>
  C23: a call that gives up waiting frees a slot it never had. When the first connection of an
  idle cached container has to wait for the semaphore and its context ends, the reservation
  fails without taking units, and yet the work after the run releases them: either it panics,
  or as many units less are held although every other connection is still there.
\<close>

theorem runner_wait_frees_foreign_slot:
  assumes "c_conns (rn_conts s c) = Some []" "0 < c_connLimit (rn_conts s c)"
    and "rn_size s < rn_held s + sint (Weight options)" "re_ContextEnds env (fs_world (rn_repo s))"
  shows "\<exists>s1. reserveContainer env c rid False options con s = Returns (Inl ESemaphoreNotAcquired, s1) \<and>
    rn_held s1 = rn_held s \<and>
    (rn_held s < sint (Weight options) \<longrightarrow>
       processContainerDone env c rid options False (Some ESemaphoreNotAcquired) s1 = Panics) \<and>
    (\<forall>r s2. processContainerDone env c rid options False (Some ESemaphoreNotAcquired) s1 = Returns (r, s2) \<longrightarrow>
       rn_held s2 = rn_held s - sint (Weight options))"
proof -
  let ?s1 = "upd_cont c (c_conns_update (\<lambda>_. Some [rid])) s"
  have run: "reserveContainer env c rid False options con s = Returns (Inl ESemaphoreNotAcquired, ?s1)"
    using assms by (simp add: reserve_run first_connection_def sem_Acquire_def proc_eval)
  have conns: "c_conns (rn_conts ?s1 c) = Some [rid]" by simp
  have "rn_held ?s1 = rn_held s" by simp
  with run retire_wait_releases [OF conns, of ESemaphoreNotAcquired] show ?thesis by (intro exI [of _ ?s1]) simp
qed

text \<open>Both slots are taken; a request for the idle container gives up, and nothing is held any more.\<close>

theorem runner_wait_frees_foreign_slot_witness:
  "\<exists>s1 s2. reserveContainer toy_renv 0 ''r2'' False toy_run_options (ro_Constraints DefaultRunnerOptions) toy_runner =
      Returns (Inl ESemaphoreNotAcquired, s1) \<and>
    processContainerDone toy_renv 0 ''r2'' toy_run_options False (Some ESemaphoreNotAcquired) s1 = Returns (Inr (), s2) \<and>
    rn_held s2 = 0"
proof -
  have pre: "c_conns (rn_conts toy_runner 0) = Some []" "0 < c_connLimit (rn_conts toy_runner 0)"
    "rn_size toy_runner < rn_held toy_runner + sint (Weight toy_run_options)"
    "re_ContextEnds toy_renv (fs_world (rn_repo toy_runner))"
    by (simp_all add: toy_run_options_def toy_renv_def)
  obtain s1 where s1: "reserveContainer toy_renv 0 ''r2'' False toy_run_options (ro_Constraints DefaultRunnerOptions) toy_runner =
      Returns (Inl ESemaphoreNotAcquired, s1)"
    and held: "\<And>r s2. processContainerDone toy_renv 0 ''r2'' toy_run_options False (Some ESemaphoreNotAcquired) s1 = Returns (r, s2) \<Longrightarrow>
       rn_held s2 = rn_held toy_runner - sint (Weight toy_run_options)"
    using runner_wait_frees_foreign_slot [OF pre, of "''r2''" "ro_Constraints DefaultRunnerOptions"] by blast
  have "s1 = upd_cont 0 (c_conns_update (\<lambda>_. Some [''r2''])) toy_runner"
    using s1 pre by (simp add: reserve_run first_connection_def sem_Acquire_def proc_eval split: if_splits)
  then have "\<exists>s2. processContainerDone toy_renv 0 ''r2'' toy_run_options False (Some ESemaphoreNotAcquired) s1 = Returns (Inr (), s2)"
    by (simp add: processContainerDone_def retire_container_def release_run last_connection_def sem_Release_def
        proc_eval add_workerCPU_def cont_of_def toy_run_options_def NewContainer_def deleteContainer_def
        set_op_def toy_renv_def list_set_cache_def)
  then obtain s2 where "processContainerDone toy_renv 0 ''r2'' toy_run_options False (Some ESemaphoreNotAcquired) s1 = Returns (Inr (), s2)" ..
  with held [OF this] s1 show ?thesis by (auto simp: toy_run_options_def)
qed


text \<open>
  C24: a missing source costs a slot. When linking or mounting reports that a resource is gone,
  the container goes back to the pool as it is: the units it took stay held, and its connection
  stays reserved, so that the next synchronous run that gets it from the pool is refused.
\<close>

theorem runner_missing_source_leaks:
  assumes "c_conns (rn_conts s c) = Some [rid]" "error_is e EResourceNotFound"
    and "CleanupVolume (re_fs env) (c_volumeKey (rn_conts s c)) (rn_repo s) = Returns (Inr (), f)"
    and "map_of (rn_containerPool s) (Runtime (Index (c_Definition (rn_conts s c)))) = Some q"
    and "int (length q) < rn_size s"
  shows "\<exists>s1. processContainerDone env c rid options True (Some e) s = Returns (Inr (), s1) \<and>
    rn_held s1 = rn_held s \<and>
    map_of (rn_containerPool s1) (Runtime (Index (c_Definition (rn_conts s c)))) = Some (q @ [c]) \<and>
    (\<forall>d options' rid' new con s2. Async d \<le> 1 \<and> configure_container c d options' s1 = Returns (Inr (), s2) \<longrightarrow>
       reserveContainer env c rid' new options' con s2 = Returns (Inl ETooManyConnections, s2))"
proof -
  let ?rt = "Runtime (Index (c_Definition (rn_conts s c)))"
  let ?s1 = "s\<lparr>rn_repo := f, rn_containerPool := AList.update ?rt (q @ [c]) (rn_containerPool s)\<rparr>"
  have run: "processContainerDone env c rid options True (Some e) s = Returns (Inr (), ?s1)"
    using assms(2-5) by (simp add: processContainerDone_def proc_eval on_files_def put_back_def pool_put_def)
  have refused: "reserveContainer env c rid' new options' con s2 = Returns (Inl ETooManyConnections, s2)"
    if "Async d \<le> 1" "configure_container c d options' ?s1 = Returns (Inr (), s2)" for d options' rid' new con s2
  proof -
    have "uint (Async d) \<le> 1" using that(1) by (simp add: word_le_def)
    then have "c_conns (rn_conts s2 c) = Some [rid]" "c_connLimit (rn_conts s2 c) \<le> 1"
      using that(2) assms(1) by (auto simp: configure_container_def proc_eval Configure_def)
    then show ?thesis by (simp add: reserve_run)
  qed
  then have "\<forall>d options' rid' new con s2. Async d \<le> 1 \<and> configure_container c d options' ?s1 = Returns (Inr (), s2) \<longrightarrow>
      reserveContainer env c rid' new options' con s2 = Returns (Inl ETooManyConnections, s2)" by blast
  with run show ?thesis by (intro exI [of _ ?s1] conjI) simp_all
qed

text \<open>The container of the running request loses its source: the slots stay taken.\<close>

theorem runner_missing_source_leaks_witness:
  "\<exists>s1. processContainerDone toy_renv 1 ''r1'' toy_run_options True (Some EResourceNotFound)
      (toy_runner\<lparr>rn_repo := toy_repo\<lparr>volumes := [(''vol'', \<lparr>Path = ''/v'', mounts = []\<rparr>)]\<rparr>\<rparr>) = Returns (Inr (), s1) \<and>
    rn_held s1 = 2 \<and> map_of (rn_containerPool s1) ''nodejs_v8'' = Some [1]"
proof -
  let ?s = "toy_runner\<lparr>rn_repo := toy_repo\<lparr>volumes := [(''vol'', \<lparr>Path = ''/v'', mounts = []\<rparr>)]\<rparr>\<rparr>"
  have conns: "c_conns (rn_conts ?s 1) = Some [''r1'']" "c_volumeKey (rn_conts ?s 1) = ''vol''"
    by (simp_all add: toy_runner_def)
  have rt: "Runtime (Index (c_Definition (rn_conts ?s 1))) = ''nodejs_v8''" by (simp add: NewContainer_def)
  have vol: "\<exists>f. CleanupVolume (re_fs toy_renv) (c_volumeKey (rn_conts ?s 1)) (rn_repo ?s) = Returns (Inr (), f)"
    by (simp add: toy_renv_def toy_fs_def CleanupVolume_def find_volume_def deleteVolume_def on_fs_def lift_eff_def proc_eval)
  then obtain f where f: "CleanupVolume (re_fs toy_renv) (c_volumeKey (rn_conts ?s 1)) (rn_repo ?s) = Returns (Inr (), f)" ..
  have q: "map_of (rn_containerPool ?s) (Runtime (Index (c_Definition (rn_conts ?s 1)))) = Some []"
    by (simp add: NewContainer_def)
  have "error_is EResourceNotFound EResourceNotFound" by simp
  from runner_missing_source_leaks [OF conns(1) this f q, of toy_run_options] show ?thesis
    by (simp only: rt) auto
qed


end
