(* ===== verification/Runner_Pool.thy ===== *)
theory Runner_Pool
  imports Runner_Slots
begin

text \<open>
  The pool of the runner: a run takes a container out of it or finds one in the cache, and
  the work after the run puts one back for each that was taken; what a run refuses, and in
  which order; the loop that frees memory; the limits of a new runner.
\<close>

section \<open>Taking a container\<close>

text \<open>One container, the first, is taken from the queue of a runtime, and gets a definition.\<close>

definition took :: "string \<Rightarrow> nat \<Rightarrow> ('k, 'c, 'w) runner \<Rightarrow> ('k, 'c, 'w) runner \<Rightarrow> bool" where
  "took rt c s s' \<longleftrightarrow> (\<exists>q. map_of (rn_containerPool s) rt = Some (c # q) \<and>
     map_of (rn_containerPool s') = (map_of (rn_containerPool s))(rt \<mapsto> q)) \<and>
     Runtime (Index (c_Definition (rn_conts s' c))) = rt \<and> rest_kept {c} s s'"

text \<open>
  One container is put at the end of the queue of a runtime: the given one or a new one.
\<close>

definition gave :: "string \<Rightarrow> nat \<Rightarrow> ('k, 'c, 'w) runner \<Rightarrow> ('k, 'c, 'w) runner \<Rightarrow> bool" where
  "gave rt c s s' \<longleftrightarrow> (\<exists>q c'. map_of (rn_containerPool s) rt = Some q \<and>
     map_of (rn_containerPool s') = (map_of (rn_containerPool s))(rt \<mapsto> q @ [c']) \<and>
     (c' = c \<or> rn_next s \<le> c' \<and> c' < rn_next s')) \<and> rest_kept {} s s'"

lemma pool_keptD:
  assumes "pool_kept s s'"
  shows "rn_containerPool s' = rn_containerPool s" "rn_size s' = rn_size s" "rn_next s \<le> rn_next s'"
    "rn_taskWaitGroup s' = rn_taskWaitGroup s" "c < rn_next s \<Longrightarrow> c_Definition (rn_conts s' c) = c_Definition (rn_conts s c)"
  using assms by (auto simp: pool_kept_def rest_kept_def)

lemma pool_kept_refl [simp]: "pool_kept s s"
  by (simp add: pool_kept_def rest_kept_def)

lemma pool_kept_trans: "pool_kept s t \<Longrightarrow> pool_kept t u \<Longrightarrow> pool_kept s u"
  using pool_kept_order(2) by (rule transpD)

lemma pool_kept_conn: "keeps pool_kept (cont_Conn env c)"
  unfolding cont_Conn_def by (intro pool_kept_intros) (auto intro!: pool_kept_intros split: session_ref.split)

lemma pool_kept_refresh:
  "keeps pool_kept (\<lambda>s. case f s of (ok, k) \<Rightarrow> Returns (Inr ok, s\<lparr>rn_containerCache := k\<rparr>))"
  by (auto simp: keeps_def pool_kept_def rest_kept_def split: prod.splits)

lemma pool_kept_try_cached: "keeps pool_kept (try_cached env key rid options con cs)"
  by (induction cs) (auto intro!: pool_kept_intros pool_kept_conn pool_kept_refresh)

lemma try_cached_old:
  "try_cached env key rid options con cs s \<noteq> Returns (Inr (Some (c, True, r)), s')"
proof
  assume "try_cached env key rid options con cs s = Returns (Inr (Some (c, True, r)), s')"
  then show False
  proof (induction cs arbitrary: s)
    case (Cons c0 cs)
    from Cons.prems show ?case
      by (auto elim!: andThen_ReturnsE try_catch_ReturnsE split: if_splits simp: proc_run) (erule Cons.IH)+
  qed (simp add: proc_eval)
qed

lemma rest_kept_trans:
  assumes "rest_kept D s t" "rest_kept {} t u"
  shows "rest_kept D s u"
  using assms unfolding rest_kept_def by (metis empty_iff order_less_le_trans order_trans)

lemma rest_kept_empty_trans:
  assumes "rest_kept {} s t" "rest_kept D t u"
  shows "rest_kept D s u"
  using assms unfolding rest_kept_def by (metis empty_iff order_less_le_trans order_trans)

lemma took_between:
  assumes "pool_kept s t" "took rt c t u" "pool_kept u v" "c < rn_next t"
  shows "took rt c s v"
proof -
  have "rest_kept {c} s v"
    using assms by (auto simp: took_def pool_kept_def intro: rest_kept_trans rest_kept_empty_trans)
  moreover have "c_Definition (rn_conts v c) = c_Definition (rn_conts u c)"
    using assms by (auto simp: took_def pool_kept_def rest_kept_def)
  ultimately show ?thesis using assms by (simp add: took_def pool_kept_def)
qed

text \<open>The containers of the pool are known.\<close>

definition pool_known :: "('k, 'c, 'w) runner \<Rightarrow> bool" where
  "pool_known s \<longleftrightarrow> (\<forall>rt q. map_of (rn_containerPool s) rt = Some q \<longrightarrow> set q \<subseteq> {..<rn_next s})"

lemma pool_known_kept:
  assumes "pool_known s" "pool_kept s s'"
  shows "pool_known s'"
proof -
  have "rn_containerPool s' = rn_containerPool s" "{..<rn_next s} \<subseteq> {..<rn_next s'}"
    using assms(2) by (simp_all add: pool_kept_def rest_kept_def)
  with assms(1) show ?thesis unfolding pool_known_def by (metis order_trans)
qed

lemma pool_knownD: "pool_known s \<Longrightarrow> map_of (rn_containerPool s) rt = Some q \<Longrightarrow> c \<in> set q \<Longrightarrow> c < rn_next s"
  by (auto simp: pool_known_def)

lemma took_known: "pool_known s \<Longrightarrow> took rt c s s' \<Longrightarrow> c < rn_next s"
  by (auto simp: took_def intro: pool_knownD)

lemma never_fails_refresh:
  "never_fails (\<lambda>s. case f s of (ok, k) \<Rightarrow> Returns (Inr ok, s\<lparr>rn_containerCache := k\<rparr>))"
  by (auto simp: never_fails_def split: prod.splits)

lemma never_fails_try_cached: "never_fails (try_cached env key rid options con cs)"
  by (induction cs) (auto intro!: never_fails_intros never_fails_refresh)

text \<open>The setup of a container does not touch its definition.\<close>

definition same_def :: "'w cont_env \<Rightarrow> 'w cont_env \<Rightarrow> bool" where
  "same_def s s' \<longleftrightarrow> c_Definition (ce_cont s') = c_Definition (ce_cont s)"

lemma same_def_order [keeps_intros]: "reflp same_def" "transp same_def"
  by (auto simp: same_def_def intro!: reflpI transpI)

lemma same_def_net [keeps_intros]: "keeps same_def (on_net m)"
  unfolding on_net_def by (rule keeps_lift) (simp add: same_def_def)

lemma same_def_cont: "(\<And>k. c_Definition (f k) = c_Definition k) \<Longrightarrow> keeps same_def (on_cont f)"
  unfolding on_cont_def by (rule keeps_modify) (simp add: same_def_def)

lemma same_def_open [keeps_intros]: "keeps same_def (session_open net)"
  unfolding session_open_def by (auto intro!: keeps_intros split: session_ref.split)

lemma same_def_open_stream: "(\<And>n k. c_Definition (f n k) = c_Definition k) \<Longrightarrow> keeps same_def (open_stream net f)"
  unfolding open_stream_def by (intro keeps_intros same_def_cont)

lemma same_def_user_cache [keeps_intros]: "keeps same_def (new_user_cache merge rd)"
  by (auto simp: keeps_def new_user_cache_def same_def_def split: outcome.splits prod.splits)

lemma same_def_session [keeps_intros]: "keeps same_def (open_session net merge rd)"
  unfolding open_session_def by (intro keeps_intros same_def_cont same_def_open_stream) simp_all

lemma same_def_write [keeps_intros]: "keeps same_def (write_stream net stream b)"
  unfolding write_stream_def by (auto intro!: keeps_intros split: option.split)

lemma same_def_SendSetup: "keeps same_def (SendSetup net merge rd cmd)"
  unfolding SendSetup_def setupCodewrapper_def setupSocket_def Let_def
  by (auto intro!: keeps_intros same_def_cont simp: cas_state_def split: sum.split option.split)

lemma pool_kept_send_setup: "keeps pool_kept (send_setup env c cmd)"
  by (auto simp: keeps_def send_setup_def pool_kept_def rest_kept_def same_def_def split: outcome.splits prod.splits
      dest: keepsD [OF same_def_SendSetup])

lemma pool_kept_add_index: "keeps pool_kept (add_index env c)"
  unfolding add_index_def by (rule keeps_modify) (simp add: pool_kept_def rest_kept_def)

lemma pool_kept_set_up: "keeps pool_kept (set_up_container env c key rid options con)"
  unfolding set_up_container_def
  by (auto intro!: pool_kept_intros pool_kept_send_setup pool_kept_add_index split: option.split)

text \<open>A container from the pool: it is the first of its runtime's queue, and gets the definition.\<close>

lemma from_pool_result:
  assumes "from_pool env key rid d options con s = Returns (x, s')"
    and "pool_known s"
  shows "\<exists>c r. x = Inr (c, True, r) \<and> took (Runtime (Index d)) c s s'"
proof -
  let ?rt = "Runtime (Index d)"
  obtain c q where q: "map_of (rn_containerPool s) ?rt = Some (c # q)"
    using assms(1) by (auto simp: from_pool_def pool_take_def proc_eval split: option.splits list.splits)
  define t where "t = upd_cont c (\<lambda>k. Configure \<lparr>co_Timeout = Timeout options\<rparr> (ro_UserCacheConstraints (rn_options s)) (k\<lparr>c_Definition := d\<rparr>))
    (s\<lparr>rn_containerPool := AList.update ?rt q (rn_containerPool s)\<rparr>)"
  have run: "from_pool env key rid d options con s =
      try_catch (set_up_container env c key rid options con) (\<lambda>e. return (c, True, Inl e)) (\<lambda>conn. return (c, True, Inr conn)) t"
    by (simp add: from_pool_def pool_take_def q configure_container_def proc_eval t_def)
  then obtain r u where u: "set_up_container env c key rid options con t = Returns (u, s')" "x = Inr (c, True, r)"
    using assms(1) by (auto simp: proc_eval split: outcome.splits prod.splits sum.splits)
  note kept = keepsD [OF pool_kept_set_up u(1)]
  have c: "c < rn_next s" using pool_knownD [OF assms(2) q] by simp
  then have "c < rn_next t" "c_Definition (rn_conts t c) = d" "rn_next t = rn_next s"
    "map_of (rn_containerPool t) = (map_of (rn_containerPool s))(?rt \<mapsto> q)"
    "rest_kept {c} s t"
    by (simp_all add: t_def Configure_def rest_kept_def)
  with kept q u(2) show ?thesis by (auto simp: took_def pool_kept_def rest_kept_def)
qed

lemma getContainer_result:
  assumes "getContainer env rid d options s = Returns (x, s')"
    and known: "pool_known s"
  shows "\<exists>c new r. x = Inr (c, new, r) \<and> (if new then took (Runtime (Index d)) c s s' else pool_kept s s')"
proof -
  let ?key = "Definition_Hash (re_hasher env) d"
  obtain con where con: "con = weighted (ro_Constraints (rn_options s)) (Weight options)" by blast
  obtain cs s1 where get: "cache_Get env ?key s = Returns (Inr cs, s1)"
    by (cases "sc_Get (re_cache env) ?key (rn_containerCache s)") (simp add: cache_Get_def)
  have kept1: "pool_kept s s1" using keepsD [OF books_cache_Get get] by (simp add: books_def)
  obtain y s2 where try2: "try_cached env ?key rid options con cs s1 = Returns (y, s2)"
    using assms(1) get con by (auto simp: getContainer_def Let_def proc_eval split: outcome.splits)
  have kept2: "pool_kept s s2" using pool_kept_trans [OF kept1 keepsD [OF pool_kept_try_cached try2]] .
  show ?thesis
  proof (cases y)
    case (Inl e)
    have "try_cached env ?key rid options con cs s1 \<noteq> Returns (Inl e, s2)"
      by (rule never_failsD [OF never_fails_try_cached])
    with try2 Inl show ?thesis by simp
  next
    case (Inr found)
    show ?thesis
    proof (cases found)
      case (Some g)
      obtain c new r where g: "g = (c, new, r)" by (cases g) auto
      with try2 Inr Some try_cached_old have "\<not> new" by metis
      moreover have "x = Inr g" "s' = s2"
        using assms(1) get con try2 Inr Some by (auto simp: getContainer_def Let_def proc_eval)
      ultimately show ?thesis using g kept2 by (auto simp: pool_kept_def rest_kept_def)
    next
      case None
      obtain t u where t: "from_pool env ?key rid d options con t = Returns (x, u)"
        "pool_kept s2 t" "pool_kept u s'"
      proof (cases "Async d \<le> 1")
        case True
        with assms(1) get con try2 Inr None that [of s2 s'] show thesis
          by (auto simp: getContainer_def Let_def proc_eval)
      next
        case False
        let ?t = "s2\<lparr>rn_containerWait := ?key # rn_containerWait s2\<rparr>"
        obtain u where "from_pool env ?key rid d options con ?t = Returns (x, u)"
          "s' = u\<lparr>rn_containerWait := removeAll ?key (rn_containerWait u)\<rparr>"
          using False assms(1) get con try2 Inr None
          by (auto simp: getContainer_def Let_def proc_eval split: if_splits outcome.splits prod.splits sum.splits)
        with that [of ?t u] show thesis by (simp add: pool_kept_def rest_kept_def)
      qed
      then have kept3: "pool_kept s t" using kept2 pool_kept_trans by blast
      then have known3: "pool_known t" by (rule pool_known_kept [OF known])
      from from_pool_result [OF t(1) known3] obtain c r where x: "x = Inr (c, True, r)"
        and took: "took (Runtime (Index d)) c t u" by blast
      from took_between [OF kept3 took t(3) took_known [OF known3 took]] x show ?thesis by auto
    qed
  qed
qed


section \<open>Giving one back\<close>

lemma gave_after:
  assumes "pool_kept s t" "gave rt c t u"
  shows "gave rt c s u"
proof -
  from assms obtain q c' where "map_of (rn_containerPool s) rt = Some q"
    "map_of (rn_containerPool u) = (map_of (rn_containerPool s))(rt \<mapsto> q @ [c'])"
    "c' = c \<or> rn_next t \<le> c' \<and> c' < rn_next u" "rest_kept {} s t" "rest_kept {} t u"
    by (auto simp: gave_def pool_kept_def)
  moreover from this have "rn_next s \<le> rn_next t" by (simp add: rest_kept_def)
  ultimately show ?thesis unfolding gave_def by (metis order_trans rest_kept_trans)
qed

lemma gave_before: "gave rt c s t \<Longrightarrow> pool_kept t u \<Longrightarrow> gave rt c s u"
  by (fastforce simp: gave_def pool_kept_def rest_kept_def)

lemma gave_fresh: "gave rt c s s' \<Longrightarrow> rn_next s \<le> c \<Longrightarrow> c < rn_next s' \<Longrightarrow> gave rt c0 s s'"
  by (auto simp: gave_def)

lemma pool_put_gave: "pool_put rt c s = Returns (r, s') \<Longrightarrow> r = Inr () \<and> gave rt c s s'"
  by (auto simp: pool_put_def gave_def rest_kept_def split: option.splits if_splits)

lemma put_back_gave:
  "put_back c s = Returns (r, s') \<Longrightarrow> gave (Runtime (Index (c_Definition (rn_conts s c)))) c s s'"
  by (auto simp: put_back_def proc_eval split: outcome.splits prod.splits sum.splits dest: pool_put_gave)

text \<open>
  \<open>util.Retry\<close> (pkg-go): the function is called until it succeeds, or until its last error is
  handed on. What it returns is the outcome of some number of failing calls and a last one.
\<close>

inductive retried :: "('s, unit) proc \<Rightarrow> 's \<Rightarrow> unit result \<Rightarrow> 's \<Rightarrow> bool" for f where
  last_call: "f s = Returns (r, s') \<Longrightarrow> retried f s r s'"
| again: "f s = Returns (Inl e, s1) \<Longrightarrow> retried f s1 r s' \<Longrightarrow> retried f s r s'"

definition retry_documented :: "('k, 'c, 'w) runner_env \<Rightarrow> bool" where
  "retry_documented env \<longleftrightarrow>
     (\<forall>n sleep f s r s'. re_Retry env n sleep f s = Returns (r, s') \<longrightarrow> retried f s r s')"

lemma createFreshContainer_fresh:
  assumes "createFreshContainer env rt s = Returns (r, s')"
  shows "\<exists>err. r = Inr (rn_next s, err) \<and> rn_next s < rn_next s'"
proof -
  define t where "t = s\<lparr>rn_conts := (rn_conts s)(rn_next s := NewContainer rt), rn_next := Suc (rn_next s)\<rparr>"
  from assms obtain x where steps: "create_steps env rt (rn_next s) t = Returns (x, s')" "\<exists>err. r = Inr (rn_next s, err)"
    by (auto simp: createFreshContainer_def new_container_def proc_eval t_def split: outcome.splits prod.splits sum.splits)
  have "rn_next t \<le> rn_next s'"
    using keepsD [OF books_create_steps steps(1)] by (simp add: books_def pool_kept_def rest_kept_def)
  with steps(2) show ?thesis by (simp add: t_def)
qed

lemma recreate_once_cases:
  assumes run: "recreate_once env rt s = Returns (r, s')"
  shows "case r of Inl _ \<Rightarrow> pool_kept s s' | Inr _ \<Rightarrow> gave rt c0 s s'"
proof -
  obtain x s1 where new: "createFreshContainer env rt s = Returns (x, s1)"
    using run by (auto simp: recreate_once_def proc_eval split: outcome.splits)
  obtain err where x: "x = Inr (rn_next s, err)" and fresh: "rn_next s < rn_next s1"
    using createFreshContainer_fresh [OF new] by auto
  have kept: "pool_kept s s1" using keepsD [OF books_create new] by (simp add: books_def)
  show ?thesis
  proof (cases err)
    case None
    with run new x have "pool_put rt (rn_next s) s1 = Returns (r, s')" by (simp add: recreate_once_def proc_eval)
    then have put: "r = Inr ()" "gave rt (rn_next s) s1 s'" using pool_put_gave by blast+
    from put(2) have "rn_next s1 \<le> rn_next s'" by (simp add: gave_def rest_kept_def)
    with put(1) gave_fresh [OF gave_after [OF kept put(2)]] fresh show ?thesis by simp
  next
    case (Some e)
    with run new x have tail: "andThen (cleanupContainer env (rn_next s)) (\<lambda>_. throw e) s1 = Returns (r, s')"
      by (simp add: recreate_once_def proc_eval)
    then have "\<exists>e'. r = Inl e'" by (auto elim!: andThen_ReturnsE simp: proc_run)
    moreover have "keeps pool_kept (andThen (cleanupContainer env (rn_next s)) (\<lambda>_. throw e))"
      by (intro pool_kept_intros)
    then have "pool_kept s1 s'" using tail by (auto dest: keepsD)
    ultimately show ?thesis using kept by (auto intro: pool_kept_trans)
  qed
qed

lemma retried_gave:
  assumes "retried (recreate_once env rt) s r s'" "r = Inr ()"
  shows "gave rt c0 s s'"
  using assms
proof (induction rule: retried.induct)
  case (last_call s r s')
  then show ?case using recreate_once_cases by fastforce
next
  case (again s e s1 r s')
  then have "pool_kept s s1" using recreate_once_cases by fastforce
  with again show ?case by (auto intro: gave_after)
qed

lemma recreate_gave:
  assumes "retry_documented env" "must (recreateContainer env rt) s = Returns (r, s')"
  shows "gave rt c0 s s'"
proof -
  from assms(2) have "recreateContainer env rt s = Returns (Inr (), s')"
    by (auto simp: proc_eval split: outcome.splits prod.splits sum.splits)
  then obtain n sleep where "re_Retry env n sleep (recreate_once env rt) s = Returns (Inr (), s')"
    by (auto simp: recreateContainer_def proc_eval)
  with assms(1) have "retried (recreate_once env rt) s (Inr ()) s'" unfolding retry_documented_def by blast
  then show ?thesis by (rule retried_gave) simp
qed

text \<open>With a container taken from the pool one goes back; with a cached one the pool is kept.\<close>

lemma retire_pool:
  assumes "retry_documented env" "retire_container env c rid options new err s = Returns (r, s')" "new \<Longrightarrow> c < rn_next s"
  shows "if new then gave (Runtime (Index (c_Definition (rn_conts s c)))) c s s' else pool_kept s s'"
proof -
  obtain r1 s1 where rel: "releaseContainer env c rid options s = Returns (r1, s1)"
    using assms(2) by (auto simp: retire_container_def proc_eval split: outcome.splits)
  define err1 where "err1 = (case err of Some e \<Rightarrow> Some e | None \<Rightarrow> (case r1 of Inl e \<Rightarrow> Some e | Inr _ \<Rightarrow> None))"
  define del where "del = (if err1 \<noteq> None then deleteContainer env c else return ())"
  have kept1: "pool_kept s s1" by (rule keepsD [OF pool_kept_release rel])
  have keeps_del: "keeps pool_kept del" unfolding del_def by (intro pool_kept_intros)
  have run: "retire_container env c rid options new err s = andThen del (\<lambda>_.
     if new then andThen (get_state (\<lambda>s. Runtime (Index (c_Definition (rn_conts s c))))) (\<lambda>rt. must (recreateContainer env rt))
     else return ()) s1"
    using rel by (simp add: retire_container_def proc_eval err1_def del_def Let_def)
  show ?thesis
  proof (cases new)
    case False
    have "keeps pool_kept (andThen del (\<lambda>_. return ()))" by (intro pool_kept_intros keeps_del)
    with run assms(2) False kept1 show ?thesis by (auto dest: keepsD intro: pool_kept_trans)
  next
    case True
    from assms(2) have "andThen del (\<lambda>_. andThen (get_state (\<lambda>s. Runtime (Index (c_Definition (rn_conts s c)))))
        (\<lambda>rt. must (recreateContainer env rt))) s1 = Returns (r, s')"
      unfolding run using True by simp
    then show ?thesis
    proof (cases rule: andThen_ReturnsE)
      case (failed e)
      have "never_fails del" unfolding del_def by (intro never_fails_intros)
      with failed(1) show ?thesis by (simp add: never_fails_def)
    next
      case (returned x s2)
      have kept2: "pool_kept s s2" using kept1 keepsD [OF keeps_del returned(1)] by (rule pool_kept_trans)
      with returned(2) have "gave (Runtime (Index (c_Definition (rn_conts s2 c)))) c s2 s'"
        by (auto simp: proc_eval intro: recreate_gave [OF assms(1)])
      with kept2 assms(3) True show ?thesis by (auto simp: pool_keptD(5) intro: gave_after)
    qed
  qed
qed

section \<open>A run and the work after it\<close>

lemma Release_None_pool_kept:
  assumes "Release (cont_of c) (upd_cont c) rid None s = Returns (r, s')"
  shows "pool_kept s s'"
  using assms by (auto simp: Release_def proc_eval pool_kept_def rest_kept_def)

lemma processContainerDone_pool:
  assumes retry: "retry_documented env" and c: "new \<Longrightarrow> c < rn_next s"
    and run: "processContainerDone env c rid options new err s = Returns (r, s')"
    and gone: "new \<or> \<not> errors_Is err EResourceNotFound"
  shows "if new then gave (Runtime (Index (c_Definition (rn_conts s c)))) c s s' else pool_kept s s'"
proof -
  consider (missing) "errors_Is err EResourceNotFound" | (waited) "\<not> errors_Is err EResourceNotFound" "new" "errors_Is err ESemaphoreNotAcquired"
    | (retired) "\<not> errors_Is err EResourceNotFound" "\<not> (new \<and> errors_Is err ESemaphoreNotAcquired)" by blast
  then show ?thesis
  proof cases
    case missing
    with gone have new: new by simp
    from run missing obtain x s1 where clean: "on_files (CleanupVolume (re_fs env) (c_volumeKey (rn_conts s c))) s = Returns (x, s1)"
      and rest: "(case x of Inl e \<Rightarrow> retire_container env c rid options new (Some e) | Inr _ \<Rightarrow> put_back c) s1 = Returns (r, s')"
      by (auto simp: processContainerDone_def proc_eval split: outcome.splits prod.splits sum.splits)
    have kept: "pool_kept s s1" using keepsD [OF books_files clean] by (simp add: books_def)
    then have c1: "c < rn_next s1" "c_Definition (rn_conts s1 c) = c_Definition (rn_conts s c)"
      using c [OF new] pool_keptD(3,5) [OF kept] by auto
    show ?thesis
      using rest new c1 kept retire_pool [OF retry _ c1(1)] put_back_gave
      by (cases x) (fastforce intro: gave_after [OF kept])+
  next
    case waited
    then obtain x s1 where rel: "Release (cont_of c) (upd_cont c) rid None s = Returns (x, s1)"
      and rest: "put_back c s1 = Returns (r, s')"
      using run by (auto simp: processContainerDone_def proc_eval split: outcome.splits prod.splits sum.splits)
    note kept = Release_None_pool_kept [OF rel]
    then have "c_Definition (rn_conts s1 c) = c_Definition (rn_conts s c)"
      using c [OF waited(2)] by (rule pool_keptD(5))
    with rest waited(2) show ?thesis using put_back_gave by (fastforce intro: gave_after [OF kept])
  next
    case retired
    with run have "retire_container env c rid options new err s = Returns (r, s')"
      by (auto simp: processContainerDone_def split: if_splits)
    from retire_pool [OF retry this c] show ?thesis .
  qed
qed

lemma books_free_memory:
  assumes "free_memory env s = Some x"
  shows "\<forall>r s'. x = Returns (r, s') \<longrightarrow> books s s'"
proof (rule free_memory.raw_induct [OF _ assms, where P = "\<lambda>env s x. \<forall>r s'. x = Returns (r, s') \<longrightarrow> books s s'"], intro allI impI)
  fix fm and env :: "('a, 'b, 'c) runner_env" and s x r s'
  assume IH: "\<And>env s x. fm env s = Some x \<Longrightarrow> \<forall>r s'. x = Returns (r, s') \<longrightarrow> books s s'"
    and run: "(case on_world_r (re_CheckFreeMemory env 0) s of
        Returns (Inr _, s1) \<Rightarrow> Some (Returns (Inr (), s1))
      | Returns (Inl e, s1) \<Rightarrow>
          (case sc_DeleteLRU (re_cache env) (rn_containerCache s1) of
             (ok, ev, k) \<Rightarrow>
               (case evict_containers env ev (s1\<lparr>rn_containerCache := k\<rparr>) of
                  Returns (_, s2) \<Rightarrow> if ok then fm env s2 else Some Panics
                | Panics \<Rightarrow> Some Panics
                | Blocks \<Rightarrow> Some Blocks))
      | Panics \<Rightarrow> Some Panics
      | Blocks \<Rightarrow> Some Blocks) = Some x" and x: "x = Returns (r, s')"
  obtain y s1 where mem: "on_world_r (re_CheckFreeMemory env 0) s = Returns (y, s1)"
    using on_world_r_returns by blast
  have kept: "books s s1" by (rule keepsD [OF books_world mem])
  show "books s s'"
  proof (cases y)
    case (Inr u)
    with run mem kept x show ?thesis by simp
  next
    case (Inl e)
    obtain ok ev k where lru: "sc_DeleteLRU (re_cache env) (rn_containerCache s1) = (ok, ev, k)"
      by (cases "sc_DeleteLRU (re_cache env) (rn_containerCache s1)") auto
    from run mem Inl lru x obtain z s2 where ev: "evict_containers env ev (s1\<lparr>rn_containerCache := k\<rparr>) = Returns (z, s2)"
      and rest: "fm env s2 = Some (Returns (r, s'))"
      by (auto split: outcome.splits prod.splits if_splits)
    have "books s1 s2" using keepsD [OF books_evict_all ev] by (simp add: books_def pool_kept_def rest_kept_def)
    moreover have "books s2 s'" using IH [OF rest] by blast
    ultimately show ?thesis using kept books_order(2) by (meson transpD)
  qed
qed

lemma books_free_memory_proc [keeps_intros]: "keeps books (free_memory_proc env)"
  using books_free_memory by (fastforce simp: keeps_def free_memory_proc_def split: option.splits)

lemma afterRun_pool:
  assumes retry: "retry_documented env" and c: "new \<Longrightarrow> c < rn_next s"
    and run: "afterRun env c rid options new err s = Returns (Inr (), s')"
    and gone: "new \<or> \<not> errors_Is err EResourceNotFound"
  shows "\<exists>u. (if new then gave (Runtime (Index (c_Definition (rn_conts s c)))) c s u else pool_kept s u) \<and>
    s' = u\<lparr>rn_taskWaitGroup := rn_taskWaitGroup u - 1\<rparr>"
proof -
  let ?rt = "Runtime (Index (c_Definition (rn_conts s c)))"
  let ?idle = "\<lambda>t. if \<not> IsAcceptingConnections (rn_conts t c) \<and> ConnsNum (rn_conts t c) = 0 then cleanupContainer env c else return ()"
  from run obtain x t v u where don: "processContainerDone env c rid options new err s = Returns (x, t)"
    and idle: "?idle t t = Returns (Inr (), v)" and free: "free_memory_proc env v = Returns (Inr (), u)"
    and s': "s' = u\<lparr>rn_taskWaitGroup := rn_taskWaitGroup u - 1\<rparr>"
    unfolding afterRun_def by (elim andThen_ReturnsE) (simp_all only: proc_run, auto)
  have "keeps books (?idle t)" by (intro keeps_intros)
  from keepsD [where m = "?idle t", OF this idle] have tail: "books t u"
    using keepsD [OF books_free_memory_proc free] books_order(2) by (blast dest: transpD)
  have "if new then gave ?rt c s t else pool_kept s t" by (rule processContainerDone_pool [OF retry c don gone])
  with tail have "if new then gave ?rt c s u else pool_kept s u"
    by (auto simp: books_def intro: gave_before pool_kept_trans)
  with s' show ?thesis by blast
qed

text \<open>The rest of a run keeps the pool.\<close>

lemma pool_kept_read_lim [keeps_intros]: "keeps pool_kept (read_lim f)"
  unfolding read_lim_def by (intro pool_kept_intros)

lemma pool_kept_output [keeps_intros]: "keeps pool_kept (processOutput env conn out err delim limit)"
  unfolding processOutput_def by (auto intro!: keeps_intros split: prod.split)

lemma pool_kept_session_run:
  "keeps pool_kept (\<lambda>s. case Run net key conn options (fs_world (rn_repo s)) of
     Returns (r, w) \<Rightarrow> Returns (r, s\<lparr>rn_repo := (rn_repo s)\<lparr>fs_world := w\<rparr>\<rparr>)
   | Panics \<Rightarrow> Panics | Blocks \<Rightarrow> Blocks)"
  by (auto simp: keeps_def pool_kept_def rest_kept_def split: outcome.splits)

lemma pool_kept_parsed:
  "keeps pool_kept (\<lambda>s. bind_outcome x (\<lambda>(a, b). Returns (Inr (a, f b), upd_cont c IncreaseCalls s)))"
  by (cases x) (auto simp: keeps_def pool_kept_def rest_kept_def upd_cont_def IncreaseCalls_def)

lemma pool_kept_run_on_conn: "keeps pool_kept (run_on_conn env c conn d options start)"
  unfolding run_on_conn_def Let_def
  by (auto intro!: pool_kept_intros pool_kept_read_lim pool_kept_output pool_kept_session_run pool_kept_parsed split: prod.split)

lemma pool_kept_has_source: "keeps pool_kept (has_source env key)"
  by (auto simp: keeps_def has_source_def pool_kept_def rest_kept_def split: prod.splits)

text \<open>The container a run got stays with it until the work after the run.\<close>

definition got_one :: "string \<Rightarrow> nat \<Rightarrow> bool \<Rightarrow> ('k, 'c, 'w) runner \<Rightarrow> ('k, 'c, 'w) runner \<Rightarrow> bool" where
  "got_one rt c new s s' \<longleftrightarrow> (if new then took rt c s s' else pool_kept s s')"

lemma got_one_then:
  assumes "pool_known s" "got_one rt c new s t" "pool_kept t u"
  shows "got_one rt c new s u"
proof (cases new)
  case True
  then have "took rt c s t" using assms(2) by (simp add: got_one_def)
  from took_between [OF pool_kept_refl this assms(3) took_known [OF assms(1) this]] True show ?thesis
    by (simp add: got_one_def)
next
  case False
  with assms(2,3) show ?thesis by (auto simp: got_one_def intro: pool_kept_trans)
qed

lemma processRun_result:
  assumes known: "pool_known s" and run: "processRun env rid d options s = Returns (x, s')"
  shows "\<exists>ret c new e. x = Inr (ret, c, new, e) \<and> got_one (Runtime (Index d)) c new s s'"
proof -
  let ?rt = "Runtime (Index d)" and ?start = "re_Now env (fs_world (rn_repo s))"
  obtain g t where get: "getContainer env rid d options s = Returns (g, t)"
    using run by (auto simp: processRun_def proc_eval split: outcome.splits)
  from getContainer_result [OF get known] obtain c new r where g: "g = Inr (c, new, r)" and got: "got_one ?rt c new s t"
    by (auto simp: got_one_def)
  show ?thesis
  proof (cases r)
    case (Inl e)
    with run get g got show ?thesis by (auto simp: processRun_def proc_eval)
  next
    case (Inr conn)
    with run get g have rest: "andThen (attempt (run_on_conn env c conn d options ?start)) (\<lambda>res.
         andThen (attempt (on_world_r (re_CloseConn env conn))) (\<lambda>_.
         case res of
           Inl e \<Rightarrow> return (None, c, new, Some e)
         | Inr (ret, err) \<Rightarrow> return (Some ret, c, new, err))) t = Returns (x, s')" (is "?rest t = _")
      by (simp add: processRun_def proc_eval)
    have "keeps pool_kept ?rest"
      by (auto intro!: pool_kept_intros pool_kept_run_on_conn split: sum.split prod.split)
    then have "pool_kept t s'" using rest by (rule keepsD)
    moreover have "\<exists>ret e. x = Inr (ret, c, new, e)"
      using rest by (auto simp: proc_eval split: outcome.splits prod.splits sum.splits)
    ultimately show ?thesis using got_one_then [OF known got] by blast
  qed
qed

lemma has_source_result: "\<exists>b t. has_source env key s = Returns (Inr b, t) \<and> pool_kept s t"
  by (auto simp: has_source_def pool_kept_def rest_kept_def split: prod.split)

lemma source_available_result: "\<exists>b t. source_available env d s = Returns (Inr b, t) \<and> pool_kept s t"
proof -
  obtain b t where 1: "has_source env (SourceHash (Index d)) s = Returns (Inr b, t)" "pool_kept s t"
    using has_source_result by blast
  obtain b' t' where 2: "has_source env (Environment d) t = Returns (Inr b', t')" "pool_kept t t'"
    using has_source_result by blast
  with 1 have "pool_kept s t'" by (blast intro: pool_kept_trans)
  with 1 2 show ?thesis by (simp add: source_available_def proc_eval)
qed

text \<open>
  A run is refused, and then the pool is as before; or it has a container, one more task is
  counted, and the work after it is left to be done.
\<close>

definition ran :: "nat \<Rightarrow> string \<Rightarrow> run_options \<Rightarrow> bool \<Rightarrow> go_error option \<Rightarrow> ('k, 'c, 'w) runner \<Rightarrow> ('k, 'c, 'w) runner \<Rightarrow> bool" where
  "ran c rid options new err s s' \<longleftrightarrow>
     filter is_after (rn_spawned s') = filter is_after (rn_spawned s) @ [AfterRun c rid options new err] \<and>
     rn_taskWaitGroup s' = rn_taskWaitGroup s + 1 \<and>
     (\<exists>rt. got_one rt c new s (s'\<lparr>rn_taskWaitGroup := rn_taskWaitGroup s, rn_spawned := rn_spawned s\<rparr>))"

lemma run_accepted_result:
  assumes known: "pool_known s" and run: "run_accepted env rid d options start s = Returns (r, s')"
  shows "\<exists>ret c new err. r = Inr (ret, err) \<and> ran c rid options new err s s'"
proof -
  let ?s = "s\<lparr>rn_taskWaitGroup := rn_taskWaitGroup s + 1\<rparr>"
  obtain x t where pr: "processRun env rid d options ?s = Returns (x, t)"
    using run by (auto simp: run_accepted_def proc_eval split: outcome.splits)
  have "pool_known ?s" using known by (simp add: pool_known_def)
  from processRun_result [OF this pr] obtain ret c new e where x: "x = Inr (ret, c, new, e)"
    and got: "got_one (Runtime (Index d)) c new ?s t" by blast
  then have wg: "rn_taskWaitGroup t = rn_taskWaitGroup s + 1" "filter is_after (rn_spawned t) = filter is_after (rn_spawned s)"
    by (auto simp: got_one_def took_def pool_kept_def rest_kept_def split: if_splits)
  from got have "got_one (Runtime (Index d)) c new s (t\<lparr>rn_taskWaitGroup := rn_taskWaitGroup s, rn_spawned := rn_spawned s\<rparr>)"
    by (auto simp: got_one_def took_def pool_kept_def rest_kept_def split: if_splits)
  moreover have "s' = t\<lparr>rn_spawned := rn_spawned t @ [AfterRun c rid options new e]\<rparr>" "\<exists>ret'. r = Inr (ret', e)"
    using run pr x by (auto simp: run_accepted_def proc_eval spawn_def)
  ultimately show ?thesis using wg by (auto simp: ran_def)
qed

lemma ran_after:
  assumes known: "pool_known s" and kept: "pool_kept s t" and ran: "ran c rid options new err t s'"
  shows "ran c rid options new err s s'"
proof -
  let ?u = "\<lambda>v. s'\<lparr>rn_taskWaitGroup := rn_taskWaitGroup v, rn_spawned := rn_spawned v\<rparr>"
  from ran obtain rt where got: "got_one rt c new t (?u t)" by (auto simp: ran_def)
  have same: "rn_taskWaitGroup t = rn_taskWaitGroup s" "filter is_after (rn_spawned t) = filter is_after (rn_spawned s)"
    using kept by (auto simp: pool_kept_def rest_kept_def)
  then have "pool_kept (?u t) (?u s)" by (simp add: pool_kept_def rest_kept_def)
  then have "got_one rt c new t (?u s)" by (rule got_one_then [OF pool_known_kept [OF known kept] got])
  then have "got_one rt c new s (?u s)"
    using kept pool_known_kept [OF known kept]
    by (auto simp: got_one_def intro: took_between pool_kept_trans took_known split: if_splits)
  with ran same show ?thesis by (auto simp: ran_def)
qed

lemma runner_Run_result:
  assumes known: "pool_known s" and run: "runner_Run env rid def opts s = Returns (r, s')"
  shows "\<exists>ret err. r = Inr (ret, err) \<and> (pool_kept s s' \<and> ret = None \<or> (\<exists>c options new. ran c rid options new err s s'))"
proof (cases "\<exists>d0 o0. def = Some d0 \<and> opts = Some o0 \<and> map_of SupportedRuntimes (Runtime (Index d0)) \<noteq> None \<and> IsRunning s")
  case False
  with run show ?thesis
    by (auto simp: runner_Run_def proc_eval split: option.splits if_splits prod.splits)
next
  case True
  then obtain d0 o0 where args: "def = Some d0" "opts = Some o0" "map_of SupportedRuntimes (Runtime (Index d0)) \<noteq> None" "IsRunning s"
    by blast
  obtain d options where defaults: "run_defaults env (ro_Constraints (rn_options s)) d0 o0 = (d, options)" by force
  obtain ok t where src: "source_available env d s = Returns (Inr ok, t)" "pool_kept s t"
    using source_available_result by blast
  show ?thesis
  proof (cases ok)
    case False
    with run args src defaults show ?thesis by (auto simp: runner_Run_def proc_eval)
  next
    case True
    with run args src defaults obtain start where "run_accepted env rid d options start t = Returns (r, s')"
      by (auto simp: runner_Run_def proc_eval)
    from run_accepted_result [OF pool_known_kept [OF known src(2)] this]
    obtain ret c new err where "r = Inr (ret, err)" and ran: "ran c rid options new err t s'" by blast
    moreover have "ran c rid options new err s s'"
      by (rule ran_after [OF known src(2) ran])
    ultimately show ?thesis by blast
  qed
qed

section \<open>The balance of the pool\<close>

text \<open>
  \<open>balanced N P s\<close>: for each runtime the containers in the queue and those that \<open>P\<close> lists as
  taken are \<open>N\<close> together, and no container is in two of these places.
\<close>

abbreviation runtime_of :: "('k, 'c, 'w) runner \<Rightarrow> nat \<Rightarrow> string" where
  "runtime_of s c \<equiv> Runtime (Index (c_Definition (rn_conts s c)))"

definition balanced :: "nat \<Rightarrow> nat list \<Rightarrow> ('k, 'c, 'w) runner \<Rightarrow> bool" where
  "balanced N P s \<longleftrightarrow> distinct P \<and> set P \<subseteq> {..<rn_next s} \<and>
     (\<forall>rt q. map_of (rn_containerPool s) rt = Some q \<longrightarrow>
        distinct q \<and> set q \<subseteq> {..<rn_next s} \<and> set q \<inter> set P = {} \<and>
        length q + length (filter (\<lambda>c. runtime_of s c = rt) P) = N) \<and>
     (\<forall>rt rt' q q'. map_of (rn_containerPool s) rt = Some q \<longrightarrow> map_of (rn_containerPool s) rt' = Some q' \<longrightarrow>
        rt \<noteq> rt' \<longrightarrow> set q \<inter> set q' = {})"

lemma balancedD:
  assumes "balanced N P s"
  shows "distinct P" "set P \<subseteq> {..<rn_next s}"
    "map_of (rn_containerPool s) rt = Some q \<Longrightarrow> distinct q \<and> set q \<subseteq> {..<rn_next s} \<and> set q \<inter> set P = {}"
    "map_of (rn_containerPool s) rt = Some q \<Longrightarrow> length q + length (filter (\<lambda>c. runtime_of s c = rt) P) = N"
    "map_of (rn_containerPool s) rt = Some q \<Longrightarrow> map_of (rn_containerPool s) rt' = Some q' \<Longrightarrow> rt \<noteq> rt' \<Longrightarrow>
       set q \<inter> set q' = {}"
  using assms by (auto simp: balanced_def)

lemma balanced_known: "balanced N P s \<Longrightarrow> pool_known s"
  using balancedD(3) by (fastforce simp: pool_known_def)

lemma same_runtimes:
  assumes "rest_kept D s s'" "set P \<subseteq> {..<rn_next s}" "set P \<inter> D = {}"
  shows "filter (\<lambda>c. runtime_of s' c = rt) P = filter (\<lambda>c. runtime_of s c = rt) P"
  using assms by (intro filter_cong) (auto simp: rest_kept_def)

lemma balanced_kept:
  assumes "balanced N P s" "pool_kept s s'"
  shows "balanced N P s'"
proof -
  have rest: "rest_kept {} s s'" "rn_containerPool s' = rn_containerPool s" "rn_next s \<le> rn_next s'"
    using assms(2) by (auto simp: pool_kept_def rest_kept_def)
  have P: "filter (\<lambda>c. runtime_of s' c = rt) P = filter (\<lambda>c. runtime_of s c = rt) P" for rt
    using balancedD(2) [OF assms(1)] by (intro same_runtimes [OF rest(1)]) auto
  from rest(3) have next': "A \<subseteq> {..<rn_next s} \<Longrightarrow> A \<subseteq> {..<rn_next s'}" for A by fastforce
  show ?thesis
    unfolding balanced_def rest(2) P
  proof (intro conjI allI impI)
    show "distinct P" "set P \<subseteq> {..<rn_next s'}" using balancedD(1,2) [OF assms(1)] next' by auto
  next
    fix rt q
    assume q: "map_of (rn_containerPool s) rt = Some q"
    from balancedD(3,4) [OF assms(1) q] next' show "distinct q" "set q \<subseteq> {..<rn_next s'}" "set q \<inter> set P = {}"
      "length q + length (filter (\<lambda>c. runtime_of s c = rt) P) = N" by blast+
  qed (use balancedD(5) [OF assms(1)] in blast)
qed

lemma balanced_took:
  assumes bal: "balanced N P s" and took: "took rt c s s'"
  shows "balanced N (P @ [c]) s'"
proof -
  from took obtain q where q: "map_of (rn_containerPool s) rt = Some (c # q)"
    and pool: "map_of (rn_containerPool s') = (map_of (rn_containerPool s))(rt \<mapsto> q)"
    and rt: "runtime_of s' c = rt" and rest: "rest_kept {c} s s'" by (auto simp: took_def)
  note facts = balancedD(3,4) [OF bal q]
  then have c: "c \<notin> set P" "c \<notin> set q" "c < rn_next s" by auto
  have next': "{..<rn_next s} \<subseteq> {..<rn_next s'}" using rest by (auto simp: rest_kept_def)
  have P: "filter (\<lambda>c. runtime_of s' c = rt') P = filter (\<lambda>c. runtime_of s c = rt') P" for rt'
    using c by (intro same_runtimes [OF rest balancedD(2) [OF bal]]) auto
  have other: "c \<notin> set q'" if "map_of (rn_containerPool s) rt' = Some q'" "rt' \<noteq> rt" for rt' q'
    using balancedD(5) [OF bal q that(1)] that(2) by auto
  show ?thesis
    unfolding balanced_def
  proof (intro conjI allI impI)
    show "distinct (P @ [c])" using c balancedD(1) [OF bal] by simp
    show "set (P @ [c]) \<subseteq> {..<rn_next s'}" using c balancedD(2) [OF bal] next' by auto
  next
    fix rt' q'
    assume q': "map_of (rn_containerPool s') rt' = Some q'"
    show "distinct q'" "set q' \<subseteq> {..<rn_next s'}" "set q' \<inter> set (P @ [c]) = {}"
      "length q' + length (filter (\<lambda>c. runtime_of s' c = rt') (P @ [c])) = N"
      using q' pool facts c next' P rt balancedD(3,4) [OF bal, of rt' q'] other by (auto split: if_splits)
  next
    fix rt1 rt2 q1 q2
    assume "map_of (rn_containerPool s') rt1 = Some q1" "map_of (rn_containerPool s') rt2 = Some q2" "rt1 \<noteq> rt2"
    then show "set q1 \<inter> set q2 = {}"
      using pool q balancedD(5) [OF bal q, of rt1 q1] balancedD(5) [OF bal q, of rt2 q2] balancedD(5) [OF bal, of rt1 q1 rt2 q2]
      by (auto split: if_splits)
  qed
qed

lemma balanced_gave:
  assumes bal: "balanced N (P @ c # P') s" and gave: "gave (runtime_of s c) c s s'"
  shows "balanced N (P @ P') s'"
proof -
  let ?rt = "runtime_of s c"
  from gave obtain q c' where q: "map_of (rn_containerPool s) ?rt = Some q"
    and pool: "map_of (rn_containerPool s') = (map_of (rn_containerPool s))(?rt \<mapsto> q @ [c'])"
    and c': "c' = c \<or> rn_next s \<le> c' \<and> c' < rn_next s'" and rest: "rest_kept {} s s'" by (auto simp: gave_def)
  have next': "rn_next s \<le> rn_next s'" using rest by (simp add: rest_kept_def)
  have P: "filter (\<lambda>c. runtime_of s' c = rt) (P @ P') = filter (\<lambda>c. runtime_of s c = rt) (P @ P')" for rt
    using balancedD(2) [OF bal] by (intro same_runtimes [OF rest]) auto
  have known: "d < rn_next s" "c \<noteq> d" if "map_of (rn_containerPool s) rt = Some qs" "d \<in> set qs" for rt qs d
    using balancedD(3) [OF bal that(1)] that(2) by auto
  have c'_new: "c' \<notin> set qs" if "map_of (rn_containerPool s) rt = Some qs" for rt qs
    using c' known [OF that, of c'] by auto
  have c'_P: "c' \<notin> set (P @ P')" using c' balancedD(1,2) [OF bal] by auto
  have c'_next: "c' < rn_next s'" using c' balancedD(2) [OF bal] next' by auto
  show ?thesis
    unfolding balanced_def
  proof (intro conjI allI impI)
    show "distinct (P @ P')" using balancedD(1) [OF bal] by simp
    show "set (P @ P') \<subseteq> {..<rn_next s'}" using balancedD(2) [OF bal] next' by auto
  next
    fix rt q'
    assume q': "map_of (rn_containerPool s') rt = Some q'"
    show "distinct q'" "set q' \<subseteq> {..<rn_next s'}" "set q' \<inter> set (P @ P') = {}"
      using q' pool balancedD(3) [OF bal q] balancedD(3) [OF bal, of rt q'] c'_new c'_P c'_next next' q
      by (auto split: if_splits)
    show "length q' + length (filter (\<lambda>c. runtime_of s' c = rt) (P @ P')) = N"
      unfolding P using q' pool balancedD(4) [OF bal q] balancedD(4) [OF bal, of rt q'] by (auto split: if_splits)
  next
    fix rt1 rt2 q1 q2
    assume "map_of (rn_containerPool s') rt1 = Some q1" "map_of (rn_containerPool s') rt2 = Some q2" "rt1 \<noteq> rt2"
    then show "set q1 \<inter> set q2 = {}"
      using pool q c'_new balancedD(5) [OF bal q, of rt1 q1] balancedD(5) [OF bal q, of rt2 q2] balancedD(5) [OF bal, of rt1 q1 rt2 q2]
      by (auto split: if_splits)
  qed
qed

section \<open>Every interleaving\<close>

text \<open>
  What goes on while the pool runs: a run up to its answer, the work after a run (which starts
  whenever it likes), the other goroutines of a container, and the removal of containers. A
  missing source is reported for new containers only, since only those are linked.
\<close>

inductive pool_step ::
  "('k, 'c, 'w) runner_env \<Rightarrow> ('k, 'c, 'w) runner \<Rightarrow> ('k, 'c, 'w) runner \<Rightarrow> bool" for env where
  run: "runner_Run env rid def opts s = Returns (r, s') \<Longrightarrow> pool_step env s s'"
| after: "rn_spawned s = gs @ AfterRun c rid options new err # gs' \<Longrightarrow> new \<or> \<not> errors_Is err EResourceNotFound \<Longrightarrow>
    afterRun env c rid options new err (s\<lparr>rn_spawned := gs @ gs'\<rparr>) = Returns (Inr (), s') \<Longrightarrow> pool_step env s s'"
| removed: "DeleteContainersByID env i cid s = Returns (r, s') \<Longrightarrow> pool_step env s s'"
| stream: "stream_failed env c s = Returns (r, s') \<Longrightarrow> pool_step env s s'"
| ended: "rn_spawned s = gs @ g # gs' \<Longrightarrow> \<not> is_after g \<Longrightarrow> pool_step env s (s\<lparr>rn_spawned := gs @ gs'\<rparr>)"

text \<open>The work that waits, and the containers of the pool it holds.\<close>

definition tasks :: "('k, 'c, 'w) runner \<Rightarrow> goroutine list" where
  "tasks s = filter is_after (rn_spawned s)"

fun taken_by :: "goroutine \<Rightarrow> nat list" where
  "taken_by (AfterRun c rid options new err) = (if new then [c] else [])"
| "taken_by _ = []"

definition taken :: "('k, 'c, 'w) runner \<Rightarrow> nat list" where
  "taken s = concat (map taken_by (tasks s))"

definition pool_ok :: "nat \<Rightarrow> ('k, 'c, 'w) runner \<Rightarrow> bool" where
  "pool_ok N s \<longleftrightarrow> balanced N (taken s) s \<and> rn_taskWaitGroup s = int (length (tasks s))"

lemma pool_ok_kept:
  assumes "pool_ok N s" "pool_kept s s'"
  shows "pool_ok N s'"
proof -
  have "tasks s' = tasks s" "rn_taskWaitGroup s' = rn_taskWaitGroup s"
    using assms(2) by (simp_all add: tasks_def pool_kept_def rest_kept_def)
  with assms(1) balanced_kept [OF _ assms(2)] show ?thesis by (simp add: pool_ok_def taken_def)
qed

lemma pool_ok_ran:
  assumes ok: "pool_ok N s" and ran: "ran c rid options new err s s'"
  shows "pool_ok N s'"
proof -
  let ?u = "s'\<lparr>rn_taskWaitGroup := rn_taskWaitGroup s, rn_spawned := rn_spawned s\<rparr>"
  from ran obtain rt where got: "got_one rt c new s ?u" by (auto simp: ran_def)
  have bal: "balanced N (taken s) s" using ok by (simp add: pool_ok_def)
  have tasks: "tasks s' = tasks s @ [AfterRun c rid options new err]" "rn_taskWaitGroup s' = rn_taskWaitGroup s + 1"
    using ran by (simp_all add: ran_def tasks_def)
  have "balanced N (taken s') ?u"
  proof (cases new)
    case True
    with got have "took rt c s ?u" by (simp add: got_one_def)
    from balanced_took [OF bal this] True show ?thesis by (simp add: taken_def tasks)
  next
    case False
    with got have "pool_kept s ?u" by (simp add: got_one_def)
    from balanced_kept [OF bal this] False show ?thesis by (simp add: taken_def tasks)
  qed
  then have "balanced N (taken s') s'" by (simp add: balanced_def)
  with ok tasks show ?thesis by (simp add: pool_ok_def)
qed

lemma pool_ok_after:
  assumes retry: "retry_documented env" and ok: "pool_ok N s" and spawned: "rn_spawned s = gs @ AfterRun c rid options new err # gs'"
    and run: "afterRun env c rid options new err (s\<lparr>rn_spawned := gs @ gs'\<rparr>) = Returns (Inr (), s')"
    and gone: "new \<or> \<not> errors_Is err EResourceNotFound"
  shows "pool_ok N s'"
proof -
  let ?s = "s\<lparr>rn_spawned := gs @ gs'\<rparr>"
  have taken: "taken s = taken (s\<lparr>rn_spawned := gs\<rparr>) @ (if new then [c] else []) @ taken (s\<lparr>rn_spawned := gs'\<rparr>)"
    "taken ?s = taken (s\<lparr>rn_spawned := gs\<rparr>) @ taken (s\<lparr>rn_spawned := gs'\<rparr>)"
    by (simp_all add: taken_def tasks_def spawned)
  have bal: "balanced N (taken s) ?s" using ok by (simp add: pool_ok_def balanced_def)
  then have c: "new \<Longrightarrow> c < rn_next ?s" using balancedD(2) [OF bal] by (simp add: taken(1))
  from afterRun_pool [OF retry c run gone] obtain u where
    u: "if new then gave (runtime_of ?s c) c ?s u else pool_kept ?s u" "s' = u\<lparr>rn_taskWaitGroup := rn_taskWaitGroup u - 1\<rparr>" by blast
  then have same: "tasks u = tasks ?s" "rn_taskWaitGroup u = rn_taskWaitGroup s"
    by (auto simp: gave_def tasks_def pool_kept_def rest_kept_def split: if_splits)
  have "balanced N (taken ?s) u"
  proof (cases new)
    case True
    with bal taken have bal': "balanced N (taken (s\<lparr>rn_spawned := gs\<rparr>) @ c # taken (s\<lparr>rn_spawned := gs'\<rparr>)) ?s" by simp
    from True u(1) have "gave (runtime_of ?s c) c ?s u" by simp
    from balanced_gave [OF bal' this] show ?thesis by (simp add: taken(2))
  next
    case False
    with bal taken have bal': "balanced N (taken ?s) ?s" by simp
    from False u(1) have "pool_kept ?s u" by simp
    from balanced_kept [OF bal' this] show ?thesis .
  qed
  then have "balanced N (taken s') s'" using same u(2) by (simp add: taken_def tasks_def balanced_def)
  moreover have "length (tasks s) = Suc (length (tasks ?s))" by (simp add: tasks_def spawned)
  ultimately show ?thesis using ok same u(2) by (simp add: pool_ok_def tasks_def)
qed

lemma pool_ok_step:
  assumes "pool_step env s s'" "retry_documented env" "pool_ok N s"
  shows "pool_ok N s'"
  using assms(1)
proof cases
  case (run rid def opts r)
  have known: "pool_known s" using assms(3) balanced_known by (auto simp: pool_ok_def)
  from runner_Run_result [OF known run] pool_ok_kept [OF assms(3)] pool_ok_ran [OF assms(3)] show ?thesis by blast
next
  case (after gs c rid options new err gs')
  then show ?thesis using pool_ok_after [OF assms(2,3)] by blast
next
  case (removed i cid r)
  then have "books s s'" by (rule keepsD [OF books_DeleteContainersByID])
  with pool_ok_kept [OF assms(3)] show ?thesis by (simp add: books_def)
next
  case (stream c r)
  have "keeps pool_kept (stream_failed env c)" unfolding stream_failed_def by (intro pool_kept_intros)
  then have "pool_kept s s'" using stream by (rule keepsD)
  with pool_ok_kept [OF assms(3)] show ?thesis .
next
  case (ended gs g gs')
  then have "pool_kept s s'" by (simp add: pool_kept_def rest_kept_def)
  with pool_ok_kept [OF assms(3)] show ?thesis .
qed

lemma pool_ok_reachable:
  assumes "(pool_step env)\<^sup>*\<^sup>* s s'" "retry_documented env" "pool_ok N s"
  shows "pool_ok N s'"
  using assms by (induction rule: rtranclp_induct) (auto intro: pool_ok_step)

end
