(* ===== verification/Runner_Life.thy ===== *)
theory Runner_Life
  imports Runner_Pool
begin

text \<open>
  The life of the runner: the limits it is made with, the pool from its creation to its end,
  what a run refuses and in which order, the loop that frees memory, and the removal of a
  script's containers.
\<close>

section \<open>Filling the pool\<close>

lemma createFreshContainer_kept: "createFreshContainer env rt s = Returns (r, s') \<Longrightarrow> pool_kept s s'"
  by (drule keepsD [OF books_create]) (simp add: books_def)

text \<open>Once one container could not be made, the pool is refused.\<close>

lemma fill_pool_error: "fill_pool env rt n (Some e) s \<noteq> Returns (Inr (), s')"
proof
  assume "fill_pool env rt n (Some e) s = Returns (Inr (), s')"
  then show False
  proof (induction n arbitrary: s)
    case (Suc n)
    then show ?case
      by (auto elim!: andThen_ReturnsE split: option.splits prod.splits)
  qed (simp add: proc_run)
qed

lemma fill_pool_result:
  assumes "fill_pool env rt n None s = Returns (Inr (), s')" "map_of (rn_containerPool s) rt = Some q"
  shows "\<exists>cs. length cs = n \<and> distinct cs \<and> set cs \<subseteq> {rn_next s..<rn_next s'} \<and> rest_kept {} s s' \<and>
    map_of (rn_containerPool s') = (map_of (rn_containerPool s))(rt \<mapsto> q @ cs)"
  using assms
proof (induction n arbitrary: s q)
  case 0
  then show ?case by (auto simp: proc_run rest_kept_def)
next
  case (Suc n)
  from Suc.prems(1) obtain x t where new: "createFreshContainer env rt s = Returns (x, t)"
    by (auto simp: proc_eval split: outcome.splits)
  obtain err where x: "x = Inr (rn_next s, err)" and fresh: "rn_next s < rn_next t"
    using createFreshContainer_fresh [OF new] by blast
  have kept: "pool_kept s t" by (rule createFreshContainer_kept [OF new])
  have err: "err = None"
    using Suc.prems(1) new x fill_pool_error [of env rt n _ t s'] by (cases err) (auto simp: proc_eval)
  then have rest: "andThen (pool_put rt (rn_next s)) (\<lambda>_. fill_pool env rt n None) t = Returns (Inr (), s')"
    using Suc.prems(1) new x by (simp add: proc_eval)
  have qt: "map_of (rn_containerPool t) rt = Some q" using kept Suc.prems(2) by (simp add: pool_kept_def)
  let ?u = "t\<lparr>rn_containerPool := AList.update rt (q @ [rn_next s]) (rn_containerPool t)\<rparr>"
  have fill: "fill_pool env rt n None ?u = Returns (Inr (), s')"
    using rest qt by (auto simp: pool_put_def proc_eval split: if_splits)
  have "map_of (rn_containerPool ?u) rt = Some (q @ [rn_next s])" by simp
  from Suc.IH [OF fill this] obtain cs where cs: "length cs = n" "distinct cs"
    "set cs \<subseteq> {rn_next ?u..<rn_next s'}" "rest_kept {} ?u s'"
    "map_of (rn_containerPool s') = (map_of (rn_containerPool ?u))(rt \<mapsto> (q @ [rn_next s]) @ cs)" by blast
  have u: "rest_kept {} s ?u" using kept by (simp add: pool_kept_def rest_kept_def)
  have "rest_kept {} s s'" by (rule rest_kept_trans [OF u cs(4)])
  moreover have "distinct (rn_next s # cs)" "set (rn_next s # cs) \<subseteq> {rn_next s..<rn_next s'}"
    using cs(2-4) fresh by (auto simp: rest_kept_def)
  moreover have "map_of (rn_containerPool s') = (map_of (rn_containerPool s))(rt \<mapsto> q @ rn_next s # cs)"
    using cs(5) kept by (simp add: pool_kept_def)
  ultimately show ?case using cs(1) by (intro exI [of _ "rn_next s # cs"]) simp
qed

lemma balanced_filled:
  assumes bal: "balanced N [] s" and rest: "rest_kept {} s s'"
    and cs: "length cs = N" "distinct cs" "set cs \<subseteq> {rn_next s..<rn_next s'}"
    and pool: "map_of (rn_containerPool s') = (map_of (rn_containerPool s))(rt \<mapsto> cs)"
  shows "balanced N [] s'"
proof -
  have old: "set q \<subseteq> {..<rn_next s}" if "map_of (rn_containerPool s) rt' = Some q" for rt' q
    using balancedD(3) [OF bal that] by simp
  have next': "rn_next s \<le> rn_next s'" using rest by (simp add: rest_kept_def)
  show ?thesis
    unfolding balanced_def
  proof (intro conjI allI impI)
    fix rt' q
    assume q: "map_of (rn_containerPool s') rt' = Some q"
    with pool cs next' balancedD(3,4) [OF bal, of rt' q]
    show "distinct q" "set q \<subseteq> {..<rn_next s'}" "set q \<inter> set [] = {}"
      "length q + length (filter (\<lambda>c. runtime_of s' c = rt') []) = N"
      by (auto split: if_splits)
  next
    fix rt1 rt2 q1 q2
    assume "map_of (rn_containerPool s') rt1 = Some q1" "map_of (rn_containerPool s') rt2 = Some q2" "rt1 \<noteq> rt2"
    moreover have "set cs \<inter> set q = {}" if "map_of (rn_containerPool s) rt' = Some q" for rt' q
      using old [OF that] cs(3) by fastforce
    ultimately show "set q1 \<inter> set q2 = {}"
      using pool balancedD(5) [OF bal, of rt1 q1 rt2 q2] by (auto split: if_splits)
  qed simp_all
qed

lemma create_pools_result:
  assumes "create_pools env rs s = Returns (Inr (), s')" "balanced (unat (ro_Concurrency (rn_options s))) [] s"
  shows "balanced (unat (ro_Concurrency (rn_options s))) [] s' \<and> rest_kept {} s s' \<and>
    dom (map_of (rn_containerPool s')) = dom (map_of (rn_containerPool s)) \<union> fst ` set rs"
  using assms
proof (induction rs arbitrary: s)
  case Nil
  then show ?case by (auto simp: proc_run rest_kept_def)
next
  case (Cons r rs)
  obtain rt ri where r: "r = (rt, ri)" by force
  from Cons.prems(1) obtain t x where store: "on_files (PermStore (re_files env) (re_fs env) rt
      (Inr (re_Asset env (AssetName ri))) (FileName ri) 0) s = Returns (Inr x, t)"
    and rest: "andThen (fill_pool env rt (unat (ro_Concurrency (rn_options t))) None) (\<lambda>_. create_pools env rs)
      (t\<lparr>rn_containerPool := AList.update rt [] (rn_containerPool t)\<rparr>) = Returns (Inr (), s')"
    by (auto simp: r proc_eval split: outcome.splits prod.splits sum.splits)
  have kept: "pool_kept s t" using keepsD [OF books_files store] by (simp add: books_def)
  let ?t = "t\<lparr>rn_containerPool := AList.update rt [] (rn_containerPool t)\<rparr>" and ?N = "unat (ro_Concurrency (rn_options s))"
  have N: "ro_Concurrency (rn_options t) = ro_Concurrency (rn_options s)" using kept by (simp add: pool_kept_def rest_kept_def)
  from rest obtain u where fill: "fill_pool env rt ?N None ?t = Returns (Inr (), u)"
    and more_pools: "create_pools env rs u = Returns (Inr (), s')"
    by (auto simp: N elim!: andThen_ReturnsE)
  obtain cs where cs: "length cs = ?N" "distinct cs" "set cs \<subseteq> {rn_next ?t..<rn_next u}" "rest_kept {} ?t u"
    "map_of (rn_containerPool u) = (map_of (rn_containerPool ?t))(rt \<mapsto> [] @ cs)"
    using fill_pool_result [OF fill, of "[]"] by auto
  have t: "balanced ?N [] t" by (rule balanced_kept [OF Cons.prems(2) kept])
  have "rest_kept {} t u" "map_of (rn_containerPool u) = (map_of (rn_containerPool t))(rt \<mapsto> cs)"
    "set cs \<subseteq> {rn_next t..<rn_next u}"
    using cs by (auto simp: rest_kept_def)
  from balanced_filled [OF t this(1) cs(1,2) this(3,2)] have bal: "balanced ?N [] u" .
  have rest_u: "rest_kept {} s u"
    using kept cs(4) by (auto simp: pool_kept_def intro!: rest_kept_trans [of _ s t]) (simp add: rest_kept_def)
  then have "ro_Concurrency (rn_options u) = ro_Concurrency (rn_options s)" by (simp add: rest_kept_def)
  with Cons.IH [OF more_pools] bal have "balanced ?N [] s'" "rest_kept {} u s'"
    "dom (map_of (rn_containerPool s')) = dom (map_of (rn_containerPool u)) \<union> fst ` set rs" by auto
  then show ?case using cs(5) kept rest_kept_trans [OF rest_u] by (auto simp: r pool_kept_def)
qed

lemma reserve_memory_result:
  "reserve_memory env n s = Returns (r, s') \<Longrightarrow> books s s'"
proof -
  have "keeps books (reserve_memory env n)" by (induction n) (auto intro!: keeps_intros)
  then show "reserve_memory env n s = Returns (r, s') \<Longrightarrow> books s s'" by (rule keepsD)
qed

text \<open>
  A pool that has been created runs, and has as many containers for each runtime as runs may
  go on at a time.
\<close>

lemma CreatePool_result:
  assumes run: "CreatePool env s = Returns (Inr key, s')"
    and new: "rn_spawned s = []" "rn_taskWaitGroup s = 0"
  shows "IsRunning s' \<and> rn_poolID s' = key \<and> rn_size s' = sint (ro_Concurrency (rn_options s)) \<and>
    pool_ok (unat (ro_Concurrency (rn_options s))) s' \<and> tasks s' = [] \<and>
    dom (map_of (rn_containerPool s')) = fst ` set SupportedRuntimes"
proof -
  let ?o = "\<lambda>s. rn_options s"
  obtain k w m f x s1 s2 s3 s4 s5 s6 u where 1: "on_files (GenerateKey (re_fs env)) s = Returns (Inr k, s1)"
    and 2: "on_world_r w (s1\<lparr>rn_poolID := k\<rparr>) = Returns (Inr (), s2)"
    and 3: "on_world_r (re_ReserveMemory env m) s2 = Returns (Inr (), s3)"
    and 4: "reserve_memory env (unat (ro_Concurrency (?o s2))) (s3\<lparr>rn_size := sint (ro_Concurrency (?o s2)), rn_held := 0\<rparr>) = Returns (Inr (), s4)"
    and 5: "must (on_world_r (re_OpenWrapper env))
        (s4\<lparr>rn_workerCPU := ro_MCPU (?o s2) - ReservedMCPU (Manager_Options (re_mgr env)), rn_containerPool := []\<rparr>) = Returns (Inr f, s5)"
    and 6: "on_files (PermStore (re_files env) (re_fs env) ''codewrapper'' f ''codewrapper'' 511) s5 = Returns (Inr x, s6)"
    and 7: "create_pools env SupportedRuntimes s6 = Returns (Inr (), u)"
    and 8: "s' = u\<lparr>rn_running := True\<rparr>" "key = rn_poolID u"
    using run unfolding CreatePool_def
    by (auto elim!: andThen_ReturnsE simp: proc_run setRunning_def split: if_splits)
  have must_books: "keeps books (must (on_world_r m))" for m :: "('c, 'd result) eff" by (intro keeps_intros)
  have b: "books s s1" "books (s1\<lparr>rn_poolID := k\<rparr>) s2" "books s2 s3"
    "books (s3\<lparr>rn_size := sint (ro_Concurrency (?o s2)), rn_held := 0\<rparr>) s4"
    "books (s4\<lparr>rn_workerCPU := ro_MCPU (?o s2) - ReservedMCPU (Manager_Options (re_mgr env)), rn_containerPool := []\<rparr>) s5"
    "books s5 s6"
    using keepsD [OF books_files 1] keepsD [OF books_world 2] keepsD [OF books_world 3] reserve_memory_result [OF 4]
      keepsD [OF must_books 5] keepsD [OF books_files 6] by auto
  then have s6: "rn_containerPool s6 = []" "?o s6 = ?o s" "rn_taskWaitGroup s6 = 0" "tasks s6 = []"
    "rn_size s6 = sint (ro_Concurrency (?o s))"
    using new by (auto simp: books_def pool_kept_def rest_kept_def tasks_def)
  have "balanced (unat (ro_Concurrency (?o s6))) [] s6" by (simp add: balanced_def s6(1))
  from create_pools_result [OF 7 this] s6 have u: "balanced (unat (ro_Concurrency (?o s))) [] u" "rest_kept {} s6 u"
    "dom (map_of (rn_containerPool u)) = fst ` set SupportedRuntimes" by auto
  then have "tasks s' = []" "rn_taskWaitGroup s' = 0" "rn_size s' = sint (ro_Concurrency (?o s))"
    "balanced (unat (ro_Concurrency (?o s))) [] s'"
    using s6 8 by (auto simp: rest_kept_def tasks_def balanced_def)
  with u(3) 8 show ?thesis by (simp add: IsRunning_def pool_ok_def taken_def)
qed

section \<open>A pool that can be created\<close>

text \<open>There is room on the disk of this environment, and one container per runtime.\<close>

definition pool_env :: "((string \<times> nat) list, (string \<times> string) list, string list) runner_env" where
  "pool_env = toy_renv\<lparr>re_fs := toy_fs\<lparr>fs_DiskUsage := \<lambda>p w. 10\<rparr>\<rparr>"

definition pool_start :: "((string \<times> nat) list, (string \<times> string) list, string list) runner" where
  "pool_start = toy_runner\<lparr>rn_running := False, rn_taskWaitGroup := 0, rn_next := 0,
     rn_options := DefaultRunnerOptions\<lparr>ro_Concurrency := 1\<rparr>\<rparr>"

lemma fs_world_same [simp]: "r\<lparr>fs_world := fs_world r\<rparr> = r"
  by (cases r) simp

lemma pool_env_store:
  assumes "repo_options r = DefaultRepoOptions"
  shows "\<exists>p. p \<noteq> [] \<and> PermStore (re_files pool_env) (re_fs pool_env) key (Inr b) fn mode r =
    Returns (Inr p, r\<lparr>permStore := AList.update key p (permStore r)\<rparr>)"
proof -
  have "make_room (re_files pool_env) (re_fs pool_env) r = Some (Returns (Inr (), r))"
    by (subst make_room.simps) (simp add: pool_env_def assms DefaultRepoOptions_def)
  then show ?thesis
    by (simp add: PermStore_def storeFile_def make_room_proc_def proc_eval on_fs_def lift_eff_def pool_env_def toy_fs_def
        path_join_neq [of "''files''"] Let_def)
qed

definition stocked :: "('c, 'w) fs_repo \<Rightarrow> string \<Rightarrow> bool" where
  "stocked r rt \<longleftrightarrow> getPermStore ''codewrapper'' r \<noteq> [] \<and> getPermStore rt r \<noteq> [] \<and> repo_options r = DefaultRepoOptions"

lemma pool_env_create:
  assumes "stocked (rn_repo s) rt" "map_of SupportedRuntimes rt = Some ri"
  shows "\<exists>s'. createFreshContainer pool_env rt s = Returns (Inr (rn_next s, None), s') \<and>
    permStore (rn_repo s') = permStore (rn_repo s) \<and> repo_options (rn_repo s') = repo_options (rn_repo s)"
  using assms
  by (simp add: createFreshContainer_def new_container_def create_steps_def createWrapperVolume_def
      CreateVolume_def GenerateKey_def Link_def repo_get_def Get_def getPermStore_def stocked_def find_volume_def RelativePath_def
      proc_eval on_fs_def lift_eff_def on_files_def on_world_r_def pool_env_def toy_renv_def toy_fs_def toy_docker_def
      ContainerCreate_def ContainerAttach_def ContainerStart_def eff_return_def upd_cont_def)

lemma pool_env_pools:
  assumes "getPermStore ''codewrapper'' (rn_repo s) \<noteq> []" "repo_options (rn_repo s) = DefaultRepoOptions"
    and "ro_Concurrency (rn_options s) = 1" "0 < rn_size s"
    and "\<forall>(rt, ri)\<in>set rs. map_of SupportedRuntimes rt = Some ri"
  shows "\<exists>s'. create_pools pool_env rs s = Returns (Inr (), s')"
  using assms
proof (induction rs arbitrary: s)
  case Nil
  then show ?case by (simp add: proc_run)
next
  case (Cons r rs)
  obtain rt ri where r: "r = (rt, ri)" by force
  then have ri: "map_of SupportedRuntimes rt = Some ri" using Cons.prems(5) by simp
  obtain p where p: "p \<noteq> []" and store: "PermStore (re_files pool_env) (re_fs pool_env) rt (Inr (re_Asset pool_env (AssetName ri)))
      (FileName ri) 0 (rn_repo s) = Returns (Inr p, (rn_repo s)\<lparr>permStore := AList.update rt p (permStore (rn_repo s))\<rparr>)"
    using pool_env_store [OF Cons.prems(2)] by blast
  let ?r = "(rn_repo s)\<lparr>permStore := AList.update rt p (permStore (rn_repo s))\<rparr>"
  let ?t = "s\<lparr>rn_repo := ?r, rn_containerPool := AList.update rt [] (rn_containerPool s)\<rparr>"
  have "stocked (rn_repo ?t) rt"
    using Cons.prems(1,2) p by (auto simp: stocked_def getPermStore_def split: option.splits)
  from pool_env_create [OF this ri] obtain u where u: "createFreshContainer pool_env rt ?t = Returns (Inr (rn_next ?t, None), u)"
    "permStore (rn_repo u) = permStore ?r" "repo_options (rn_repo u) = DefaultRepoOptions"
    using Cons.prems(2) by auto
  have kept: "pool_kept ?t u" by (rule createFreshContainer_kept [OF u(1)])
  let ?v = "u\<lparr>rn_containerPool := AList.update rt [rn_next s] (rn_containerPool u)\<rparr>"
  have q: "map_of (rn_containerPool u) rt = Some []" "0 < rn_size u" "ro_Concurrency (rn_options u) = 1"
    using kept Cons.prems(3,4) by (auto simp: pool_kept_def rest_kept_def)
  have "create_pools pool_env (r # rs) s = create_pools pool_env rs ?v"
    using store u(1) q(1,2) Cons.prems(3) by (simp add: r proc_eval on_files_def pool_put_def)
  moreover have "\<exists>s'. create_pools pool_env rs ?v = Returns (Inr (), s')"
  proof (rule Cons.IH)
    show "getPermStore ''codewrapper'' (rn_repo ?v) \<noteq> []"
      using Cons.prems(1) p u(2) by (auto simp: getPermStore_def split: option.splits)
  qed (use Cons.prems u q in simp_all)
  ultimately show ?case by simp
qed

lemma toy_repo_options: "repo_options toy_repo = DefaultRepoOptions"
  by (simp add: toy_repo_def)

lemma rn_repo_same [simp]: "s\<lparr>rn_repo := rn_repo s\<rparr> = s"
  by (cases s) simp

lemma pool_env_steps:
  "on_files (GenerateKey (re_fs pool_env)) s = Returns (Inr ''key'', s)"
  "on_world_r (re_ReserveMemory pool_env m) s = Returns (Inr (), s)"
  "on_world_r (\<lambda>w. (Inr (), re_ResetMemory pool_env w)) s = Returns (Inr (), s)"
  "on_world_r (re_OpenWrapper pool_env) s = Returns (Inr (Inr []), s)"
  "Manager_Options (re_mgr pool_env) = DefaultDockerOptions"
  by (simp_all add: on_files_def on_world_r_def lift_eff_def GenerateKey_def on_fs_def pool_env_def toy_renv_def toy_fs_def
      eff_return_def proc_eval Manager_Options_def)

lemma pool_env_created: "\<exists>key s. CreatePool pool_env pool_start = Returns (Inr key, s)"
proof -
  let ?r = "rn_repo pool_start"
  obtain p where p: "p \<noteq> []" and store: "PermStore (re_files pool_env) (re_fs pool_env) ''codewrapper'' (Inr []) ''codewrapper'' 511 toy_repo =
      Returns (Inr p, toy_repo\<lparr>permStore := AList.update ''codewrapper'' p (permStore toy_repo)\<rparr>)"
    using pool_env_store [OF toy_repo_options] by blast
  then have store': "on_files (PermStore (re_files pool_env) (re_fs pool_env) ''codewrapper'' (Inr []) ''codewrapper'' 511) x =
      Returns (Inr p, x\<lparr>rn_repo := toy_repo\<lparr>permStore := AList.update ''codewrapper'' p (permStore toy_repo)\<rparr>\<rparr>)"
    if "rn_repo x = toy_repo" for x :: "((string \<times> nat) list, (string \<times> string) list, string list) runner"
    using that by (simp add: on_files_def)
  define t where "t = pool_start\<lparr>rn_poolID := ''key'', rn_size := 1, rn_held := 0,
    rn_workerCPU := ro_MCPU DefaultRunnerOptions - ReservedMCPU DefaultDockerOptions, rn_containerPool := [],
    rn_repo := toy_repo\<lparr>permStore := AList.update ''codewrapper'' p (permStore toy_repo)\<rparr>\<rparr>"
  have "\<exists>u. create_pools pool_env SupportedRuntimes t = Returns (Inr (), u)"
    by (rule pool_env_pools) (auto simp: t_def pool_start_def p getPermStore_def toy_repo_def SupportedRuntimes_def)
  then obtain u where u: "create_pools pool_env SupportedRuntimes t = Returns (Inr (), u)" ..
  have "CreatePool pool_env pool_start = andThen (create_pools pool_env SupportedRuntimes)
      (\<lambda>_. andThen (modify (\<lambda>s. snd (setRunning True s))) (\<lambda>_. get_state rn_poolID)) t"
    using store'
    by (simp add: CreatePool_def proc_eval pool_env_steps pool_start_def t_def IsRunning_def toy_runner_def)
  with u show ?thesis
    by (simp add: proc_eval)
qed

section \<open>Properties\<close>

text \<open>
  C1: no container of the pool is lost or doubled. From the creation of the pool on, with runs
  (refused, failed or answered), the work after them in any order, removals and failing streams
  interleaved, the queue of each runtime and the containers of that runtime that runs have
  taken from it are as many as the concurrency, so that a container can always be put back
  without waiting; and the wait group counts exactly the runs whose work is not done.
\<close>

theorem runner_pool_conserved:
  assumes "CreatePool env s0 = Returns (Inr key, s)" "rn_spawned s0 = []" "rn_taskWaitGroup s0 = 0"
    and "(pool_step env)\<^sup>*\<^sup>* s s'" "retry_documented env"
    and "map_of (rn_containerPool s') rt = Some q"
  shows "length q + length (filter (\<lambda>c. runtime_of s' c = rt) (taken s')) = unat (ro_Concurrency (rn_options s0)) \<and>
    set q \<inter> set (taken s') = {} \<and> distinct (taken s') \<and> rn_taskWaitGroup s' = int (length (tasks s'))"
proof -
  have "pool_ok (unat (ro_Concurrency (rn_options s0))) s" using CreatePool_result [OF assms(1-3)] by blast
  from pool_ok_reachable [OF assms(4,5) this] have "pool_ok (unat (ro_Concurrency (rn_options s0))) s'" .
  then have bal: "balanced (unat (ro_Concurrency (rn_options s0))) (taken s') s'"
    and wg: "rn_taskWaitGroup s' = int (length (tasks s'))" by (simp_all add: pool_ok_def)
  from balancedD(1) [OF bal] balancedD(3,4) [OF bal assms(6)] wg show ?thesis by blast
qed

text \<open>A pool of one container per runtime is created; a call without a script is refused.\<close>

theorem runner_pool_conserved_witness:
  "\<exists>key s s' q. CreatePool pool_env pool_start = Returns (Inr key, s) \<and>
    runner_Run pool_env ''r'' None None s = Returns (Inr (None, Some ErrInvalidArgument), s') \<and>
    map_of (rn_containerPool s') ''nodejs_v8'' = Some q \<and>
    length q + length (filter (\<lambda>c. runtime_of s' c = ''nodejs_v8'') (taken s')) = 1"
proof -
  have new: "rn_spawned pool_start = []" "rn_taskWaitGroup pool_start = 0"
    and one: "unat (ro_Concurrency (rn_options pool_start)) = 1"
    by (simp_all add: pool_start_def toy_runner_def)
  obtain key s where create: "CreatePool pool_env pool_start = Returns (Inr key, s)"
    using pool_env_created by blast
  have run: "runner_Run pool_env ''r'' None None s = Returns (Inr (None, Some ErrInvalidArgument), s)"
    by (simp add: runner_Run_def proc_run)
  then have "pool_step pool_env s s" by (rule pool_step.run)
  then have steps: "(pool_step pool_env)\<^sup>*\<^sup>* s s" by simp
  have "''nodejs_v8'' \<in> dom (map_of (rn_containerPool s))"
    using CreatePool_result [OF create new] by (simp add: SupportedRuntimes_def)
  then obtain q where q: "map_of (rn_containerPool s) ''nodejs_v8'' = Some q" by auto
  have retry: "retry_documented pool_env"
    by (simp add: retry_documented_def pool_env_def toy_renv_def retried.last_call)
  from runner_pool_conserved [OF create new steps retry q] create run q one show ?thesis
    by (intro exI [of _ key] exI [of _ s] exI [of _ q]) simp
qed

text \<open>The quotients of the limits, on integers.\<close>

lemma sdiv_times_le: "0 \<le> (a :: int) \<Longrightarrow> 0 < b \<Longrightarrow> 0 \<le> a sdiv b \<and> a sdiv b * b \<le> a"
proof -
  assume ab: "0 \<le> a" "0 < b"
  have "a div b * b \<le> a" using ab div_mult_mod_eq [of a b] pos_mod_sign [of b a] by linarith
  moreover have "a sdiv b = a div b" using ab by (simp add: signed_divide_int_def sgn_if)
  ultimately show ?thesis using ab by (simp add: pos_imp_zdiv_nonneg_iff)
qed

lemma sint_small: "uint (w :: 64 word) < 2 ^ 63 \<Longrightarrow> sint w = uint w"
proof -
  assume "uint w < 2 ^ 63"
  moreover have "- (2 ^ 63) \<le> uint w" by (rule order_trans [OF _ uint_ge_0]) simp
  ultimately show ?thesis by (simp add: sint_uint signed_take_bit_int_eq_self)
qed

lemma uint_times: "uint (w :: 64 word) < 2 ^ 26 \<Longrightarrow> uint (w * 1000000) = uint w * 1000000"
  by (simp add: uint_word_ariths(3))

text \<open>
  The limits of a new runner share out what there is. When the CPU kept for the system is
  not more than what is used, all containers together get at most the rest of the CPU, as a limit and
  as a quota of each period, and at most the disk operations of the node; the CPU used is never
  more than docker has, and a concurrency of 0 panics.
\<close>

theorem runner_limits:
  assumes "NewRunner merge opts mgr check k g metric repo = Returns (Inr s, w)"
    and "ReservedMCPU (Manager_Options mgr) \<le> ro_MCPU (rn_options s)" "uint (ro_MCPU (rn_options s)) < 2 ^ 26"
    and "uint (ro_Concurrency (rn_options s)) < 2 ^ 63"
  shows "let o' = rn_options s; con = ro_Constraints o'; n = uint (ro_Concurrency o');
             cpu = uint (ro_MCPU o') - uint (ReservedMCPU (Manager_Options mgr)) in
    0 < n \<and> CPULimit con * n \<le> cpu * 1000000 \<and> CPUQuota con * n \<le> cpu * 100 \<and>
    uint (IOPSLimit con) * n \<le> uint (ro_NodeIOPS o') \<and>
    ro_MCPU o' \<le> word_of_int (wrap64 (NCPU (Manager_Info mgr) * 1000)) \<and> \<not> IsRunning s"
proof -
  let ?o = "rn_options s" and ?r = "ReservedMCPU (Manager_Options mgr)"
  let ?n = "uint (ro_Concurrency ?o)" and ?cpu = "uint (ro_MCPU ?o) - uint ?r"
  have pos: "ro_Concurrency ?o \<noteq> 0" "\<not> IsRunning s"
    "ro_MCPU ?o \<le> word_of_int (wrap64 (NCPU (Manager_Info mgr) * 1000))"
    and con: "ro_Constraints ?o = (ro_Constraints ?o)\<lparr>CPULimit := wrap64 (sint ((ro_MCPU ?o - ?r) * 1000000) sdiv sint (ro_Concurrency ?o)),
        CPUPeriod := 100000, CPUQuota := wrap64 (wrap64 (sint ((ro_MCPU ?o - ?r) * 1000000) sdiv sint (ro_Concurrency ?o)) * 100000) sdiv 1000000000,
        IOPSLimit := ro_NodeIOPS ?o div ro_Concurrency ?o\<rparr>"
    using assms(1)
    by (auto simp: NewRunner_def Let_def runner_constraints_def IsRunning_def split: if_splits prod.splits sum.splits)
  have n: "0 < ?n" using pos(1) uint_ge_0 [of "ro_Concurrency ?o"] by (metis order_le_neq_trans uint_0_iff)
  have cpu: "uint (ro_MCPU ?o - ?r) = ?cpu" using assms(2) by (simp add: uint_sub_lem word_le_def)
  moreover have "0 \<le> ?cpu" using assms(2) by (simp add: word_le_def)
  moreover have "?cpu < 2 ^ 26" using assms(3) uint_ge_0 [of ?r] by linarith
  ultimately have cpu_lt: "0 \<le> ?cpu" "uint (ro_MCPU ?o - ?r) < 2 ^ 26" "?cpu < 2 ^ 26" by simp_all
  have "sint ((ro_MCPU ?o - ?r) * 1000000) = ?cpu * 1000000"
    using uint_times [OF cpu_lt(2)] cpu cpu_lt by (subst sint_small) simp_all
  moreover have "sint (ro_Concurrency ?o) = ?n" using assms(4) by (rule sint_small)
  moreover define l where "l = (?cpu * 1000000) sdiv ?n"
  moreover have l: "0 \<le> l" "l * ?n \<le> ?cpu * 1000000"
    using sdiv_times_le [of "?cpu * 1000000" ?n] cpu_lt n by (auto simp: l_def)
  moreover have l_le: "l \<le> ?cpu * 1000000"
    using l n mult_left_mono [of 1 ?n l] by linarith
  moreover have "wrap64 l = l" "wrap64 (l * 100000) = l * 100000"
    using l(1) l_le cpu_lt by auto
  ultimately have limits: "CPULimit (ro_Constraints ?o) = l" "CPUQuota (ro_Constraints ?o) = (l * 100000) sdiv 1000000000"
    "IOPSLimit (ro_Constraints ?o) = ro_NodeIOPS ?o div ro_Concurrency ?o"
    using con by (auto dest: arg_cong [where f = CPULimit] arg_cong [where f = CPUQuota] arg_cong [where f = IOPSLimit])
  have "(l * 100000) sdiv 1000000000 * 1000000000 \<le> l * 100000"
    using sdiv_times_le [of "l * 100000" 1000000000] l(1) by simp
  then have "(l * 100000) sdiv 1000000000 * 1000000000 * ?n \<le> l * 100000 * ?n"
    using n by (intro mult_right_mono) auto
  then have "(l * 100000) sdiv 1000000000 * ?n \<le> ?cpu * 100"
    using l(2) by (simp add: algebra_simps)
  moreover have "uint (ro_NodeIOPS ?o div ro_Concurrency ?o) * ?n \<le> uint (ro_NodeIOPS ?o)"
    unfolding uint_div using div_mult_mod_eq [of "uint (ro_NodeIOPS ?o)" ?n] pos_mod_sign [OF n, of "uint (ro_NodeIOPS ?o)"]
    by linarith
  ultimately show ?thesis using pos n l limits by (simp add: Let_def)
qed

text \<open>The default options on a node with four processors: two containers share 1.75 of them.\<close>

theorem runner_limits_witness:
  "\<exists>s w. NewRunner (\<lambda>a b. b) None (re_mgr toy_renv) (\<lambda>_. eff_return ()) ([] :: (string \<times> nat) list)
      (rn_globals toy_runner) 0 toy_repo = Returns (Inr s, w) \<and>
    CPULimit (ro_Constraints (rn_options s)) * 2 \<le>
      (2000 - uint (ReservedMCPU (Manager_Options (re_mgr toy_renv)))) * 1000000 \<and> \<not> IsRunning s"
proof -
  have "\<exists>s w. NewRunner (\<lambda>a b. b) None (re_mgr toy_renv) (\<lambda>_. eff_return ()) ([] :: (string \<times> nat) list)
      (rn_globals toy_runner) 0 toy_repo = Returns (Inr s, w) \<and> ro_MCPU (rn_options s) = 2000 \<and> ro_Concurrency (rn_options s) = 2"
    by (simp add: NewRunner_def Let_def runner_constraints_def DefaultRunnerOptions_def toy_renv_def Manager_Info_def eff_return_def)
  then obtain s w where run: "NewRunner (\<lambda>a b. b) None (re_mgr toy_renv) (\<lambda>_. eff_return ()) ([] :: (string \<times> nat) list)
      (rn_globals toy_runner) 0 toy_repo = Returns (Inr s, w)" "ro_MCPU (rn_options s) = 2000" "ro_Concurrency (rn_options s) = 2"
    by blast
  have "ReservedMCPU (Manager_Options (re_mgr toy_renv)) \<le> ro_MCPU (rn_options s)" "uint (ro_MCPU (rn_options s)) < 2 ^ 26"
    "uint (ro_Concurrency (rn_options s)) < 2 ^ 63"
    using run(2,3) by (simp_all add: Manager_Options_def toy_renv_def DefaultDockerOptions_def)
  from runner_limits [OF run(1) this] run show ?thesis by (auto simp: Let_def)
qed

section \<open>Freeing memory\<close>

text \<open>
  The cache of containers (\<open>cache.LRUSetCache\<close>): a lookup adds nothing, and \<open>DeleteLRU\<close>
  tells whether it removed an entry. \<open>sz\<close> is the number of entries.
\<close>

definition set_cache_documented :: "'k set_cache \<Rightarrow> ('k \<Rightarrow> nat) \<Rightarrow> bool" where
  "set_cache_documented sc sz \<longleftrightarrow> (\<forall>key k. sz (snd (sc_Get sc key k)) \<le> sz k) \<and>
     (\<forall>k ok ev k'. sc_DeleteLRU sc k = (ok, ev, k') \<longrightarrow> sz k' \<le> sz k \<and> (ok \<longrightarrow> sz k' < sz k))"

definition no_more :: "('k \<Rightarrow> nat) \<Rightarrow> ('k, 'c, 'w) runner \<Rightarrow> ('k, 'c, 'w) runner \<Rightarrow> bool" where
  "no_more sz s s' \<longleftrightarrow> sz (rn_containerCache s') \<le> sz (rn_containerCache s)"

lemma no_more_order [keeps_intros]: "reflp (no_more sz)" "transp (no_more sz)"
  by (auto simp: no_more_def intro!: reflpI transpI)

lemma no_more_steps [keeps_intros]:
  "keeps (no_more sz) (on_world_r m)" "keeps (no_more sz) (on_files p)" "keeps (no_more sz) (stop_container env c)"
  "keeps (no_more sz) (spawn g)" "keeps (no_more sz) (modify (upd_cont c f))"
  "keeps (no_more sz) (modify (\<lambda>s. s\<lparr>rn_scriptIndex := h s\<rparr>))"
  by (auto simp: keeps_def no_more_def on_files_def stop_container_def spawn_def proc_eval upd_cont_def
      split: outcome.splits prod.splits elim!: on_world_r_run)

lemma no_more_evict:
  assumes "set_cache_documented (re_cache env) sz"
  shows "keeps (no_more sz) (evict_containers env xs)"
proof (induction xs)
  case (Cons x xs)
  have get: "keeps (no_more sz) (cache_Get env key)" for key
    using assms by (auto simp: keeps_def cache_Get_def no_more_def set_cache_documented_def split: prod.splits) (metis snd_conv)
  have "keeps (no_more sz) (cleanupContainer env c)" for c
    unfolding cleanupContainer_def by (intro keeps_intros)
  then have "keeps (no_more sz) (onEvictedContainerHandler env x)"
    unfolding onEvictedContainerHandler_def by (cases x) (auto intro!: keeps_intros get)
  then show ?case by (auto intro!: keeps_intros Cons.IH)
qed (auto intro!: keeps_intros)

text \<open>
  C25: the loop that frees memory ends. With a cache whose \<open>DeleteLRU\<close> removes an entry
  whenever it says so, the loop does not go on for ever, and when it returns, the last check
  found the memory free; it gives up (with a panic) only when nothing was left to remove.
\<close>

theorem runner_free_memory_ends:
  assumes "set_cache_documented (re_cache env) sz"
  shows "\<exists>r. free_memory env s = Some r \<and>
    (\<forall>x s'. r = Returns (x, s') \<longrightarrow> x = Inr () \<and> (\<exists>t. on_world_r (re_CheckFreeMemory env 0) t = Returns (Inr (), s')))"
proof (induction "sz (rn_containerCache s)" arbitrary: s rule: less_induct)
  case less
  obtain y s1 where mem: "on_world_r (re_CheckFreeMemory env 0) s = Returns (y, s1)" using on_world_r_returns by blast
  have s1: "rn_containerCache s1 = rn_containerCache s" using mem by (auto elim!: on_world_r_run)
  obtain ok ev k where lru: "sc_DeleteLRU (re_cache env) (rn_containerCache s1) = (ok, ev, k)"
    by (cases "sc_DeleteLRU (re_cache env) (rn_containerCache s1)") auto
  let ?s2 = "s1\<lparr>rn_containerCache := k\<rparr>"
  show ?case
  proof (cases y)
    case (Inr u)
    with mem show ?thesis by (subst free_memory.simps) auto
  next
    case (Inl e)
    show ?thesis
    proof (cases "evict_containers env ev ?s2")
      case (Returns p)
      obtain z s3 where p: "p = (z, s3)" by force
      have eq: "free_memory env s = (if ok then free_memory env s3 else Some Panics)"
        using mem Inl lru Returns p by (subst free_memory.simps) simp
      show ?thesis
      proof (cases ok)
        case True
        have "sz (rn_containerCache s3) \<le> sz k"
          using keepsD [OF no_more_evict [OF assms] Returns [unfolded p]] by (simp add: no_more_def)
        also have "sz k < sz (rn_containerCache s)"
          using assms lru True s1 by (auto simp: set_cache_documented_def)
        finally show ?thesis using less [of s3] eq True by auto
      qed (simp add: eq)
    qed (use mem Inl lru in \<open>subst free_memory.simps; simp\<close>)+
  qed
qed

theorem runner_free_memory_ends_witness:
  "\<exists>r. free_memory toy_renv toy_runner = Some r \<and>
    (\<exists>s'. r = Returns (Inr (), s') \<and> (\<exists>t. on_world_r (re_CheckFreeMemory toy_renv 0) t = Returns (Inr (), s')))"
proof -
  have "set_cache_documented (re_cache toy_renv) length"
    by (auto simp: set_cache_documented_def toy_renv_def list_set_cache_def split: list.splits)
  from runner_free_memory_ends [OF this, of toy_runner] obtain r where
    r: "free_memory toy_renv toy_runner = Some r" by blast
  moreover have "free_memory toy_renv toy_runner = Some (Returns (Inr (), toy_runner))"
    by (subst free_memory.simps) (simp add: on_world_r_def lift_eff_def toy_renv_def eff_return_def)
  ultimately show ?thesis
    using runner_free_memory_ends [OF \<open>set_cache_documented (re_cache toy_renv) length\<close>, of toy_runner] by auto
qed

section \<open>Removing a script's containers\<close>

text \<open>An entry of the script index that is gone stays gone.\<close>

definition stays_gone :: "string \<Rightarrow> ('k, 'c, 'w) runner \<Rightarrow> ('k, 'c, 'w) runner \<Rightarrow> bool" where
  "stays_gone idx s s' \<longleftrightarrow> (map_of (rn_scriptIndex s) idx = None \<longrightarrow> map_of (rn_scriptIndex s') idx = None)"

lemma stays_gone_order [keeps_intros]: "reflp (stays_gone idx)" "transp (stays_gone idx)"
  by (auto simp: stays_gone_def intro!: reflpI transpI)

lemma stays_gone_steps [keeps_intros]:
  "keeps (stays_gone idx) (on_world_r m)" "keeps (stays_gone idx) (on_files p)" "keeps (stays_gone idx) (stop_container env c)"
  "keeps (stays_gone idx) (spawn g)" "keeps (stays_gone idx) (modify (upd_cont c f))" "keeps (stays_gone idx) (cache_Get env key)"
  by (auto simp: keeps_def stays_gone_def on_files_def stop_container_def spawn_def proc_eval upd_cont_def cache_Get_def
      split: outcome.splits prod.splits elim!: on_world_r_run)

lemma stays_gone_del: "keeps (stays_gone idx) (modify (\<lambda>s. s\<lparr>rn_scriptIndex := nested_del (i s) (h s) (rn_scriptIndex s)\<rparr>))"
  by (rule keeps_modify) (auto simp: stays_gone_def nested_del_def nested_set_def split: option.split)

lemma stays_gone_cleanup [keeps_intros]: "keeps (stays_gone idx) (cleanupContainer env c)"
  unfolding cleanupContainer_def by (intro keeps_intros)

lemma stays_gone_evict [keeps_intros]: "keeps (stays_gone idx) (evict_containers env xs)"
proof (induction xs)
  case (Cons x xs)
  have "keeps (stays_gone idx) (onEvictedContainerHandler env x)"
    unfolding onEvictedContainerHandler_def by (cases x) (auto intro!: keeps_intros stays_gone_del)
  then show ?case by (auto intro!: keeps_intros Cons.IH)
qed (auto intro!: keeps_intros)

lemma stays_gone_set_op [keeps_intros]: "keeps (stays_gone idx) (set_op env f)"
proof (rule keepsI)
  fix s r s'
  assume "set_op env f s = Returns (r, s')"
  then obtain ev k where "evict_containers env ev (s\<lparr>rn_containerCache := k\<rparr>) = Returns (r, s')"
    by (auto simp: set_op_def split: prod.splits)
  from keepsD [OF stays_gone_evict this] show "stays_gone idx s s'" by (simp add: stays_gone_def)
qed

lemma stays_gone_delete_all: "keeps (stays_gone idx) (delete_all env cs)"
  by (induction cs) (auto intro!: keeps_intros simp: deleteContainer_def)

lemma containers_of_found:
  assumes "containers_of env cid hs ret s = Returns (r, s')"
  shows "\<exists>cs. r = Inr (ret @ cs) \<and> rn_conts s' = rn_conts s \<and> rn_scriptIndex s' = rn_scriptIndex s \<and>
    (\<forall>c\<in>set cs. cid = [] \<or> c_ID (rn_conts s c) = cid)"
  using assms
proof (induction hs arbitrary: ret s)
  case (Cons h hs)
  obtain cs t where get: "cache_Get env h s = Returns (Inr cs, t)" "rn_conts t = rn_conts s" "rn_scriptIndex t = rn_scriptIndex s"
    by (cases "sc_Get (re_cache env) h (rn_containerCache s)") (simp add: cache_Get_def)
  then have "containers_of env cid hs (ret @ filter (\<lambda>c. cid = [] \<or> c_ID (rn_conts t c) = cid) cs) t = Returns (r, s')"
    using Cons.prems by (simp add: proc_eval)
  from Cons.IH [OF this] get(2,3) show ?case by fastforce
qed (auto simp: proc_run)

text \<open>
  Removing one container by its ID forgets the others. The containers returned are those
  with the ID (all of them when it is empty), but the whole entry of the script is taken out of
  the index: as long as no new container of the script is set up, no later removal finds any
  container of the script, whatever its ID, although the cache may still hold them.
\<close>

theorem runner_delete_by_id_forgets:
  assumes "DeleteContainersByID env i cid s = Returns (Inr cs, s')"
  shows "(\<forall>c\<in>set cs. cid = [] \<or> c_ID (rn_conts s c) = cid) \<and>
    map_of (rn_scriptIndex s') (Index_Hash (re_hasher env) i) = None \<and>
    DeleteContainersByID env i cid' s' = Returns (Inr [], s')"
proof -
  let ?idx = "Index_Hash (re_hasher env) i"
  have gone: "map_of (rn_scriptIndex s') ?idx = None \<and> (\<forall>c\<in>set cs. cid = [] \<or> c_ID (rn_conts s c) = cid)"
  proof (cases "map_of (rn_scriptIndex s) ?idx")
    case None
    with assms show ?thesis
      by (auto simp: DeleteContainersByID_def containersByIndexAndID_def Let_def proc_eval)
  next
    case (Some m)
    let ?t = "s\<lparr>rn_scriptIndex := AList.delete ?idx (rn_scriptIndex s)\<rparr>"
    from assms Some obtain u r where find: "containers_of env cid (map fst m) [] ?t = Returns (Inr cs, u)"
      and del: "delete_all env cs u = Returns (r, s')"
      by (auto simp: DeleteContainersByID_def containersByIndexAndID_def Let_def proc_eval split: outcome.splits prod.splits sum.splits)
    from containers_of_found [OF find] have "map_of (rn_scriptIndex u) ?idx = None"
      "\<forall>c\<in>set cs. cid = [] \<or> c_ID (rn_conts s c) = cid" by auto
    with keepsD [OF stays_gone_delete_all del] show ?thesis by (simp add: stays_gone_def)
  qed
  then show ?thesis
    by (simp add: DeleteContainersByID_def containersByIndexAndID_def Let_def proc_eval)
qed

text \<open>
  Two containers of one script are cached; after the removal of the first, the second is still
  in the cache and a removal of all of them finds none.
\<close>

definition two_cached :: "((string \<times> nat) list, (string \<times> string) list, string list) runner" where
  "two_cached = toy_runner\<lparr>rn_conts := (\<lambda>c. (NewContainer ''nodejs_v8'')\<lparr>c_Definition := toy_sync, c_state := ContainerStateRunning, c_ID := [digit_char c]\<rparr>),
     rn_containerCache := [(Definition_Hash (re_hasher toy_renv) toy_sync, 0), (Definition_Hash (re_hasher toy_renv) toy_sync, 1)],
     rn_scriptIndex := [(Index_Hash (re_hasher toy_renv) (Index toy_sync), [(Definition_Hash (re_hasher toy_renv) toy_sync, toy_sync)])]\<rparr>"

lemma two_cached_removes:
  "\<exists>s'. DeleteContainersByID toy_renv (Index toy_sync) [digit_char 0] two_cached = Returns (Inr [0], s')"
proof -
  have ids: "digit_char (Suc 0) \<noteq> digit_char 0" by (simp add: digit_char_inject)
  have hash: "re_hasher toy_renv = \<lparr>hash_index = \<lambda>_. 1, hash_definition = \<lambda>_. 2\<rparr>" "re_cache toy_renv = list_set_cache"
    "re_net toy_renv = toy_net" "re_docker toy_renv = toy_docker" "\<not> rn_onRemoved toy_runner"
    by (simp_all add: toy_renv_def toy_runner_def)
  from ids show ?thesis
    by (simp add: DeleteContainersByID_def containersByIndexAndID_def Let_def proc_eval two_cached_def cache_Get_def
        deleteContainer_def set_op_def list_set_cache_def hash def_hash_def onEvictedContainerHandler_def upd_cont_def cont_of_def
        cleanupContainer_def stop_container_def Stop_def NewContainer_def toy_net_def toy_docker_def on_world_r_def lift_eff_def
        StopAcceptingConnections_def cas_state_def IsAcceptingConnections_def ConnsNum_def ContainerStop_def eff_return_def)
qed

theorem runner_delete_by_id_forgets_witness:
  "\<exists>s'. DeleteContainersByID toy_renv (Index toy_sync) [digit_char 0] two_cached = Returns (Inr [0], s') \<and>
    DeleteContainersByID toy_renv (Index toy_sync) [] s' = Returns (Inr [], s')"
proof -
  obtain s' where "DeleteContainersByID toy_renv (Index toy_sync) [digit_char 0] two_cached = Returns (Inr [0], s')"
    using two_cached_removes ..
  with runner_delete_by_id_forgets [OF this, of "[]"] show ?thesis by blast
qed

section \<open>The end of the pool\<close>

text \<open>
  C35: the end of the pool. Stopping a running pool waits while the work of a run is not done;
  after it, the pool does not run, every queue is empty, the gauge of the CPU is 0 and the index
  of scripts is empty; a call for a supported runtime is refused without touching anything, until
  a pool is created again; and stopping it a second time does nothing.
\<close>

theorem runner_stop_pool:
  assumes "StopPool env s = Returns (r, s')" "rn_running s"
  shows "rn_taskWaitGroup s = 0 \<and> \<not> IsRunning s' \<and> (\<forall>rt q. map_of (rn_containerPool s') rt = Some q \<longrightarrow> q = []) \<and>
    rn_workerCPU s' = 0 \<and> rn_scriptIndex s' = [] \<and> StopPool env s' = Returns (Inr (), s') \<and>
    (\<forall>rid d o'. map_of SupportedRuntimes (Runtime (Index d)) \<noteq> None \<longrightarrow>
       runner_Run env rid (Some d) (Some o') s' = Returns (Inr (None, Some EPoolNotRunning), s'))"
proof -
  let ?t = "s\<lparr>rn_running := False, rn_onRemoved := False, rn_workerCPU := 0,
    rn_containerPool := map (\<lambda>(rt, q). (rt, [])) (rn_containerPool s)\<rparr>"
  have wg: "rn_taskWaitGroup s = 0"
    using assms by (auto simp: StopPool_def setRunning_def OnContainerRemoved_def proc_eval split: if_splits)
  define tail where "tail = andThen (cleanup_all env (concat (map snd (rn_containerPool s)))) (\<lambda>_. set_op env (sc_Flush (re_cache env)))"
  have "keeps books (cleanup_all env cs)" "never_fails (cleanup_all env cs)" for cs
    by (induction cs) (auto intro!: keeps_intros never_fails_intros)
  then have tail_keeps: "keeps books tail" and tail_ok: "never_fails tail"
    unfolding tail_def by (auto intro!: keeps_intros never_fails_intros)
  have "andThen tail (\<lambda>_. modify (\<lambda>s. s\<lparr>rn_scriptIndex := []\<rparr>)) ?t = Returns (r, s')"
    using assms wg unfolding StopPool_def tail_def
    by (auto simp: setRunning_def OnContainerRemoved_def proc_eval split: outcome.splits prod.splits sum.splits)
  then obtain u where u: "tail ?t = Returns (Inr (), u)" "s' = u\<lparr>rn_scriptIndex := []\<rparr>"
    using tail_ok by (auto simp: proc_run never_fails_def elim!: andThen_ReturnsE)
  have "map_of (map (\<lambda>(rt, q). (rt, [])) m) rt = Some q \<Longrightarrow> q = []" for m :: "(string \<times> nat list) list" and rt q
    by (induction m) (auto split: if_splits)
  moreover have "rn_containerPool u = rn_containerPool ?t" "rn_workerCPU u = 0" "\<not> rn_running u"
    using keepsD [OF tail_keeps u(1)] by (auto simp: books_def pool_kept_def rest_kept_def)
  ultimately have *: "\<forall>rt q. map_of (rn_containerPool s') rt = Some q \<longrightarrow> q = []" "rn_workerCPU s' = 0" "\<not> rn_running s'"
    "rn_scriptIndex s' = []"
    using u(2) by auto
  have "s'\<lparr>rn_running := False\<rparr> = s'" using *(3) by (cases s') simp
  then have "StopPool env s' = Returns (Inr (), s')" using *(3) by (simp add: StopPool_def setRunning_def proc_eval)
  moreover have "runner_Run env rid (Some d) (Some o') s' = Returns (Inr (None, Some EPoolNotRunning), s')"
    if "map_of SupportedRuntimes (Runtime (Index d)) \<noteq> None" for rid d o'
    using that *(3) by (auto simp: runner_Run_def proc_eval IsRunning_def split: prod.split)
  ultimately show ?thesis using wg * by (auto simp: IsRunning_def)
qed

text \<open>The pool of one container per runtime is stopped.\<close>

theorem runner_stop_pool_witness:
  "\<exists>s'. StopPool toy_renv (toy_runner\<lparr>rn_taskWaitGroup := 0\<rparr>) = Returns (Inr (), s') \<and> \<not> IsRunning s' \<and>
    (\<forall>rid o'. runner_Run toy_renv rid (Some toy_sync) (Some o') s' = Returns (Inr (None, Some EPoolNotRunning), s'))"
proof -
  let ?s = "toy_runner\<lparr>rn_taskWaitGroup := 0\<rparr>"
  have "\<exists>s'. StopPool toy_renv ?s = Returns (Inr (), s')"
    by (simp add: StopPool_def setRunning_def OnContainerRemoved_def proc_eval set_op_def toy_runner_def toy_renv_def list_set_cache_def)
  then obtain s' where stop: "StopPool toy_renv ?s = Returns (Inr (), s')" ..
  have "map_of SupportedRuntimes (Runtime (Index toy_sync)) \<noteq> None"
    by (simp add: SupportedRuntimes_def toy_sync_def toy_definition_def)
  with runner_stop_pool [OF stop] stop show ?thesis by (simp add: toy_runner_def)
qed

end
