(* ===== verification/Worker_Cmd.thy ===== *)
theory Worker_Cmd
  imports Runner_Life Lb_Server
begin

text \<open>
  The worker program (cmd/worker.go): it keeps a pool of containers, registers with the load
  balancer, sends heartbeats, and starts again when that ends.
\<close>

section \<open>State\<close>

text \<open>
  \<open>wp_err\<close> is the variable \<open>err\<close> of \<open>startServer\<close>, which the handler for removed containers
  refers to, \<open>wp_errCh\<close> the channel (of capacity one) of its errors, \<open>wp_blocked\<close> the handlers
  that wait to send on it.
\<close>

record ('k, 'c, 'w) worker_proc =
  wp_runner :: "('k, 'c, 'w) runner"
  wp_err :: "go_error option"
  wp_errCh :: "go_error option list"
  wp_blocked :: nat

type_synonym ('k, 'c, 'w, 'a) wcproc = "(('k, 'c, 'w) worker_proc, 'a) proc"

record 'w worker_cmd_env =
  wv_Listen :: "('w, int) eff"
  wv_Dial :: "string \<Rightarrow> ('w, nat) eff"
  wv_CloseConn :: "nat \<Rightarrow> ('w, unit) eff"
  wv_GracefulStop :: "('w, unit) eff"
  wv_ContainerRemoved :: "nat \<Rightarrow> container_removed_request \<Rightarrow> ('w, unit) eff"
  wv_Register :: "nat \<Rightarrow> register_request \<Rightarrow> ('w, unit) eff"
  wv_Disconnect :: "nat \<Rightarrow> string \<Rightarrow> ('w, unit) eff"
  wv_Heartbeat :: "nat \<Rightarrow> string \<Rightarrow> u64 \<Rightarrow> ('w, unit) eff"
  wv_AvailableMemory :: "'w \<Rightarrow> u64"

text \<open>A method of the runner, and a call of the outside world.\<close>

definition on_runner :: "('k, 'c, 'w, 'a) rproc \<Rightarrow> ('k, 'c, 'w, 'a) wcproc" where
  "on_runner m = (\<lambda>s. case m (wp_runner s) of
     Returns (r, u) \<Rightarrow> Returns (r, s\<lparr>wp_runner := u\<rparr>) | Panics \<Rightarrow> Panics | Blocks \<Rightarrow> Blocks)"

definition on_world_c :: "('w, 'a) eff \<Rightarrow> ('k, 'c, 'w, 'a) wcproc" where
  "on_world_c m = on_runner (on_world_r m)"

definition world_of :: "('k, 'c, 'w) worker_proc \<Rightarrow> 'w" where
  "world_of s = fs_world (rn_repo (wp_runner s))"

section \<open>The server\<close>

text \<open>
  What happens while the server runs: a tick of the heartbeat, the removal of a container
  (whose handler runs in a goroutine), the end of the gRPC server with an error, an error
  selected from the channel, and the stop.
\<close>

datatype worker_event =
    EvTick
  | EvRemoved script_def string
  | EvServeEnds go_error
  | EvErr
  | EvStop

text \<open>The handler sends the error \<open>e\<close> of its call if the variable \<open>err\<close> is set.\<close>

definition removed_handler ::
  "'w worker_cmd_env \<Rightarrow> nat \<Rightarrow> string \<Rightarrow> script_def \<Rightarrow> string \<Rightarrow> ('k, 'c, 'w, unit) wcproc" where
  "removed_handler env conn poolID d contID =
     andThen (attempt (on_world_c (wv_ContainerRemoved env conn (container_removed_message poolID contID d)))) (\<lambda>r.
     modify (\<lambda>s. if wp_err s = None then s
                 else if wp_errCh s = [] then s\<lparr>wp_errCh := [case r of Inl e \<Rightarrow> Some e | Inr _ \<Rightarrow> None]\<rparr>
                 else s\<lparr>wp_blocked := wp_blocked s + 1\<rparr>))"

text \<open>\<open>None\<close>: the loop goes on after the events.\<close>

fun serve_loop ::
  "'w worker_cmd_env \<Rightarrow> nat \<Rightarrow> string \<Rightarrow> worker_event list \<Rightarrow> ('k, 'c, 'w, (bool \<times> go_error option) option) wcproc" where
  "serve_loop env conn poolID [] = return None"
| "serve_loop env conn poolID (EvTick # es) =
     andThen (get_state (\<lambda>s. wv_AvailableMemory env (world_of s))) (\<lambda>mem.
     try_catch (on_world_c (wv_Heartbeat env conn poolID mem)) (\<lambda>e. return (Some (True, None)))
       (\<lambda>_. serve_loop env conn poolID es))"
| "serve_loop env conn poolID (EvRemoved d contID # es) =
     andThen (removed_handler env conn poolID d contID) (\<lambda>_. serve_loop env conn poolID es)"
| "serve_loop env conn poolID (EvServeEnds e # es) = panic"
| "serve_loop env conn poolID (EvErr # es) =
     andThen (get_state wp_errCh) (\<lambda>ch. case ch of
       [] \<Rightarrow> serve_loop env conn poolID es
     | e # rest \<Rightarrow> andThen (modify (\<lambda>s. s\<lparr>wp_errCh := rest\<rparr>)) (\<lambda>_. return (Some (True, e))))"
| "serve_loop env conn poolID (EvStop # es) = return (Some (True, None))"

definition register_message :: "string \<Rightarrow> int \<Rightarrow> u64 \<Rightarrow> runner_options \<Rightarrow> u64 \<Rightarrow> register_request" where
  "register_message poolID port reserved o' mem =
     \<lparr>rg_Id = poolID, rg_Port = port, rg_Mcpu = ucast (ro_MCPU o' - reserved),
      rg_DefaultMcpu = word_of_int (CPULimit (ro_Constraints o') sdiv 1000000), rg_Memory = mem\<rparr>"

text \<open>The deferred calls at the end.\<close>

definition deferred_stop :: "'w worker_cmd_env \<Rightarrow> ('k, 'c, 'w, unit) wcproc" where
  "deferred_stop env = andThen (attempt (on_world_c (wv_GracefulStop env))) (\<lambda>_. return ())"

definition deferred_close :: "'w worker_cmd_env \<Rightarrow> nat \<Rightarrow> ('k, 'c, 'w, unit) wcproc" where
  "deferred_close env conn =
     andThen (attempt (on_world_c (wv_CloseConn env conn))) (\<lambda>_. deferred_stop env)"

text \<open>The server once it is registered, and its end.\<close>

definition serve_registered ::
  "'w worker_cmd_env \<Rightarrow> nat \<Rightarrow> string \<Rightarrow> worker_event list \<Rightarrow> ('k, 'c, 'w, (bool \<times> go_error option) option) wcproc" where
  "serve_registered env conn poolID events =
     andThen (serve_loop env conn poolID events) (\<lambda>r. case r of
       None \<Rightarrow> return None
     | Some x \<Rightarrow>
         andThen (attempt (on_world_c (wv_Disconnect env conn poolID))) (\<lambda>_.
         andThen (deferred_close env conn) (\<lambda>_. return (Some x))))"

definition startServer ::
  "'w worker_cmd_env \<Rightarrow> u64 \<Rightarrow> string \<Rightarrow> string \<Rightarrow> worker_event list
   \<Rightarrow> ('k, 'c, 'w, (bool \<times> go_error option) option) wcproc" where
  "startServer env reserved poolID lbAddr events =
     andThen (modify (\<lambda>s. s\<lparr>wp_err := None, wp_errCh := []\<rparr>)) (\<lambda>_.
     try_catch (on_world_c (wv_Listen env)) (\<lambda>e. return (Some (False, Some e))) (\<lambda>port.
     try_catch (on_world_c (wv_Dial env lbAddr))
       (\<lambda>e. andThen (deferred_stop env) (\<lambda>_. return (Some (False, Some e)))) (\<lambda>conn.
     andThen (on_runner (modify (OnContainerRemoved True))) (\<lambda>_.
     andThen (get_state (\<lambda>s. (rn_options (wp_runner s), wv_AvailableMemory env (world_of s)))) (\<lambda>(o', mem).
     try_catch (on_world_c (wv_Register env conn (register_message poolID port reserved o' mem)))
       (\<lambda>e. andThen (deferred_close env conn) (\<lambda>_. return (Some (False, Some e)))) (\<lambda>_.
     serve_registered env conn poolID events))))))"

section \<open>The main loop\<close>

text \<open>
  A round is the events of a server and whether the program is stopped when the server ends.
  After a server that had registered, the pool is created anew.
\<close>

fun worker_loop ::
  "'w worker_cmd_env \<Rightarrow> ('k, 'c, 'w) runner_env \<Rightarrow> u64 \<Rightarrow> string \<Rightarrow> (worker_event list \<times> bool) list \<Rightarrow> bool \<Rightarrow> string
   \<Rightarrow> ('k, 'c, 'w, unit) wcproc" where
  "worker_loop env renv reserved lbAddr [] setupPool poolID = return ()"
| "worker_loop env renv reserved lbAddr ((events, stop) # rounds) setupPool poolID =
     andThen (if \<not> setupPool then return poolID
              else andThen (on_runner (StopPool renv)) (\<lambda>_.
                   andThen (must (on_runner (CreatePool renv))) (\<lambda>pid.
                   andThen (on_runner (runner_CleanupUnused renv)) (\<lambda>_. return pid)))) (\<lambda>pid.
     andThen (startServer env reserved pid lbAddr events) (\<lambda>r. case r of
       None \<Rightarrow> return ()
     | Some (setupPool', err) \<Rightarrow>
         if stop then return () else worker_loop env renv reserved lbAddr rounds setupPool' pid))"

text \<open>The health check: the status.\<close>

definition worker_health :: "('k, 'c, 'w) worker_proc \<Rightarrow> int" where
  "worker_health s = (if IsRunning (wp_runner s) then 200 else 400)"

section \<open>Facts\<close>

definition quiet :: "('k, 'c, 'w) worker_proc \<Rightarrow> bool" where
  "quiet s \<longleftrightarrow> wp_err s = None \<and> wp_errCh s = [] \<and> wp_blocked s = 0"

lemma quiet_runner: "quiet (s\<lparr>wp_runner := u\<rparr>) = quiet s"
  by (simp add: quiet_def)

lemma on_runner_quiet: "on_runner m s = Returns (r, s') \<Longrightarrow> quiet s' = quiet s"
  by (auto simp: on_runner_def quiet_def split: outcome.splits)

lemma on_runner_modify: "on_runner (modify f) s = Returns (Inr (), s\<lparr>wp_runner := f (wp_runner s)\<rparr>)"
  by (simp add: on_runner_def proc_eval)

lemma on_world_c_quiet: "on_world_c m s = Returns (r, s') \<Longrightarrow> quiet s' = quiet s"
  unfolding on_world_c_def by (rule on_runner_quiet)

definition same_quiet :: "('k, 'c, 'w) worker_proc \<Rightarrow> ('k, 'c, 'w) worker_proc \<Rightarrow> bool" where
  "same_quiet s s' \<longleftrightarrow> quiet s' = quiet s"

lemma same_quiet_intros [keeps_intros]: "reflp same_quiet" "transp same_quiet" "keeps same_quiet (on_world_c m)"
  by (auto simp: same_quiet_def reflp_def transp_def intro!: keepsI dest: on_world_c_quiet)

lemma attempt_quiet: "attempt (on_world_c m) s = Returns (r, s') \<Longrightarrow> quiet s' = quiet s"
  using keepsD [of same_quiet "attempt (on_world_c m)"] by (auto simp: same_quiet_def intro!: keeps_intros)

lemma removed_handler_quiet:
  assumes "removed_handler env conn poolID d contID s = Returns (r, s')" "quiet s"
  shows "quiet s' \<and> r = Inr ()"
proof -
  obtain q s1 where 1: "attempt (on_world_c (wv_ContainerRemoved env conn (container_removed_message poolID contID d))) s = Returns (q, s1)"
    using assms(1) by (auto simp: removed_handler_def elim!: andThen_ReturnsE)
  obtain x where q: "q = Inr x" using never_fails_Inr [OF never_fails_attempt 1] by blast
  have s1: "quiet s1" using attempt_quiet [OF 1] assms(2) by simp
  then have "wp_err s1 = None" by (simp add: quiet_def)
  with assms(1) 1 q s1 show ?thesis by (auto simp: removed_handler_def proc_eval)
qed

lemma serve_loop_quiet:
  "quiet s \<Longrightarrow> serve_loop env conn poolID es s = Returns (r, s') \<Longrightarrow>
   quiet s' \<and> (r = Inr None \<or> r = Inr (Some (True, None)))"
proof (induction es arbitrary: s)
  case (Cons e es)
  show ?case
  proof (cases e)
    case EvTick
    with Cons show ?thesis
      by (auto simp: proc_run elim!: andThen_ReturnsE try_catch_ReturnsE dest: on_world_c_quiet)
  next
    case (EvRemoved d contID)
    with Cons show ?thesis
      by (auto elim!: andThen_ReturnsE dest: removed_handler_quiet)
  next
    case EvErr
    with Cons show ?thesis by (auto simp: proc_eval quiet_def)
  qed (use Cons in \<open>auto simp: proc_eval\<close>)
qed (auto simp: proc_eval)

lemma deferred_quiet [keeps_intros]: "keeps same_quiet (deferred_stop env)" "keeps same_quiet (deferred_close env conn)"
  unfolding deferred_close_def deferred_stop_def by (intro keeps_intros)+

lemma deferred_never_fail [never_fails_intros]: "never_fails (deferred_stop env)" "never_fails (deferred_close env conn)"
  unfolding deferred_close_def deferred_stop_def by (intro never_fails_intros)+

lemma serve_registered_quiet:
  assumes "serve_registered env conn poolID events s = Returns (r, s')" "quiet s"
  shows "quiet s' \<and> (r = Inr None \<or> r = Inr (Some (True, None)))"
proof -
  obtain q s1 where loop: "serve_loop env conn poolID events s = Returns (q, s1)"
    using assms(1) by (auto simp: serve_registered_def elim!: andThen_ReturnsE)
  with assms(2) have s1: "quiet s1" "q = Inr None \<or> q = Inr (Some (True, None))" by (auto dest: serve_loop_quiet)
  let ?rest = "andThen (attempt (on_world_c (wv_Disconnect env conn poolID))) (\<lambda>_.
     andThen (deferred_close env conn) (\<lambda>_. return (Some (True, None))))"
  have "keeps same_quiet ?rest" by (intro keeps_intros)
  then have "quiet t" if "?rest s1 = Returns (x, t)" for x t
    using that s1(1) by (auto simp: same_quiet_def dest: keepsD)
  moreover have "x = Inr (Some (True, None))" if "?rest s1 = Returns (x, t)" for x t
    using that
    by (auto simp: proc_run never_failsD [OF never_fails_attempt] never_failsD [OF deferred_never_fail(2)] elim!: andThen_ReturnsE)
  moreover have "serve_registered env conn poolID events s = ?rest s1" if "q = Inr (Some (True, None))"
    using loop that by (simp add: serve_registered_def proc_eval)
  moreover have "serve_registered env conn poolID events s = Returns (Inr None, s1)" if "q = Inr None"
    using loop that by (simp add: serve_registered_def proc_eval)
  ultimately show ?thesis using s1(2) assms(1) s1(1) by (metis outcome.inject prod.inject)
qed

lemma startServer_quiet:
  assumes "startServer env reserved poolID lbAddr events s = Returns (r, s')" "wp_blocked s = 0"
  shows "quiet s' \<and> (r = Inr None \<or> r = Inr (Some (True, None)) \<or> (\<exists>e. r = Inr (Some (False, Some e))))"
proof -
  have stop: "quiet t \<and> x = Inr ()" if "deferred_stop env u = Returns (x, t)" "quiet u" for u x t
    using keepsD [OF deferred_quiet(1) that(1)] that(2) never_fails_Inr [OF deferred_never_fail(1) that(1)]
    by (auto simp: same_quiet_def)
  have close: "quiet t \<and> x = Inr ()" if "deferred_close env conn u = Returns (x, t)" "quiet u" for conn u x t
    using keepsD [OF deferred_quiet(2) that(1)] that(2) never_fails_Inr [OF deferred_never_fail(2) that(1)]
    by (auto simp: same_quiet_def)
  have "quiet (s\<lparr>wp_err := None, wp_errCh := []\<rparr>)" using assms(2) by (simp add: quiet_def)
  then show ?thesis
    using assms(1)
    by (auto simp: startServer_def proc_run on_runner_modify elim!: andThen_ReturnsE try_catch_ReturnsE split: prod.splits
        dest!: on_world_c_quiet simp: quiet_runner dest: stop close serve_registered_quiet)
qed

section \<open>Properties\<close>

text \<open>
  A removal that is not reported goes unnoticed. The handler for removed containers looks at
  the variable \<open>err\<close> of the server, which is nil once the worker is registered, instead of the
  error of its own call: whatever happens while the server runs, no error reaches the channel,
  no handler waits for it, and a registered server never ends with an error, so the load
  balancer may keep a container that is gone.
\<close>

theorem worker_removal_unreported:
  assumes "startServer env reserved poolID lbAddr events s = Returns (r, s')" "wp_blocked s = 0"
  shows "wp_errCh s' = [] \<and> wp_blocked s' = 0 \<and> r \<noteq> Inr (Some (True, Some e))"
  using startServer_quiet [OF assms] by (auto simp: quiet_def)

text \<open>A load balancer that cannot be told about removed containers.\<close>

definition toy_worker_env :: "string list worker_cmd_env" where
  "toy_worker_env = \<lparr>wv_Listen = eff_return 8123, wv_Dial = \<lambda>_. eff_return 0, wv_CloseConn = \<lambda>_. eff_return (),
     wv_GracefulStop = eff_return (), wv_ContainerRemoved = \<lambda>_ _. eff_fail EDeadlineExceeded,
     wv_Register = \<lambda>_ _. eff_return (), wv_Disconnect = \<lambda>_ _. eff_return (), wv_Heartbeat = \<lambda>_ _ _. eff_return (),
     wv_AvailableMemory = \<lambda>_. 0\<rparr>"

theorem worker_removal_unreported_witness:
  "\<exists>s'. startServer toy_worker_env 200 ''p'' ''lb'' [EvRemoved toy_definition ''c'', EvErr, EvTick, EvStop]
      \<lparr>wp_runner = toy_runner, wp_err = None, wp_errCh = [], wp_blocked = 0\<rparr> = Returns (Inr (Some (True, None)), s') \<and>
    wp_errCh s' = [] \<and> wp_blocked s' = 0"
proof -
  let ?s = "\<lparr>wp_runner = toy_runner, wp_err = None, wp_errCh = [], wp_blocked = 0\<rparr>"
  have "\<exists>s'. startServer toy_worker_env 200 ''p'' ''lb'' [EvRemoved toy_definition ''c'', EvErr, EvTick, EvStop] ?s =
      Returns (Inr (Some (True, None)), s')"
    by (simp add: startServer_def serve_registered_def removed_handler_def deferred_close_def deferred_stop_def toy_worker_env_def
        on_world_c_def on_runner_def on_world_r_def proc_eval lift_eff_def)
  then obtain s' where run: "startServer toy_worker_env 200 ''p'' ''lb'' [EvRemoved toy_definition ''c'', EvErr, EvTick, EvStop] ?s =
      Returns (Inr (Some (True, None)), s')" ..
  from run worker_removal_unreported [OF run] show ?thesis by auto
qed


end
