(* ===== verification/Worker_Main.thy ===== *)
theory Worker_Main
  imports Command_Line Worker_Cmd Repo_Spec
begin

text \<open>
  The command \<open>worker\<close> (cmd/worker.go) as a whole: its flags and options, the start of the docker
  manager, the file repository and the runner, the loop of \<open>Worker_Cmd\<close>, and the shutdown; and
  what a load balancer makes of a worker's registration.
\<close>

section \<open>Flags\<close>

definition worker_flags :: "cli_flag list" where
  "worker_flags =
     [flag ''heartbeat'' [''b''] ''HEARTBEAT'' (DurationFlag (5 * 10 ^ 9)),
      flag ''redis-addr'' [] ''REDIS_ADDR'' (StringFlag ''redis:6379''),
      flag ''host-storage-path'' [''hpath''] ''HOST_STORAGE_PATH'' (StringFlag (ro_HostStoragePath DefaultRunnerOptions)),
      flag ''prune-images'' [] ''PRUNE_IMAGES'' (BoolFlag False),
      flag ''use-existing-images'' [] ''USE_EXISTING_IMAGES'' (BoolFlag False),
      flag ''concurrency'' [''c''] ''CONCURRENCY'' (UintFlag (ro_Concurrency DefaultRunnerOptions)),
      flag ''cpu'' [] ''MCPU'' (UintFlag (ro_MCPU DefaultRunnerOptions)),
      flag ''iops'' [] ''IOPS'' (UintFlag (ro_NodeIOPS DefaultRunnerOptions)),
      flag ''memory-limit'' [''m''] ''MEMORY'' (IntFlag (MemoryLimit (ro_Constraints DefaultRunnerOptions))),
      flag ''memory-margin'' [] ''MEMORY_MARGIN'' (UintFlag (ro_MemoryMargin DefaultRunnerOptions)),
      flag ''ratelimit-capacity'' [] ''RATELIMIT_CAPACITY'' (IntFlag (ro_StreamCapacityLimit DefaultRunnerOptions)),
      flag ''ratelimit-quantum'' [] ''RATELIMIT_QUANTUM'' (IntFlag (ro_StreamPerMinuteQuantum DefaultRunnerOptions)),
      flag ''create-timeout'' [] ''CREATE_TIMEOUT'' (DurationFlag (ro_CreateTimeout DefaultRunnerOptions)),
      flag ''create-retry-count'' [] ''CREATE_RETRY_COUNT'' (IntFlag (ro_CreateRetryCount DefaultRunnerOptions)),
      flag ''create-retry-sleep'' [] ''CREATE_RETRY_SLEEP'' (DurationFlag (ro_CreateRetrySleep DefaultRunnerOptions)),
      flag ''container-ttl'' [''l''] ''CONTAINER_TTL'' (DurationFlag (ro_ContainerTTL DefaultRunnerOptions)),
      flag ''containers-capacity'' [''cap''] ''CONTAINERS_CAPACITY'' (IntFlag (ro_ContainersCapacity DefaultRunnerOptions)),
      flag ''stream-max-length'' [] ''STREAM_MAX_LENGTH'' (IntFlag (ro_StreamMaxLength DefaultRunnerOptions)),
      flag ''docker-network'' [] ''DOCKER_NETWORK'' (StringFlag (Network DefaultDockerOptions)),
      flag ''docker-network-subnet'' [] ''DOCKER_NETWORK_SUBNET'' (StringFlag (NetworkSubnet DefaultDockerOptions)),
      flag ''docker-reserved-cpu'' [] ''DOCKER_RESERVED_CPU'' (UintFlag (ReservedMCPU DefaultDockerOptions)),
      flag ''docker-blkio-device'' [] ''DOCKER_DEVICE'' (StringFlag (BlkioDevice DefaultDockerOptions)),
      flag ''docker-dns'' [] ''DOCKER_DNS'' (SliceFlag (DNS DefaultDockerOptions)),
      flag ''docker-extra-hosts'' [] ''DOCKER_EXTRA_HOSTS'' (SliceFlag []),
      flag ''repo-path'' [''rpath''] ''REPO_PATH'' (StringFlag (BasePath DefaultRepoOptions)),
      flag ''repo-max-disk-usage'' [''rdu''] ''REPO_MAX_DISK_USAGE'' (FloatFlag (MaxDiskUsage DefaultRepoOptions)),
      flag ''repo-ttl'' [''rttl''] ''REPO_TTL'' (DurationFlag (TTL DefaultRepoOptions)),
      flag ''repo-capacity'' [''rcap''] ''REPO_CAPACITY'' (IntFlag (Capacity DefaultRepoOptions)),
      flag ''lb-addr'' [''lb''] ''LB_ADDR'' (StringFlag ''127.0.0.1:9000''),
      flag ''cache-max-key'' [] ''CACHE_MAX_KEY'' (IntFlag (MaxKeyLen DefaultUserCacheConstraints)),
      flag ''cache-max-value'' [] ''CACHE_MAX_VALUE'' (IntFlag (MaxValueLen DefaultUserCacheConstraints)),
      flag ''cache-cardinality-limit'' [] ''CACHE_CARDINALITY_LIMIT'' (IntFlag (CardinalityLimit DefaultUserCacheConstraints)),
      flag ''cache-size-limit'' [] ''CACHE_SIZE_LIMIT'' (IntFlag (SizeLimit DefaultUserCacheConstraints)),
      flag ''cache-default-timeout'' [] ''CACHE_DEFAULT_TIMEOUT'' (DurationFlag (DefaultTimeout DefaultUserCacheConstraints)),
      flag ''cache-ratelimit-capacity'' [] ''CACHE_RATELIMIT_CAPACITY'' (IntFlag (ro_UserCacheStreamCapacityLimit DefaultRunnerOptions)),
      flag ''cache-ratelimit-quantum'' [] ''CACHE_RATELIMIT_QUANTUM'' (IntFlag (ro_UserCacheStreamPerMinuteQuantum DefaultRunnerOptions))]"

text \<open>
  The structs the flags write to; the two lists of the docker options are copied by the
  action. What has no flag is zero: of the constraints all but the memory.
\<close>

record worker_settings =
  ws_docker :: docker_options
  ws_runner :: runner_options
  ws_repo :: repo_options

definition worker_settings_of :: "cli_context \<Rightarrow> worker_settings" where
  "worker_settings_of c =
     \<lparr>ws_docker = \<lparr>BlkioDevice = flag_string (c ''docker-blkio-device''), Network = flag_string (c ''docker-network''),
        NetworkSubnet = flag_string (c ''docker-network-subnet''), ReservedMCPU = flag_uint (c ''docker-reserved-cpu''),
        DNS = flag_slice (c ''docker-dns''), ExtraHosts = flag_slice (c ''docker-extra-hosts'')\<rparr>,
      ws_runner = \<lparr>ro_Concurrency = flag_uint (c ''concurrency''), ro_MCPU = flag_uint (c ''cpu''),
        ro_NodeIOPS = flag_uint (c ''iops''), ro_MemoryMargin = flag_uint (c ''memory-margin''),
        ro_StreamMaxLength = flag_int (c ''stream-max-length''), ro_CreateTimeout = flag_int (c ''create-timeout''),
        ro_CreateRetryCount = flag_int (c ''create-retry-count''), ro_CreateRetrySleep = flag_int (c ''create-retry-sleep''),
        ro_PruneImages = flag_bool (c ''prune-images''), ro_UseExistingImages = flag_bool (c ''use-existing-images''),
        ro_Constraints = \<lparr>CPULimit = 0, CPUPeriod = 0, CPUQuota = 0, IOPSLimit = 0,
          MemoryLimit = flag_int (c ''memory-limit''), MemorySwapLimit = 0, PidLimit = 0, NofileUlimit = 0, StorageLimit = []\<rparr>,
        ro_UserCacheConstraints = Some \<lparr>MaxKeyLen = flag_int (c ''cache-max-key''), MaxValueLen = flag_int (c ''cache-max-value''),
          CardinalityLimit = flag_int (c ''cache-cardinality-limit''), SizeLimit = flag_int (c ''cache-size-limit''),
          DefaultTimeout = flag_int (c ''cache-default-timeout'')\<rparr>,
        ro_ContainerTTL = flag_int (c ''container-ttl''), ro_ContainersCapacity = flag_int (c ''containers-capacity''),
        ro_HostStoragePath = flag_string (c ''host-storage-path''),
        ro_StreamCapacityLimit = flag_int (c ''ratelimit-capacity''),
        ro_StreamPerMinuteQuantum = flag_int (c ''ratelimit-quantum''),
        ro_UserCacheStreamCapacityLimit = flag_int (c ''cache-ratelimit-capacity''),
        ro_UserCacheStreamPerMinuteQuantum = flag_int (c ''cache-ratelimit-quantum'')\<rparr>,
      ws_repo = \<lparr>BasePath = flag_string (c ''repo-path''), MaxDiskUsage = flag_int (c ''repo-max-disk-usage''),
        TTL = flag_int (c ''repo-ttl''), Capacity = flag_int (c ''repo-capacity''), CleanupInterval = 0,
        StoreLockTimeout = 0\<rparr>\<rparr>"

section \<open>The process\<close>

text \<open>
  The environment: the three merges, what the parts start with, the docker client (which may
  not come up), and the calls of \<open>Worker_Cmd\<close>. The runner's environment is a parameter of which
  the manager is replaced by the one that was made.
\<close>

record ('k, 'c, 'w) worker_main_env =
  ww_docker_merge :: "docker_options \<Rightarrow> docker_options \<Rightarrow> docker_options"
  ww_repo_merge :: "repo_options \<Rightarrow> repo_options \<Rightarrow> repo_options"
  ww_runner_merge :: "runner_options \<Rightarrow> runner_options \<Rightarrow> runner_options"
  ww_NewClient :: "('w, unit) eff"
  ww_no_files :: 'c
  ww_no_conts :: 'k
  ww_globals :: cache_globals
  ww_runner :: "('k, 'c, 'w) runner_env"
  ww_worker :: "'w worker_cmd_env"
  ww_CloseRedis :: "('w, unit) eff"

definition worker_start ::
  "('k, 'c, 'w) worker_main_env \<Rightarrow> cli_context \<Rightarrow> 'w
   \<Rightarrow> ((('k, 'c, 'w) worker_proc \<times> ('k, 'c, 'w) runner_env) result \<times> 'w) outcome" where
  "worker_start env c w =
     (let o' = worker_settings_of c; renv = ww_runner env in
      case ww_NewClient env w of
        (Inl e, w1) \<Rightarrow> Returns (Inl e, w1)
      | (Inr _, w1) \<Rightarrow>
          bind_outcome (NewManager (ww_docker_merge env) (Some (ws_docker o')) (re_docker renv) w1) (\<lambda>(r, w2). case r of
            Inl e \<Rightarrow> Returns (Inl e, w2)
          | Inr mgr \<Rightarrow>
          bind_outcome (NewRepo (ww_repo_merge env) (Some (ws_repo o')) (re_fs renv) (ww_no_files env) w2) (\<lambda>repo.
          bind_outcome (NewRunner (ww_runner_merge env) (Some (ws_runner o')) mgr (re_CheckFreeMemory renv) (ww_no_conts env)
              (ww_globals env) 0 repo) (\<lambda>(r, w3). case r of
            Inl e \<Rightarrow> Returns (Inl e, w3)
          | Inr runner \<Rightarrow>
          bind_outcome (DownloadAllImages (renv\<lparr>re_mgr := mgr\<rparr>) runner) (\<lambda>(r, runner').
            let w4 = fs_world (rn_repo runner') in
            case r of
              Inl e \<Rightarrow> Returns (Inl e, w4)
            | Inr _ \<Rightarrow> Returns (Inr (\<lparr>wp_runner = runner', wp_err = None, wp_errCh = [], wp_blocked = 0\<rparr>,
                renv\<lparr>re_mgr := mgr\<rparr>), w4))))))"

text \<open>
  The loop with the options of the command line: the CPU kept back at the registration is
  that of the flag, not that of the manager.
\<close>

definition worker_serve ::
  "('k, 'c, 'w) worker_main_env \<Rightarrow> ('k, 'c, 'w) runner_env \<Rightarrow> cli_context \<Rightarrow> (worker_event list \<times> bool) list
   \<Rightarrow> ('k, 'c, 'w, unit) wcproc" where
  "worker_serve env renv c rounds =
     worker_loop (ww_worker env) renv (ReservedMCPU (ws_docker (worker_settings_of c))) (flag_string (c ''lb-addr''))
       rounds True []"

definition worker_stop ::
  "('k, 'c, 'w) worker_main_env \<Rightarrow> ('k, 'c, 'w) runner_env \<Rightarrow> ('k, 'c, 'w, unit) wcproc" where
  "worker_stop env renv =
     andThen (on_runner (runner_Shutdown renv)) (\<lambda>_.
     andThen (on_runner (on_files (repo_Shutdown (re_files renv) (re_fs renv)))) (\<lambda>_.
     andThen (attempt (on_world_c (ww_CloseRedis env))) (\<lambda>_. return ())))"

definition worker_run ::
  "('k, 'c, 'w) worker_main_env \<Rightarrow> ('k, 'c, 'w) runner_env \<Rightarrow> cli_context \<Rightarrow> (worker_event list \<times> bool) list
   \<Rightarrow> ('k, 'c, 'w, unit) wcproc" where
  "worker_run env renv c rounds = andThen (worker_serve env renv c rounds) (\<lambda>_. worker_stop env renv)"

section \<open>Facts\<close>

lemma worker_flags_apply: "flags_apply worker_flags = Returns ()"
  by (simp add: flags_apply_def flag_names_def worker_flags_def flag_def)

end
