(* ===== verification/Worker_Plug.thy ===== *)
theory Worker_Plug
  imports Worker_Main
begin

text \<open>
  A worker plugged into a load balancer: \<open>startServer\<close> of cmd/worker.go with the handlers of
  app/lb/server.go at the other end of its connection.
\<close>

section \<open>The connection\<close>

text \<open>
  A call over gRPC runs the handler. A handler that panics or waits for ever gives no answer,
  and the call ends at its deadline.
\<close>

definition grpc_call :: "('s, 'a) proc \<Rightarrow> ('s, 'a) eff" where
  "grpc_call m = (\<lambda>s. case m s of Returns (r, s') \<Rightarrow> (r, s') | Panics \<Rightarrow> (Inl EDeadlineExceeded, s)
     | Blocks \<Rightarrow> (Inl EDeadlineExceeded, s))"

definition plug_env :: "hasher \<Rightarrow> 'c workers_cache \<Rightarrow> string \<Rightarrow> int \<Rightarrow> u64 \<Rightarrow> 'c lb_server worker_cmd_env" where
  "plug_env h lc peer port mem =
     \<lparr>wv_Listen = eff_return port, wv_Dial = \<lambda>_. eff_return 0, wv_CloseConn = \<lambda>_. eff_return (),
      wv_GracefulStop = eff_return (),
      wv_ContainerRemoved = \<lambda>_ req. grpc_call (lb_ContainerRemoved h lc req),
      wv_Register = \<lambda>_ req. grpc_call (lb_Register h lc True peer req),
      wv_Disconnect = \<lambda>_ pid. grpc_call (lb_Disconnect h lc pid),
      wv_Heartbeat = \<lambda>_ pid m. grpc_call (lb_Heartbeat lc pid m),
      wv_AvailableMemory = \<lambda>_. mem\<rparr>"

lemma plug_env_calls:
  "wv_Listen (plug_env h lc peer port mem) w = (Inr port, w)"
  "wv_Dial (plug_env h lc peer port mem) a w = (Inr 0, w)"
  "wv_CloseConn (plug_env h lc peer port mem) n w = (Inr (), w)"
  "wv_GracefulStop (plug_env h lc peer port mem) w = (Inr (), w)"
  "wv_Register (plug_env h lc peer port mem) n req = grpc_call (lb_Register h lc True peer req)"
  "wv_Disconnect (plug_env h lc peer port mem) n pid = grpc_call (lb_Disconnect h lc pid)"
  "wv_Heartbeat (plug_env h lc peer port mem) n pid m = grpc_call (lb_Heartbeat lc pid m)"
  "wv_AvailableMemory (plug_env h lc peer port mem) w = mem"
  by (simp_all add: plug_env_def)

lemma grpc_call_Returns: "m s = Returns (r, s') \<Longrightarrow> grpc_call m s = (r, s')"
  by (simp add: grpc_call_def)

section \<open>The worker at the load balancer\<close>

text \<open>What the load balancer knows of the worker \<open>k\<close> while it is registered.\<close>

definition plugged ::
  "('c \<Rightarrow> string \<Rightarrow> nat option) \<Rightarrow> string \<Rightarrow> u32 \<Rightarrow> u64 \<Rightarrow> string \<times> int \<Rightarrow> 'c lb_server \<Rightarrow> 'c lb_server \<Rightarrow> bool" where
  "plugged ent pid cpu mem addr s0 s \<longleftrightarrow>
     (let k = next_wk s0; w = wk s k in
        ent (lb_workers s) = (ent (lb_workers s0))(pid \<mapsto> k) \<and> w_freeCPU w = cpu \<and> w_freeMemory w = mem \<and>
        w_alive w \<and> w_Addr w = addr \<and> w_scripts w = [] \<and>
        metric_CPU s = metric_CPU s0 + ucast cpu \<and> metric_Count s = metric_Count s0 + 1)"

lemma register_plugs:
  assumes doc: "workers_documented lc ent" and fits: "fst (lc_Set lc (rg_Id req) (next_wk s) (lb_workers s)) = []"
  obtains s' where "lb_Register h lc True peer req s = Returns (Inr (), s')"
    "plugged ent (rg_Id req) (rg_Mcpu req) (rg_Memory req) (peer, rg_Port req) s s'"
proof -
  obtain c' where c': "lc_Set lc (rg_Id req) (next_wk s) (lb_workers s) = ([], c')"
    using fits by (metis prod.collapse)
  then have "ent c' (rg_Id req) = Some (next_wk s) \<and> (\<forall>j. j \<noteq> rg_Id req \<longrightarrow> ent c' j = ent (lb_workers s) j)"
    using doc unfolding workers_documented_def by fastforce
  then have "ent c' = (ent (lb_workers s))(rg_Id req \<mapsto> next_wk s)" by auto
  then show thesis
    using that c'
    by (fastforce simp: lb_Register_def NewWorker_def Let_def workers_op_def add_metric_CPU_def plugged_def)
qed

lemma heartbeat_plugged:
  assumes doc: "workers_documented lc ent" and "plugged ent pid cpu mem addr s0 s"
  obtains s' where "lb_Heartbeat lc pid m s = Returns (Inr (), s')" "plugged ent pid cpu mem addr s0 s'"
proof -
  obtain r c' where get: "lc_Get lc pid (lb_workers s) = (r, c')" by fastforce
  with workers_docD(1) [OF doc get] assms(2) have "r = Some (next_wk s0)" "ent c' = ent (lb_workers s)"
    by (auto simp: plugged_def Let_def)
  then show thesis
    using that get assms(2)
    by (auto simp: lb_Heartbeat_def workers_Get_def w_Heartbeat_def set_worker_def plugged_def Let_def)
qed

lemma disconnect_plugged:
  assumes doc: "workers_documented lc ent" and "plugged ent pid cpu mem addr s0 s"
  obtains s' where "lb_Disconnect h lc pid s = Returns (Inr (), s')"
    "ent (lb_workers s') = (ent (lb_workers s0))(pid := None)" "\<not> Alive s' (next_wk s0)"
    "metric_CPU s' = metric_CPU s0 + ucast cpu - scast cpu" "metric_Count s' = metric_Count s0"
proof -
  obtain ok ev c' where del: "lc_Delete lc pid (lb_workers s) = (ok, ev, c')" by (metis prod_cases3)
  have "ent (lb_workers s) pid = Some (next_wk s0)" using assms(2) by (simp add: plugged_def Let_def)
  note gone = workers_doc_Delete [OF doc del this]
  have "ent c' = (ent (lb_workers s0))(pid := None)" using gone(2) assms(2) by (auto simp: plugged_def Let_def)
  with gone(1) del show thesis
    using that assms(2)
    by (simp add: lb_Disconnect_def workers_op_def onEvictedWorkerHandler_def w_Shutdown_def Let_def plugged_def
        add_metric_CPU_def set_worker_def Alive_def)
qed

section \<open>The session\<close>

text \<open>Where the calls of a worker leave its load balancer.\<close>

definition in_world :: "('k, 'c, 'w) worker_proc \<Rightarrow> 'w \<Rightarrow> ('k, 'c, 'w) worker_proc" where
  "in_world s w = s\<lparr>wp_runner := (wp_runner s)\<lparr>rn_repo := (rn_repo (wp_runner s))\<lparr>fs_world := w\<rparr>\<rparr>\<rparr>"

lemma in_world_simps [simp]:
  "world_of (in_world s w) = w" "in_world (in_world s v) w = in_world s w" "in_world s (world_of s) = s"
  "rn_options (wp_runner (in_world s w)) = rn_options (wp_runner s)"
  by (simp_all add: in_world_def world_of_def)

lemma on_world_c_run: "m (world_of s) = (r, w) \<Longrightarrow> on_world_c m s = Returns (r, in_world s w)"
  by (simp add: on_world_c_def on_runner_def on_world_r_def lift_eff_def in_world_def world_of_def)

lemma on_grpc_call: "m (world_of s) = Returns (r, w) \<Longrightarrow> on_world_c (grpc_call m) s = Returns (r, in_world s w)"
  by (rule on_world_c_run) (rule grpc_call_Returns)

lemma ticks_plugged:
  assumes doc: "workers_documented lc ent"
  shows "plugged ent pid cpu mem addr s0 (world_of s) \<Longrightarrow>
    \<exists>w. plugged ent pid cpu mem addr s0 w \<and>
      (\<forall>es. serve_loop (plug_env h lc peer port m) conn pid (replicate n EvTick @ es) s =
      serve_loop (plug_env h lc peer port m) conn pid es (in_world s w))"
proof (induction n arbitrary: s)
  case 0
  then show ?case by (intro exI [of _ "world_of s"]) simp
next
  case (Suc n)
  obtain w where w: "lb_Heartbeat lc pid m (world_of s) = Returns (Inr (), w)" "plugged ent pid cpu mem addr s0 w"
    using heartbeat_plugged [OF doc Suc.prems] by blast
  note beat = on_grpc_call [where m = "lb_Heartbeat lc pid m", OF w(1)]
  from Suc.IH [of "in_world s w"] w(2) obtain v where "plugged ent pid cpu mem addr s0 v"
    "\<forall>es. serve_loop (plug_env h lc peer port m) conn pid (replicate n EvTick @ es) (in_world s w) =
     serve_loop (plug_env h lc peer port m) conn pid es (in_world s v)" by auto
  with beat show ?case by (intro exI [of _ v]) (simp add: plug_env_calls proc_eval)
qed

text \<open>The server of the worker once it has set up its connection, and what its registration gives.\<close>

lemma startServer_registered:
  assumes "lb_Register h lc True peer (register_message pid port reserved (rn_options (wp_runner p)) mem) (world_of p) =
    Returns (Inr (), lb)"
  obtains q where "\<And>es. startServer (plug_env h lc peer port mem) reserved pid addr es p =
    serve_registered (plug_env h lc peer port mem) 0 pid es (in_world q lb)"
proof -
  let ?env = "plug_env h lc peer port mem"
  define p1 where "p1 = p\<lparr>wp_err := None, wp_errCh := []\<rparr>"
  define p2 where "p2 = p1\<lparr>wp_runner := OnContainerRemoved True (wp_runner p1)\<rparr>"
  have w: "world_of p1 = world_of p" "world_of p2 = world_of p" "rn_options (wp_runner p2) = rn_options (wp_runner p)"
    by (simp_all add: p1_def p2_def world_of_def OnContainerRemoved_def)
  have 1: "on_world_c (wv_Listen ?env) p1 = Returns (Inr port, p1)" "on_world_c (wv_Dial ?env addr) p1 = Returns (Inr 0, p1)"
    using on_world_c_run [of "wv_Listen ?env" p1] on_world_c_run [of "wv_Dial ?env addr" p1] by (simp_all add: plug_env_calls)
  have 2: "on_runner (modify (OnContainerRemoved True)) p1 = Returns (Inr (), p2)"
    by (simp add: on_runner_modify p2_def)
  have 3: "on_world_c (wv_Register ?env 0 (register_message pid port reserved (rn_options (wp_runner p2)) mem)) p2 =
      Returns (Inr (), in_world p2 lb)"
    unfolding plug_env_calls by (rule on_grpc_call) (simp add: w assms)
  show thesis
  proof (rule that)
    fix es
    show "startServer ?env reserved pid addr es p = serve_registered ?env 0 pid es (in_world p2 lb)"
      using 1 2 3 by (simp add: startServer_def proc_run p1_def [symmetric] plug_env_calls proc_eval(5-))
  qed
qed


lemma session:
  fixes p :: "('k, 'e, 'c lb_server) worker_proc"
  assumes doc: "workers_documented lc ent"
    and fits: "fst (lc_Set lc pid (next_wk (world_of p)) (lb_workers (world_of p))) = []"
  obtains p1 p2 where
    "startServer (plug_env h lc peer port mem) reserved pid addr (replicate n EvTick) p = Returns (Inr None, p1)"
    "plugged ent pid (ucast (ro_MCPU (rn_options (wp_runner p)) - reserved)) mem (peer, port) (world_of p) (world_of p1)"
    "startServer (plug_env h lc peer port mem) reserved pid addr (replicate n EvTick @ [EvStop]) p =
       Returns (Inr (Some (True, None)), p2)"
    "lb_Disconnect h lc pid (world_of p1) = Returns (Inr (), world_of p2)"
proof -
  let ?env = "plug_env h lc peer port mem" and ?req = "register_message pid port reserved (rn_options (wp_runner p)) mem"
  obtain lb where lb: "lb_Register h lc True peer ?req (world_of p) = Returns (Inr (), lb)"
    "plugged ent pid (ucast (ro_MCPU (rn_options (wp_runner p)) - reserved)) mem (peer, port) (world_of p) lb"
    using register_plugs [OF doc, of ?req "world_of p"] fits by (auto simp: register_message_def)
  obtain q where q: "startServer ?env reserved pid addr es p = serve_registered ?env 0 pid es (in_world q lb)" for es
    using startServer_registered [OF lb(1)] by blast
  from lb(2) have "plugged ent pid (ucast (ro_MCPU (rn_options (wp_runner p)) - reserved)) mem (peer, port) (world_of p)
    (world_of (in_world q lb))" by simp
  from ticks_plugged [OF doc this, of h peer port mem 0 n] obtain v
    where v: "plugged ent pid (ucast (ro_MCPU (rn_options (wp_runner p)) - reserved)) mem (peer, port) (world_of p) v"
      and ticks: "serve_loop ?env 0 pid (replicate n EvTick @ es) (in_world q lb) = serve_loop ?env 0 pid es (in_world q v)" for es
    by auto
  obtain u where u: "lb_Disconnect h lc pid v = Returns (Inr (), u)" using disconnect_plugged [OF doc v] by blast
  have leave: "on_world_c (wv_Disconnect ?env 0 pid) (in_world q v) = Returns (Inr (), in_world q u)"
    unfolding plug_env_calls using on_grpc_call [where m = "lb_Disconnect h lc pid" and s = "in_world q v"] u by simp
  have close: "on_world_c (wv_CloseConn ?env 0) s = Returns (Inr (), s)" "on_world_c (wv_GracefulStop ?env) s = Returns (Inr (), s)"
    for s :: "('k, 'e, 'c lb_server) worker_proc"
    using on_world_c_run [of "wv_CloseConn ?env 0" s] on_world_c_run [of "wv_GracefulStop ?env" s]
    by (simp_all add: plug_env_calls)
  show thesis
  proof (rule that)
    show "startServer ?env reserved pid addr (replicate n EvTick) p = Returns (Inr None, in_world q v)"
      using ticks [of "[]"] by (simp add: q serve_registered_def proc_eval)
    show "startServer ?env reserved pid addr (replicate n EvTick @ [EvStop]) p = Returns (Inr (Some (True, None)), in_world q u)"
      using ticks [of "[EvStop]"] leave close
      by (simp add: q serve_registered_def deferred_close_def deferred_stop_def proc_eval)
  qed (use v u in simp_all)
qed


section \<open>The CPU of a registration\<close>

lemma registered_CPU:
  fixes a b :: u64
  assumes "b \<le> a" "uint a < 2 ^ 31"
  shows "sint (ucast (a - b) :: i32) = uint a - uint b" "(ucast (ucast (a - b) :: u32) :: i64) = scast (ucast (a - b) :: i32)"
proof -
  have diff: "uint (a - b) = uint a - uint b" using assms(1) by (simp add: uint_sub_lem word_le_def)
  have "uint b \<le> uint a" using assms(1) by (simp add: word_le_def)
  then have pos: "0 \<le> uint a - uint b" "uint a - uint b < 2 ^ 31" using assms(2) uint_ge_0 [of b] by linarith+
  then have u: "uint (ucast (a - b) :: u32) = uint a - uint b" by (simp add: unsigned_ucast_eq diff take_bit_eq_mod)
  then show s: "sint (ucast (a - b) :: i32) = uint a - uint b"
    using pos by (simp add: sint_uint signed_take_bit_eq_take_bit_shift take_bit_eq_mod)
  have "(ucast (ucast (a - b) :: u32) :: i64) = word_of_int (uint (ucast (a - b) :: u32))" by simp
  also have "\<dots> = word_of_int (sint (ucast (a - b) :: i32))" by (simp only: u s)
  finally show "(ucast (ucast (a - b) :: u32) :: i64) = scast (ucast (a - b) :: i32)" by simp
qed

lemma registered_CPU_wraps:
  fixes a b :: u64
  assumes "a < b" "uint b - uint a \<le> 2 ^ 31"
  shows "sint (ucast (a - b) :: i32) = uint a - uint b"
    "(ucast (ucast (a - b) :: u32) :: i64) = scast (ucast (a - b) :: i32) + 2 ^ 32"
proof -
  have less: "uint a - uint b < 0" using assms(1) by (simp add: word_less_def)
  have "uint (a - b) = (uint a - uint b) mod 2 ^ 64" by (simp add: uint_word_ariths)
  then have "uint (ucast (a - b) :: u32) = (uint a - uint b) mod 2 ^ 32"
    by (simp add: unsigned_ucast_eq take_bit_eq_mod mod_mod_cancel)
  also have "\<dots> = (uint a - uint b + 2 ^ 32) mod 2 ^ 32" by simp
  also have "\<dots> = uint a - uint b + 2 ^ 32" using less assms(2) by (intro mod_pos_pos_trivial) simp_all
  finally have u: "uint (ucast (a - b) :: u32) = uint a - uint b + 2 ^ 32" .
  have "(uint a - uint b + 2 ^ 32 + 2 ^ 31) mod 2 ^ 32 = (uint a - uint b + 2 ^ 31 + 2 ^ 32) mod 2 ^ 32"
    by (simp add: add.commute add.left_commute)
  also have "\<dots> = (uint a - uint b + 2 ^ 31) mod 2 ^ 32" by (rule mod_add_self2)
  also have "\<dots> = uint a - uint b + 2 ^ 31" using less assms(2) by (intro mod_pos_pos_trivial) simp_all
  finally show s: "sint (ucast (a - b) :: i32) = uint a - uint b"
    using u by (simp add: sint_uint signed_take_bit_eq_take_bit_shift take_bit_eq_mod)
  have "(ucast (ucast (a - b) :: u32) :: i64) = word_of_int (uint (ucast (a - b) :: u32))" by simp
  also have "\<dots> = word_of_int (sint (ucast (a - b) :: i32) + 2 ^ 32)" by (simp only: u s)
  finally show "(ucast (ucast (a - b) :: u32) :: i64) = scast (ucast (a - b) :: i32) + 2 ^ 32" by simp
qed


section \<open>Properties\<close>

text \<open>
  C15: the visit of a worker at its load balancer. While it sends its heartbeats the load
  balancer holds one more worker, under the worker's pool, at its address, alive, with the CPU
  of the command line less what is kept back free; a heartbeat does not change the free
  memory it registered with. When the worker is stopped, its entry is gone, and the two
  gauges are what they were before it came.
\<close>

theorem worker_session_roundtrip:
  fixes p :: "('k, 'e, 'c lb_server) worker_proc"
  assumes doc: "workers_documented lc ent"
    and fits: "fst (lc_Set lc pid (next_wk (world_of p)) (lb_workers (world_of p))) = []"
    and cpu: "reserved \<le> ro_MCPU (rn_options (wp_runner p))" "uint (ro_MCPU (rn_options (wp_runner p))) < 2 ^ 31"
  shows "\<exists>p1 p2.
    startServer (plug_env h lc peer port mem) reserved pid addr (replicate n EvTick) p = Returns (Inr None, p1) \<and>
    ent (lb_workers (world_of p1)) = (ent (lb_workers (world_of p)))(pid \<mapsto> next_wk (world_of p)) \<and>
    Alive (world_of p1) (next_wk (world_of p)) \<and> FreeMemory (world_of p1) (next_wk (world_of p)) = mem \<and>
    w_Addr (wk (world_of p1) (next_wk (world_of p))) = (peer, port) \<and>
    FreeCPU (world_of p1) (next_wk (world_of p)) = uint (ro_MCPU (rn_options (wp_runner p))) - uint reserved \<and>
    metric_Count (world_of p1) = metric_Count (world_of p) + 1 \<and>
    startServer (plug_env h lc peer port mem) reserved pid addr (replicate n EvTick @ [EvStop]) p =
      Returns (Inr (Some (True, None)), p2) \<and>
    ent (lb_workers (world_of p2)) = (ent (lb_workers (world_of p)))(pid := None) \<and>
    \<not> Alive (world_of p2) (next_wk (world_of p)) \<and>
    metric_CPU (world_of p2) = metric_CPU (world_of p) \<and> metric_Count (world_of p2) = metric_Count (world_of p)"
proof -
  let ?lb = "world_of p"
  obtain p1 p2 where run: "startServer (plug_env h lc peer port mem) reserved pid addr (replicate n EvTick) p = Returns (Inr None, p1)"
    "startServer (plug_env h lc peer port mem) reserved pid addr (replicate n EvTick @ [EvStop]) p =
      Returns (Inr (Some (True, None)), p2)"
    and at: "plugged ent pid (ucast (ro_MCPU (rn_options (wp_runner p)) - reserved)) mem (peer, port) ?lb (world_of p1)"
    and leave: "lb_Disconnect h lc pid (world_of p1) = Returns (Inr (), world_of p2)"
    by (rule session [OF doc fits])
  obtain lb where "lb_Disconnect h lc pid (world_of p1) = Returns (Inr (), lb)" and
    left: "ent (lb_workers lb) = (ent (lb_workers ?lb))(pid := None)" "\<not> Alive lb (next_wk ?lb)"
    "metric_CPU lb = metric_CPU ?lb" "metric_Count lb = metric_Count ?lb"
    using disconnect_plugged [OF doc at, of h] registered_CPU(2) [OF cpu] by auto
  with leave have "lb = world_of p2" by simp
  with left run at registered_CPU(1) [OF cpu] show ?thesis
    by (intro exI [of _ p1] exI [of _ p2]) (simp add: plugged_def Let_def Alive_def FreeMemory_def FreeCPU_def)
qed

text \<open>
  C31: a worker that keeps back more CPU than it has. The difference wraps: the load balancer
  sees a negative free CPU, and as the worker comes its gauge of the free CPU is raised by the
  unsigned number, but lowered by the signed one as it leaves: every visit leaves 2^32 millicpus
  behind that no worker has.
\<close>

theorem worker_reserve_wraps:
  fixes p :: "('k, 'e, 'c lb_server) worker_proc"
  assumes doc: "workers_documented lc ent"
    and fits: "fst (lc_Set lc pid (next_wk (world_of p)) (lb_workers (world_of p))) = []"
    and cpu: "ro_MCPU (rn_options (wp_runner p)) < reserved"
      "uint reserved - uint (ro_MCPU (rn_options (wp_runner p))) \<le> 2 ^ 31"
  shows "\<exists>p1 p2.
    startServer (plug_env h lc peer port mem) reserved pid addr (replicate n EvTick) p = Returns (Inr None, p1) \<and>
    FreeCPU (world_of p1) (next_wk (world_of p)) < 0 \<and>
    startServer (plug_env h lc peer port mem) reserved pid addr (replicate n EvTick @ [EvStop]) p =
      Returns (Inr (Some (True, None)), p2) \<and>
    metric_CPU (world_of p2) = metric_CPU (world_of p) + 2 ^ 32"
proof -
  let ?lb = "world_of p"
  obtain p1 p2 where run: "startServer (plug_env h lc peer port mem) reserved pid addr (replicate n EvTick) p = Returns (Inr None, p1)"
    "startServer (plug_env h lc peer port mem) reserved pid addr (replicate n EvTick @ [EvStop]) p =
      Returns (Inr (Some (True, None)), p2)"
    and at: "plugged ent pid (ucast (ro_MCPU (rn_options (wp_runner p)) - reserved)) mem (peer, port) ?lb (world_of p1)"
    and leave: "lb_Disconnect h lc pid (world_of p1) = Returns (Inr (), world_of p2)"
    by (rule session [OF doc fits])
  obtain lb where "lb_Disconnect h lc pid (world_of p1) = Returns (Inr (), lb)" and
    left: "metric_CPU lb = metric_CPU ?lb + 2 ^ 32"
    using disconnect_plugged [OF doc at, of h] registered_CPU_wraps(2) [OF cpu] by auto
  with leave have "lb = world_of p2" by simp
  moreover have "FreeCPU (world_of p1) (next_wk ?lb) < 0"
    using at registered_CPU_wraps(1) [OF cpu] cpu(1) by (simp add: plugged_def Let_def FreeCPU_def word_less_def)
  ultimately show ?thesis using left run by blast
qed

text \<open>A worker with two CPUs and a load balancer without workers.\<close>

definition toy_plug :: "((string \<times> nat) list, (string \<times> string) list, ((string \<times> nat) list) lb_server) worker_proc" where
  "toy_plug =
     \<lparr>wp_runner = \<lparr>rn_poolID = ''p'', rn_running = True, rn_scriptIndex = [], rn_containerCache = [],
        rn_containerPool = [], rn_size = 2, rn_held = 0, rn_taskWaitGroup = 0, rn_onRemoved = False,
        rn_containerWait = [],
        rn_repo = \<lparr>storeID = ''id'', fileCache = [], repo_options = DefaultRepoOptions, permStore = [],
          volumes = [], storeLocks = [], next_ch = 0, closed_chs = [],
          fs_world = NewServer (\<lambda>a b. b) None [] toy_heap\<rparr>,
        rn_options = DefaultRunnerOptions, rn_workerCPU = 0,
        rn_globals = \<lparr>initOnceCache = True, redisPopCacheSHA = [], redisDecrSizeSHA = []\<rparr>,
        rn_conts = (\<lambda>c. NewContainer ''nodejs_v8''), rn_next = 0, rn_spawned = []\<rparr>,
      wp_err = None, wp_errCh = [], wp_blocked = 0\<rparr>"

lemma toy_plug_fields:
  "next_wk (world_of toy_plug) = 0" "lb_workers (world_of toy_plug) = []"
  "ro_MCPU (rn_options (wp_runner toy_plug)) = 2000"
  "metric_Count (world_of toy_plug) = 0" "metric_CPU (world_of toy_plug) = 0"
  "fst (lc_Set list_workers k v c) = []"
  by (simp_all add: toy_plug_def world_of_def NewServer_def lb_heap.defs toy_heap_def DefaultRunnerOptions_def
      list_workers_def lru_cache.defs)

theorem worker_session_roundtrip_witness:
  "\<exists>p1. startServer (plug_env toy_hasher list_workers ''10.0.0.7'' 8123 0) 250 ''p'' ''lb'' [EvTick, EvTick, EvTick] toy_plug =
      Returns (Inr None, p1) \<and> FreeCPU (world_of p1) 0 = 1750 \<and> metric_Count (world_of p1) = 1"
  using worker_session_roundtrip [OF list_workers_documented, of "''p''" toy_plug 250 toy_hasher "''10.0.0.7''" 8123 0 "''lb''" 3]
  by (auto simp: toy_plug_fields numeral_3_eq_3)

theorem worker_reserve_wraps_witness:
  "\<exists>p2. startServer (plug_env toy_hasher list_workers ''10.0.0.7'' 8123 0) 2250 ''p'' ''lb'' [EvTick, EvStop] toy_plug =
      Returns (Inr (Some (True, None)), p2) \<and> metric_CPU (world_of p2) = 2 ^ 32"
  using worker_reserve_wraps [OF list_workers_documented, of "''p''" toy_plug 2250 toy_hasher "''10.0.0.7''" 8123 0 "''lb''" 1]
  by (auto simp: toy_plug_fields)


end
