(* ===== verification/Script_Server.thy ===== *)
theory Script_Server
  imports Runner_Life Messages
begin

text \<open>
  The script server of a worker (app/script/server.go): the messages of a run are collected,
  the runner is called, and its result goes back in messages of at most two megabytes of
  content. The runner is an interface, and the docker runner one that provides it.
\<close>

section \<open>The interface\<close>

text \<open>What the server calls: \<open>Run\<close> returns a result and an error, either may be nil.\<close>

record 's script_runner =
  sr_Run :: "string \<Rightarrow> script_def option \<Rightarrow> run_options option \<Rightarrow> ('s, run_result option \<times> go_error option) proc"
  sr_DeleteContainersByID :: "index \<Rightarrow> string \<Rightarrow> ('s, container list) proc"

definition docker_script_runner :: "('k, 'c, 'w) runner_env \<Rightarrow> ('k, 'c, 'w) runner script_runner" where
  "docker_script_runner env =
     \<lparr>sr_Run = runner_Run env,
      sr_DeleteContainersByID = \<lambda>i cid. andThen (DeleteContainersByID env i cid)
        (\<lambda>cs. get_state (\<lambda>s. map (rn_conts s) cs))\<rparr>"

text \<open>The server with its runner, the client's stream, and the clock of the response.\<close>

record 's script_server =
  se_Runner :: "'s script_runner"
  se_Send :: "run_response \<Rightarrow> ('s, unit) proc"
  se_TimestampNow :: "'s \<Rightarrow> int"

definition chunkSize :: nat where
  "chunkSize = 2 * 1024 * 1024"

section \<open>Run\<close>

text \<open>
  The messages until the end of the stream: the last meta, the last chunk of arguments, and
  the files by name.
\<close>

fun read_run_requests ::
  "script_request result list \<Rightarrow> script_meta option \<Rightarrow> bytes option \<Rightarrow> (string, file_data) gomap
   \<Rightarrow> (script_meta option \<times> bytes option \<times> (string, file_data) gomap) result" where
  "read_run_requests [] meta args files = Inr (meta, args, files)"
| "read_run_requests (Inl e # ins) meta args files = (if e = EEOF then Inr (meta, args, files) else Inl e)"
| "read_run_requests (Inr (ScriptRunMeta m) # ins) meta args files = read_run_requests ins (Some m) args files"
| "read_run_requests (Inr (ScriptRunChunk c) # ins) meta args files =
     (case ch_Type c of
        GENERIC \<Rightarrow> read_run_requests ins meta args (AList.update (ch_Name c)
          \<lparr>f_Filename = ch_Filename c, f_ContentType = ch_ContentType c, f_Data = ch_Data c\<rparr> files)
      | ARGS \<Rightarrow> read_run_requests ins meta (Some (ch_Data c)) files)"

definition run_options_of :: "script_meta \<Rightarrow> bytes option \<Rightarrow> (string, file_data) gomap \<Rightarrow> run_options" where
  "run_options_of meta args files =
     (let opts = sm_GetOptions meta
      in \<lparr>OutputLimit = pb_OutputLimit opts, Timeout = wrap64 (pb_Timeout opts * 1000000), Memory = 0, Weight = 0,
          Args = (case args of Some d \<Rightarrow> d | None \<Rightarrow> pb_Args opts), Meta = pb_Meta opts, Config = pb_Config opts,
          Files = files\<rparr>)"

text \<open>\<open>ParseError\<close> compares the error itself; its message is left out of the status.\<close>

definition script_ParseError :: "go_error \<Rightarrow> go_error" where
  "script_ParseError err =
     EStatus (if err = EPoolNotRunning then CodeResourceExhausted
              else if err = EResourceNotFound then CodeFailedPrecondition
              else if err = EUnsupportedRuntime then CodeCanceled
              else CodeInternal) ''run''"

section \<open>The response\<close>

definition http_response_pb_of :: "http_response \<Rightarrow> http_response_pb" where
  "http_response_pb_of r =
     \<lparr>hr_StatusCode = word_of_int (StatusCode r), hr_ContentType = ContentType r,
      hr_Content = (if chunkSize < length (Content r) then take chunkSize (Content r) else Content r),
      hr_Headers = Headers r\<rparr>"

definition content_response :: "bytes \<Rightarrow> run_response" where
  "content_response b = empty_run_response\<lparr>rr_Response := Some (empty_http_response\<lparr>hr_Content := b\<rparr>)\<rparr>"

text \<open>The loop over what is left of the content.\<close>

function more_responses :: "bytes \<Rightarrow> run_response list" where
  "more_responses content =
     (if content = [] then []
      else let cut = (if length content < chunkSize then length content else chunkSize)
           in content_response (take cut content) # more_responses (drop cut content))"
  by pat_completeness auto
termination
  by (relation "measure length") (auto simp: chunkSize_def)

declare more_responses.simps [simp del]

definition res_took :: "int \<Rightarrow> int" where
  "res_took dur = (let t = wrap64 (dur + 500000) sdiv 1000000 in if t = 0 then 1 else t)"

definition script_responses :: "int \<Rightarrow> run_result \<Rightarrow> run_response list" where
  "script_responses now ret =
     \<lparr>rr_ContainerId = ContainerID ret, rr_Code = word_of_int (Code ret), rr_Stdout = Stdout ret, rr_Stderr = Stderr ret,
      rr_Response = map_option http_response_pb_of (Response ret), rr_Took = res_took (Took ret), rr_Time = now,
      rr_Cached = Cached ret, rr_Weight = ucast (run_result.Weight ret)\<rparr> #
     more_responses (case Response ret of None \<Rightarrow> []
       | Some r \<Rightarrow> if chunkSize < length (Content r) then drop chunkSize (Content r) else [])"

fun send_responses :: "(run_response \<Rightarrow> ('s, unit) proc) \<Rightarrow> run_response list \<Rightarrow> ('s, unit) proc" where
  "send_responses snd_fn [] = return ()"
| "send_responses snd_fn (r # rs) = andThen (snd_fn r) (\<lambda>_. send_responses snd_fn rs)"

definition script_sendResponse :: "'s script_server \<Rightarrow> run_result \<Rightarrow> ('s, unit) proc" where
  "script_sendResponse srv ret =
     andThen (get_state (se_TimestampNow srv)) (\<lambda>now. send_responses (se_Send srv) (script_responses now ret))"

definition script_Run :: "'s script_server \<Rightarrow> string \<Rightarrow> script_request result list \<Rightarrow> ('s, unit) proc" where
  "script_Run srv reqID ins =
     (case read_run_requests ins None None [] of
        Inl e \<Rightarrow> throw e
      | Inr (None, _, _) \<Rightarrow> return ()
      | Inr (Some meta, args, files) \<Rightarrow> (\<lambda>s.
          bind_outcome (CreateDefinitionFromScriptMeta meta) (\<lambda>d.
          andThen (sr_Run (se_Runner srv) reqID (Some d) (Some (run_options_of meta args files))) (\<lambda>(ret, err).
          case ret of
            Some r \<Rightarrow> script_sendResponse srv r
          | None \<Rightarrow> (case err of Some e \<Rightarrow> throw (script_ParseError e) | None \<Rightarrow> return ())) s)))"

section \<open>Delete\<close>

text \<open>
  The slice is made with the length of the answer, and the IDs are appended to it.
\<close>

definition script_Delete ::
  "'s script_server \<Rightarrow> string \<times> string \<times> string \<times> string \<Rightarrow> ('s, string list) proc" where
  "script_Delete srv req =
     (case req of (runtime, sourceHash, userID, contID) \<Rightarrow>
        andThen (sr_DeleteContainersByID (se_Runner srv)
          \<lparr>Runtime = runtime, SourceHash = sourceHash, UserID = userID\<rparr> contID) (\<lambda>conts.
        return (replicate (length conts) [] @ map c_ID conts)))"

section \<open>Facts\<close>

lemma chunkSize_pos [simp]: "0 < chunkSize"
  by (simp add: chunkSize_def)

text \<open>The loop cuts the content into the pieces of a reader with a buffer of that size.\<close>

lemma more_responses_pieces: "more_responses content = map content_response (pieces chunkSize content)"
proof (induction content rule: more_responses.induct)
  case (1 content)
  show ?case
  proof (cases "content = []")
    case True
    then show ?thesis by (simp add: more_responses.simps)
  next
    case False
    let ?cut = "if length content < chunkSize then length content else chunkSize"
    have "take ?cut content = take chunkSize content" "drop ?cut content = drop chunkSize content" by simp_all
    with False 1 show ?thesis by (simp add: more_responses.simps [of content] pieces_step Let_def)
  qed
qed

lemma response_content_simps [simp]: "response_content (content_response b) = b"
  by (simp add: response_content_def content_response_def)

lemma script_responses_contents:
  assumes "Response ret = Some r"
  shows "map response_content (script_responses now ret) =
    (if Content r = [] then [[]] else pieces chunkSize (Content r))"
proof (cases "chunkSize < length (Content r)")
  case True
  then have "Content r \<noteq> []" by auto
  with assms True show ?thesis
    by (simp add: script_responses_def more_responses_pieces comp_def pieces_step http_response_pb_of_def)
      (simp add: response_content_def)
next
  case False
  with assms show ?thesis
    by (auto simp: script_responses_def more_responses.simps [of "[]"] pieces_step response_content_def http_response_pb_of_def)
qed

lemma script_responses_tl: "m \<in> set (tl (script_responses now ret)) \<Longrightarrow> m = content_response (response_content m)"
  by (auto simp: script_responses_def more_responses_pieces)

text \<open>The worker is a sender of contents in pieces.\<close>

interpretation script_content: chunked_content chunkSize
  "\<lambda>content. script_responses now (ret\<lparr>Response := Some (r\<lparr>Content := content\<rparr>)\<rparr>)" response_content
proof
  fix content
  have "map response_content (script_responses now (ret\<lparr>Response := Some (r\<lparr>Content := content\<rparr>)\<rparr>)) =
      (if content = [] then [[]] else pieces chunkSize content)"
    using script_responses_contents [of "ret\<lparr>Response := Some (r\<lparr>Content := content\<rparr>)\<rparr>" "r\<lparr>Content := content\<rparr>" now]
    by simp
  then show "concat (map response_content (script_responses now (ret\<lparr>Response := Some (r\<lparr>Content := content\<rparr>)\<rparr>))) = content"
    by (simp add: concat_pieces)
next
  fix m content
  assume "m \<in> set (script_responses now (ret\<lparr>Response := Some (r\<lparr>Content := content\<rparr>)\<rparr>))"
  then have "response_content m \<in> set (map response_content (script_responses now (ret\<lparr>Response := Some (r\<lparr>Content := content\<rparr>)\<rparr>)))"
    by simp
  then show "length (response_content m) \<le> chunkSize"
    using script_responses_contents [of "ret\<lparr>Response := Some (r\<lparr>Content := content\<rparr>)\<rparr>" "r\<lparr>Content := content\<rparr>" now]
    by (auto dest: pieces_length split: if_splits)
qed

text \<open>A send that fails ends the loop; what was sent before it is sent.\<close>

lemma send_responses_ok:
  assumes "\<And>r s. r \<in> set rs \<Longrightarrow> \<exists>s'. snd_fn r s = Returns (Inr (), s')"
  shows "\<exists>s'. send_responses snd_fn rs s = Returns (Inr (), s')"
  using assms
proof (induction rs arbitrary: s)
  case (Cons r rs)
  obtain s1 where "snd_fn r s = Returns (Inr (), s1)" using Cons.prems [of r s] by auto
  moreover obtain s2 where "send_responses snd_fn rs s1 = Returns (Inr (), s2)" using Cons.IH [of s1] Cons.prems by auto
  ultimately show ?case by (simp add: proc_eval)
qed (simp add: proc_run)

text \<open>What the messages of a call amount to: metas, arguments and files, in order.\<close>

definition metas :: "script_request list \<Rightarrow> script_meta list" where
  "metas reqs = concat (map (\<lambda>q. case q of ScriptRunMeta m \<Rightarrow> [m] | ScriptRunChunk c \<Rightarrow> []) reqs)"

definition chunks_of :: "chunk_type \<Rightarrow> script_request list \<Rightarrow> run_chunk list" where
  "chunks_of t reqs = concat (map (\<lambda>q. case q of ScriptRunMeta m \<Rightarrow> []
     | ScriptRunChunk c \<Rightarrow> if ch_Type c = t then [c] else []) reqs)"

definition file_of :: "run_chunk \<Rightarrow> string \<times> file_data" where
  "file_of c = (ch_Name c, \<lparr>f_Filename = ch_Filename c, f_ContentType = ch_ContentType c, f_Data = ch_Data c\<rparr>)"

definition last_or :: "'a option \<Rightarrow> 'a list \<Rightarrow> 'a option" where
  "last_or d xs = (if xs = [] then d else Some (last xs))"

lemma last_or_simps [simp]: "last_or d [] = d" "last_or d (x # xs) = last_or (Some x) xs"
  by (simp_all add: last_or_def)

lemma read_run_requests_collects:
  "\<exists>files'. read_run_requests (map Inr reqs) meta args files =
     Inr (last_or meta (metas reqs), last_or args (map ch_Data (chunks_of ARGS reqs)), files') \<and>
     map_of files' = map_of files ++ map_of (rev (map file_of (chunks_of GENERIC reqs)))"
proof (induction reqs arbitrary: meta args files)
  case Nil
  then show ?case by (simp add: metas_def chunks_of_def)
next
  case (Cons q reqs)
  show ?case
  proof (cases q)
    case (ScriptRunMeta m)
    then show ?thesis using Cons [of "Some m" args files] by (simp add: metas_def chunks_of_def)
  next
    case (ScriptRunChunk c)
    show ?thesis
    proof (cases "ch_Type c")
      case ARGS
      then show ?thesis using Cons [of meta "Some (ch_Data c)" files] ScriptRunChunk by (simp add: metas_def chunks_of_def)
    next
      case GENERIC
      let ?f = "AList.update (ch_Name c) \<lparr>f_Filename = ch_Filename c, f_ContentType = ch_ContentType c, f_Data = ch_Data c\<rparr> files"
      from Cons [of meta args ?f] obtain files' where
        "read_run_requests (map Inr reqs) meta args ?f =
           Inr (last_or meta (metas reqs), last_or args (map ch_Data (chunks_of ARGS reqs)), files')"
        "map_of files' = map_of ?f ++ map_of (rev (map file_of (chunks_of GENERIC reqs)))" by blast
      moreover have "metas (q # reqs) = metas reqs" "chunks_of ARGS (q # reqs) = chunks_of ARGS reqs"
        "chunks_of GENERIC (q # reqs) = c # chunks_of GENERIC reqs"
        using ScriptRunChunk GENERIC by (simp_all add: metas_def chunks_of_def)
      ultimately show ?thesis using ScriptRunChunk GENERIC by (simp add: file_of_def [of c])
    qed
  qed
qed

section \<open>Properties\<close>

text \<open>
  C13: the messages of a response are the content cut by a reader of two megabytes. Whatever the
  size of the content of a custom response, the contents of the messages are its pieces in order
  (one empty piece for an empty content), none above the limit; all but the first carry
  nothing else, and the time taken is never reported as 0.
\<close>

theorem script_response_pieces:
  assumes "Response ret = Some r"
  shows "map response_content (script_responses now ret) = (if Content r = [] then [[]] else pieces chunkSize (Content r)) \<and>
    concat (map response_content (script_responses now ret)) = Content r \<and>
    (\<forall>m\<in>set (script_responses now ret). length (response_content m) \<le> chunkSize) \<and>
    (\<forall>m\<in>set (tl (script_responses now ret)). m = content_response (response_content m)) \<and>
    rr_Took (hd (script_responses now ret)) \<noteq> 0"
proof -
  have ret: "ret\<lparr>Response := Some (r\<lparr>Content := Content r\<rparr>)\<rparr> = ret" using assms by (cases ret; cases r) simp
  have "rr_Took (hd (script_responses now ret)) \<noteq> 0" by (simp add: script_responses_def res_took_def Let_def)
  with script_responses_contents [OF assms, of now] script_content.payload_messages [where now = now and ret = ret and r = r and content = "Content r", unfolded ret]
    script_content.payload_limit [where now = now and ret = ret and r = r and content = "Content r", unfolded ret] script_responses_tl
  show ?thesis by blast
qed

text \<open>A response of more than two megabytes takes two messages.\<close>

theorem script_response_pieces_witness:
  "let ret = \<lparr>ContainerID = ''c'', Code = 0, Stdout = [], Stderr = [],
       Response = Some \<lparr>StatusCode = 200, ContentType = ''t'', Headers = [], Content = replicate (Suc chunkSize) 7\<rparr>,
       Took = 0, Overhead = 0, run_result.Weight = 1, Cached = False\<rparr>
   in map response_content (script_responses 0 ret) = [replicate chunkSize 7, [7]] \<and>
      concat (map response_content (script_responses 0 ret)) = replicate (Suc chunkSize) 7"
proof -
  let ?r = "\<lparr>StatusCode = 200, ContentType = ''t'', Headers = [], Content = replicate (Suc chunkSize) 7\<rparr> :: http_response"
  let ?ret = "\<lparr>ContainerID = ''c'', Code = 0, Stdout = [], Stderr = [], Response = Some ?r,
       Took = 0, Overhead = 0, run_result.Weight = 1, Cached = False\<rparr>"
  have "Response ?ret = Some ?r" by simp
  note all = script_response_pieces [OF this, of 0]
  have "pieces chunkSize [7 :: u8] = [[7]]" "min chunkSize (Suc chunkSize) = chunkSize"
    by (subst pieces_step) (simp_all add: chunkSize_def)
  then have "pieces chunkSize (replicate (Suc chunkSize) (7 :: u8)) = [replicate chunkSize 7, [7]]"
    by (subst pieces_step, simp_all del: replicate_Suc) simp
  with all show ?thesis by (simp add: Let_def replicate_append_same)
qed

text \<open>
  What a call to run a script asks of the runner. From messages in any order, the runner
  gets the definition of the last meta, the options of that meta with the last arguments sent
  in a chunk in place of its own, and under each name the last file sent; without a meta the
  runner is not called at all, and an error of the stream is returned before anything runs.
\<close>

theorem script_run_request:
  assumes "metas reqs \<noteq> []" "CreateDefinitionFromScriptMeta (last (metas reqs)) = Returns d"
  shows "\<exists>files. map_of files = map_of (rev (map file_of (chunks_of GENERIC reqs))) \<and>
    script_Run srv reqID (map Inr reqs) s =
      andThen (sr_Run (se_Runner srv) reqID (Some d)
        (Some (run_options_of (last (metas reqs)) (last_or None (map ch_Data (chunks_of ARGS reqs))) files)))
        (\<lambda>(ret, err). case ret of Some r \<Rightarrow> script_sendResponse srv r
           | None \<Rightarrow> (case err of Some e \<Rightarrow> throw (script_ParseError e) | None \<Rightarrow> return ())) s \<and>
    script_Run srv reqID (map Inr (filter (\<lambda>q. \<nexists>m. q = ScriptRunMeta m) reqs)) s = Returns (Inr (), s) \<and>
    (e \<noteq> EEOF \<longrightarrow> script_Run srv reqID (map Inr reqs @ Inl e # rest) s = Returns (Inl e, s))"
proof -
  obtain files where files: "read_run_requests (map Inr reqs) None None [] =
      Inr (Some (last (metas reqs)), last_or None (map ch_Data (chunks_of ARGS reqs)), files)"
    "map_of files = map_of (rev (map file_of (chunks_of GENERIC reqs)))"
    using read_run_requests_collects [of reqs None None "[]"] assms(1) by (auto simp: last_or_def)
  have "metas (filter (\<lambda>q. \<nexists>m. q = ScriptRunMeta m) reqs) = []"
    by (induction reqs) (auto simp: metas_def split: script_request.splits)
  then have "script_Run srv reqID (map Inr (filter (\<lambda>q. \<nexists>m. q = ScriptRunMeta m) reqs)) s = Returns (Inr (), s)"
    using read_run_requests_collects [of "filter (\<lambda>q. \<nexists>m. q = ScriptRunMeta m) reqs" None None "[]"]
    by (auto simp: script_Run_def proc_run)
  moreover have "read_run_requests (map Inr reqs @ Inl e # rest) m a fs = Inl e" if "e \<noteq> EEOF" for m a fs
  proof (induction reqs arbitrary: m a fs)
    case (Cons q reqs)
    then show ?case by (cases q) (auto split: chunk_type.split)
  qed (simp add: that)
  ultimately show ?thesis
    using files assms(2) by (intro exI [of _ files]) (simp add: script_Run_def proc_run)
qed

text \<open>A runner that records the options it is called with.\<close>

definition recording_server :: "run_options list script_server" where
  "recording_server = \<lparr>se_Runner = \<lparr>sr_Run = \<lambda>reqID d o'. andThen (modify (\<lambda>s. s @ [the o'])) (\<lambda>_. return (None, None)),
      sr_DeleteContainersByID = \<lambda>i cid. return []\<rparr>,
     se_Send = \<lambda>r. return (), se_TimestampNow = \<lambda>s. 0\<rparr>"

definition toy_requests :: "script_request list" where
  "toy_requests =
     [ScriptRunChunk \<lparr>ch_Name = [], ch_Filename = [], ch_ContentType = [], ch_Data = [1], ch_Type = ARGS\<rparr>,
      ScriptRunMeta \<lparr>sm_Runtime = ''nodejs_v8'', sm_SourceHash = ''h'', sm_UserId = ''u'', sm_Environment = [],
        sm_Options = Some (no_options\<lparr>pb_Args := [9]\<rparr>)\<rparr>,
      ScriptRunChunk \<lparr>ch_Name = ''f'', ch_Filename = ''a'', ch_ContentType = [], ch_Data = [2], ch_Type = GENERIC\<rparr>,
      ScriptRunChunk \<lparr>ch_Name = ''f'', ch_Filename = ''b'', ch_ContentType = [], ch_Data = [3], ch_Type = GENERIC\<rparr>]"

theorem script_run_request_witness:
  "\<exists>o'. script_Run recording_server ''r'' (map Inr toy_requests) [] = Returns (Inr (), [o']) \<and> Args o' = [1] \<and>
    map_of (Files o') ''f'' = Some \<lparr>f_Filename = ''b'', f_ContentType = [], f_Data = [3]\<rparr>"
proof -
  have metas: "metas toy_requests \<noteq> []" by (simp add: metas_def toy_requests_def)
  have "\<exists>d. CreateDefinitionFromScriptMeta (last (metas toy_requests)) = Returns d"
    by (simp add: metas_def toy_requests_def CreateDefinitionFromScriptMeta_def NewDefinition_def SupportedRuntimes_def
        sm_GetOptions_def no_options_def node_runtime_def)
  then obtain d where d: "CreateDefinitionFromScriptMeta (last (metas toy_requests)) = Returns d" ..
  obtain files where files: "map_of files = map_of (rev (map file_of (chunks_of GENERIC toy_requests)))"
    "script_Run recording_server ''r'' (map Inr toy_requests) [] =
      andThen (sr_Run (se_Runner recording_server) ''r'' (Some d)
        (Some (run_options_of (last (metas toy_requests)) (last_or None (map ch_Data (chunks_of ARGS toy_requests))) files)))
        (\<lambda>(ret, err). case ret of Some r \<Rightarrow> script_sendResponse recording_server r
           | None \<Rightarrow> (case err of Some e \<Rightarrow> throw (script_ParseError e) | None \<Rightarrow> return ())) []"
    using script_run_request [OF metas d, of recording_server "''r''" "[]"] by blast
  have "map_of files ''f'' = Some \<lparr>f_Filename = ''b'', f_ContentType = [], f_Data = [3]\<rparr>"
    by (simp add: files(1) chunks_of_def toy_requests_def file_of_def)
  with files(2) show ?thesis
    by (simp add: recording_server_def proc_eval run_options_of_def chunks_of_def toy_requests_def Let_def)
qed

text \<open>
  C0: the answer to a removal starts with empty IDs. For \<open>n\<close> containers removed by the docker
  runner, the answer has \<open>2 * n\<close> IDs, of which the first \<open>n\<close> are empty.
\<close>

theorem script_delete_empty_ids:
  assumes "DeleteContainersByID env \<lparr>Runtime = rt, SourceHash = sh, UserID = u\<rparr> cid s = Returns (Inr cs, s')"
    and "se_Runner srv = docker_script_runner env"
  shows "\<exists>ids. script_Delete srv (rt, sh, u, cid) s = Returns (Inr ids, s') \<and> length ids = 2 * length cs \<and>
    take (length cs) ids = replicate (length cs) [] \<and> drop (length cs) ids = map (\<lambda>c. c_ID (rn_conts s' c)) cs"
  using assms by (simp add: script_Delete_def docker_script_runner_def proc_eval comp_def)

theorem script_delete_empty_ids_witness:
  "\<exists>ids s'. script_Delete \<lparr>se_Runner = docker_script_runner toy_renv, se_Send = \<lambda>r. return (), se_TimestampNow = \<lambda>s. 0\<rparr>
      (Runtime (Index toy_sync), SourceHash (Index toy_sync), UserID (Index toy_sync), [digit_char 0]) two_cached =
      Returns (Inr ids, s') \<and> length ids = 2 \<and> take 1 ids = [[]]"
proof -
  let ?srv = "\<lparr>se_Runner = docker_script_runner toy_renv, se_Send = \<lambda>r. return (), se_TimestampNow = \<lambda>s. 0\<rparr>"
  have idx: "\<lparr>Runtime = Runtime (Index toy_sync), SourceHash = SourceHash (Index toy_sync), UserID = UserID (Index toy_sync)\<rparr> =
      Index toy_sync" by simp
  obtain s' where "DeleteContainersByID toy_renv \<lparr>Runtime = Runtime (Index toy_sync), SourceHash = SourceHash (Index toy_sync),
      UserID = UserID (Index toy_sync)\<rparr> [digit_char 0] two_cached = Returns (Inr [0], s')"
    using two_cached_removes unfolding idx ..
  from script_delete_empty_ids [OF this, of ?srv] show ?thesis by auto
qed

end
