(* ===== verification/Request_Path.thy ===== *)
theory Request_Path
  imports Script_Server Broker_Server
begin

text \<open>
  A request followed through the parts: from the chunk reader of the broker
  (app/broker/server.go), over the stream to the load balancer and its attempts
  (app/lb/server.go, worker.go), to the call of the worker's runner (app/script/server.go).
\<close>

section \<open>Streams\<close>

text \<open>
  The streams of a client, by number, with the messages sent on each: a new one is empty, a
  send that succeeds appends its message, and neither the end of a stream nor another call
  changes it. A retry that succeeds ends with an attempt that does.
\<close>

definition stream_documented :: "('w \<Rightarrow> nat \<Rightarrow> 'm list) \<Rightarrow> (nat \<Rightarrow> 'm \<Rightarrow> ('w, unit) eff) \<Rightarrow> (nat \<Rightarrow> ('w, unit) eff) \<Rightarrow> bool" where
  "stream_documented sent put close \<longleftrightarrow>
     (\<forall>str m w. sent (snd (put str m w)) =
        (if isl (fst (put str m w)) then sent w else (sent w)(str := sent w str @ [m]))) \<and>
     (\<forall>str w. sent (snd (close str w)) = sent w)"

definition broker_documented :: "('w \<Rightarrow> nat \<Rightarrow> lb_request list) \<Rightarrow> 'w broker_env \<Rightarrow> bool" where
  "broker_documented sent env \<longleftrightarrow>
     stream_documented sent (be_RunSend env) (be_CloseSend env) \<and>
     (\<forall>conn w str w'. be_Run env conn w = (Inr str, w') \<longrightarrow> sent w' str = []) \<and>
     (\<forall>t w. sent (snd (be_Publish env t w)) = sent w) \<and>
     (\<forall>n m s x s'. be_Retry env n m s = Returns (Inr x, s') \<longrightarrow> (\<exists>t. m t = Returns (Inr x, s')))"

definition rpc_documented :: "('w \<Rightarrow> nat \<Rightarrow> script_request list) \<Rightarrow> 'w worker_rpc \<Rightarrow> bool" where
  "rpc_documented sent rpc \<longleftrightarrow>
     stream_documented sent (rpc_RunSend rpc) (rpc_CloseSend rpc) \<and>
     (\<forall>addr w str w'. rpc_Run rpc addr w = (Inr str, w') \<longrightarrow> sent w' str = [])"

lemma stream_send:
  assumes "stream_documented sent put close" "put str m w = (Inr x, w')"
  shows "sent w' = (sent w)(str := sent w str @ [m])"
proof -
  have "sent (snd (put str m w)) = (if isl (fst (put str m w)) then sent w else (sent w)(str := sent w str @ [m]))"
    using assms(1) by (simp add: stream_documented_def)
  with assms(2) show ?thesis by simp
qed

lemma stream_close:
  assumes "stream_documented sent put close" "close str w = (r, w')"
  shows "sent w' = sent w"
proof -
  have "sent (snd (close str w)) = sent w" using assms(1) by (simp add: stream_documented_def)
  with assms(2) show ?thesis by simp
qed

text \<open>What a chunk reader has left: the chunks, and then the end.\<close>

definition delivers :: "run_chunk result list \<Rightarrow> run_chunk list \<Rightarrow> bool" where
  "delivers rs cs \<longleftrightarrow> rs = map Inr cs \<or> (\<exists>rest. rs = map Inr cs @ Inl EEOF # rest)"

lemma delivers_simps [simp]:
  "delivers [] cs \<longleftrightarrow> cs = []" "delivers (Inl e # rs) cs \<longleftrightarrow> cs = [] \<and> e = EEOF"
  "delivers (Inr c # rs) cs \<longleftrightarrow> (\<exists>ds. cs = c # ds \<and> delivers rs ds)"
  by (cases cs; auto simp: delivers_def)+

section \<open>The broker\<close>

lemma on_world_b_ReturnsD: "on_world_b m s = Returns (r, s') \<Longrightarrow> m (br_world s) = (r, br_world s')"
  by (auto simp: on_world_b_def lift_eff_def split: prod.splits)

lemma wrapping_InrD: "wrapping msg m s = Returns (Inr x, s') \<Longrightarrow> m s = Returns (Inr x, s')"
  by (auto simp: wrapping_def proc_run elim!: try_catch_ReturnsE)

lemma broker_send:
  assumes "broker_documented sent env" "on_world_b (be_RunSend env str m) s = Returns (Inr x, s')"
  shows "sent (br_world s') = (sent (br_world s))(str := sent (br_world s) str @ [m])"
  using stream_send [where put = "be_RunSend env" and close = "be_CloseSend env", of sent str m "br_world s" x "br_world s'"] assms
  by (auto simp: broker_documented_def dest: on_world_b_ReturnsD)

lemma broker_close:
  assumes "broker_documented sent env" "on_world_b (be_CloseSend env str) s = Returns (r, s')"
  shows "sent (br_world s') = sent (br_world s)"
  using stream_close [where put = "be_RunSend env" and close = "be_CloseSend env", of sent str "br_world s" r "br_world s'"] assms
  by (auto simp: broker_documented_def dest: on_world_b_ReturnsD)

lemma forward_chunks_sends:
  assumes doc: "broker_documented sent env"
  shows "forward_chunks env str rs s = Returns (Inr u, s') \<Longrightarrow> delivers rs cs \<Longrightarrow>
    sent (br_world s') = (sent (br_world s))(str := sent (br_world s) str @ map LbScriptChunk cs)"
proof (induction rs arbitrary: s cs)
  case (Cons r rs)
  show ?case
  proof (cases r)
    case (Inl e)
    with Cons.prems show ?thesis by (auto simp: proc_run)
  next
    case (Inr c)
    then obtain t x where t: "on_world_b (be_RunSend env str (LbScriptChunk c)) s = Returns (Inr x, t)"
      "forward_chunks env str rs t = Returns (Inr u, s')"
      using Cons.prems(1) by (auto elim!: andThen_ReturnsE dest: wrapping_InrD)
    have "sent (br_world t) = (sent (br_world s))(str := sent (br_world s) str @ [LbScriptChunk c])"
      by (rule broker_send [OF doc t(1)])
    with Cons.IH [OF t(2)] Cons.prems(2) Inr show ?thesis by auto
  qed
qed (simp add: proc_run)

lemma try_run_sends:
  assumes doc: "broker_documented sent env" and run: "try_run env lb meta lm sm s = Returns (Inr str, s')"
  shows "sent (br_world s') str = [LbMeta lm, LbScriptMeta sm]"
proof -
  obtain t0 t1 t2 x y where 1: "on_world_b (be_Run env (lbr_conn lb)) t0 = Returns (Inr str, t1)"
    and 2: "on_world_b (be_RunSend env str (LbMeta lm)) t1 = Returns (Inr x, t2)"
    and 3: "on_world_b (be_RunSend env str (LbScriptMeta sm)) t2 = Returns (Inr y, s')"
    using run unfolding try_run_def
    by (auto simp: proc_run elim!: andThen_ReturnsE dest!: wrapping_InrD split: if_splits)
  have "sent (br_world t1) str = []" using on_world_b_ReturnsD [OF 1] doc unfolding broker_documented_def by blast
  with broker_send [OF doc 2] broker_send [OF doc 3] show ?thesis by simp
qed

lemma sendRun_sends:
  assumes doc: "broker_documented sent env" and cr: "delivers (cr_rest cr) cs"
    and run: "sendRunToLoadbalancer env meta lm sm (Some cr) s = Returns (Inr str, s')"
  shows "sent (br_world s') str = LbMeta lm # LbScriptMeta sm # map LbScriptChunk cs"
proof -
  obtain lb n t1 t2 t3 x y z where
    1: "be_Retry env n (try_run env lb meta lm sm) s = Returns (Inr str, t1)"
    and 2: "forward_chunks env str (cr_rest cr) t1 = Returns (Inr x, t2)"
    and 3: "attempt (on_world_b (be_CloseSend env str)) t2 = Returns (Inr y, t3)"
    and 4: "attempt (updateTrace env (bm_TraceId meta) (bm_Trace meta)) t3 = Returns (Inr z, s')"
    using run unfolding sendRunToLoadbalancer_def
    by (auto simp: proc_run Let_def elim!: andThen_ReturnsE split: if_splits)
  obtain t where "try_run env lb meta lm sm t = Returns (Inr str, t1)"
    using doc 1 unfolding broker_documented_def by blast
  note metas = try_run_sends [OF doc this]
  note chunks = forward_chunks_sends [OF doc 2 cr]
  have "on_world_b (be_CloseSend env str) t2 = Returns (y, t3)"
    using 3 by (auto simp: attempt_def proc_run elim!: try_catch_ReturnsE)
  note close = broker_close [OF doc this]
  have publish: "sent (snd (be_Publish env task w)) = sent w" for task w
    using doc by (simp add: broker_documented_def)
  have "keeps (\<lambda>s s'. sent (br_world s') = sent (br_world s)) (on_world_b (be_Publish env task))" for task
    by (rule keepsI) (metis on_world_b_ReturnsD publish snd_conv)
  then have "keeps (\<lambda>s s'. sent (br_world s') = sent (br_world s)) (attempt (updateTrace env (bm_TraceId meta) (bm_Trace meta)))"
    unfolding updateTrace_def by (auto intro!: keeps_intros simp: reflp_def transp_def split: option.split)
  from keepsD [OF this 4] metas chunks close show ?thesis by simp
qed

section \<open>The load balancer\<close>

lemma on_first_ReturnsD:
  "on_first m s = Returns (r, s') \<Longrightarrow> m (fst s) = (r, fst s') \<and> snd s' = snd s"
  by (cases s) (auto simp: on_first_def lift_eff_def split: prod.splits)

lemma rpc_send:
  assumes "rpc_documented sent rpc" "rpc_RunSend rpc str m w = (Inr x, w')"
  shows "sent w' = (sent w)(str := sent w str @ [m])"
  using stream_send [where put = "rpc_RunSend rpc" and close = "rpc_CloseSend rpc", of sent str m w x w'] assms
  by (auto simp: rpc_documented_def)

lemma send_chunks_Inr:
  "send_chunks f (Inr chunk # rs) s = (case f (ScriptRunChunk chunk) (fst s) of
     (Inl e, w) \<Rightarrow> Returns (Inl (EWrap ''sending script request failed'' e), (w, \<lparr>cr_isDirty = True, cr_rest = rs\<rparr>))
   | (Inr x, w) \<Rightarrow> send_chunks f rs (w, \<lparr>cr_isDirty = True, cr_rest = rs\<rparr>))"
  by (cases s) (simp add: proc_eval lift_eff_def split: prod.split sum.split)

lemma send_chunks_sends:
  assumes doc: "rpc_documented sent rpc"
  shows "send_chunks (rpc_RunSend rpc str) rs s = Returns (Inr u, s') \<Longrightarrow> delivers rs cs \<Longrightarrow>
    sent (fst s') = (sent (fst s))(str := sent (fst s) str @ map ScriptRunChunk cs)"
proof (induction rs arbitrary: s cs)
  case Nil
  then show ?case by (auto simp: proc_run split: prod.splits)
next
  case (Cons r rs)
  obtain w cr where s: "s = (w, cr)" by (cases s)
  show ?case
  proof (cases r)
    case (Inl e)
    with Cons.prems s show ?thesis by (auto simp: proc_eval)
  next
    case (Inr c)
    obtain t v where t: "rpc_RunSend rpc str (ScriptRunChunk c) w = (Inr v, fst t)"
      "send_chunks (rpc_RunSend rpc str) rs t = Returns (Inr u, s')"
      using Cons.prems(1) s Inr
      by (auto simp: send_chunks_Inr simp del: send_chunks.simps split: prod.splits sum.splits)
    from Cons.IH [OF t(2)] rpc_send [OF doc t(1)] Cons.prems(2) Inr s show ?thesis by auto
  qed
qed

lemma send_chunks_dirty:
  "send_chunks f rs s = Returns (r, s') \<Longrightarrow> IsDirty (snd s')"
proof (induction rs arbitrary: s)
  case Nil
  then show ?case by (auto simp: proc_run IsDirty_def split: prod.splits)
next
  case (Cons r' rs)
  show ?case
  proof (cases r')
    case (Inl e)
    with Cons.prems show ?thesis by (cases s) (auto simp: proc_eval IsDirty_def split: if_splits)
  next
    case (Inr c)
    with Cons show ?thesis
      by (auto simp: send_chunks_Inr IsDirty_def simp del: send_chunks.simps split: prod.splits sum.splits)
  qed
qed

lemma wc_Run_sends:
  assumes doc: "rpc_documented sent rpc" and cr: "delivers (cr_rest cr) cs"
    and run: "wc_Run rpc addr meta (w, cr) = Returns (r, (w', cr'))"
  shows "case r of Inr str \<Rightarrow> sent w' str = ScriptRunMeta meta # map ScriptRunChunk cs
    | Inl e \<Rightarrow> cr' = cr \<or> IsDirty cr'"
proof (cases r)
  case (Inl e)
  then show ?thesis
    using run unfolding wc_Run_def
    by (auto simp: proc_run elim!: andThen_ReturnsE dest!: on_first_ReturnsD dest: send_chunks_dirty)
next
  case (Inr str)
  obtain t1 t2 t3 x y z where 1: "on_first (rpc_Run rpc addr) (w, cr) = Returns (Inr str, t1)"
    and 2: "on_first (rpc_RunSend rpc str (ScriptRunMeta meta)) t1 = Returns (Inr x, t2)"
    and 3: "send_chunks (rpc_RunSend rpc str) (cr_rest (snd t2)) t2 = Returns (Inr y, t3)"
    and 4: "on_first (rpc_CloseSend rpc str) t3 = Returns (Inr z, (w', cr'))"
    using run Inr unfolding wc_Run_def
    by (auto simp: proc_run case_prod_unfold elim!: andThen_ReturnsE)
  have "snd t2 = cr" using on_first_ReturnsD [OF 1] on_first_ReturnsD [OF 2] by simp
  moreover have "sent (fst t1) str = []"
    using on_first_ReturnsD [OF 1] doc unfolding rpc_documented_def by (metis fst_conv)
  moreover have "sent (fst t2) = (sent (fst t1))(str := sent (fst t1) str @ [ScriptRunMeta meta])"
    using rpc_send [OF doc] on_first_ReturnsD [OF 2] by blast
  moreover have "sent w' = sent (fst t3)"
    using stream_close [where put = "rpc_RunSend rpc" and close = "rpc_CloseSend rpc", of sent str "fst t3" "Inr z" w']
      on_first_ReturnsD [OF 4] doc by (simp add: rpc_documented_def)
  ultimately show ?thesis using send_chunks_sends [OF doc 3, of cs] cr Inr by simp
qed


text \<open>The uploads of an attempt do not touch the reader.\<close>

definition same_reader :: "('c, 'w) lb_run \<Rightarrow> ('c, 'w) lb_run \<Rightarrow> bool" where
  "same_reader s s' \<longleftrightarrow> lr_reader s' = lr_reader s"

lemma same_reader_intros [keeps_intros]:
  "reflp same_reader" "transp same_reader" "keeps same_reader (lr_world_proc m)"
  by (auto simp: same_reader_def reflp_def transp_def lr_world_proc_def intro!: keepsI split: outcome.splits)

lemma same_reader_uploads [keeps_intros]: "keeps same_reader (upload_resources env c keys)"
proof (induction keys)
  case (Cons key keys)
  have "keeps same_reader (uploadResource env c key)"
    unfolding uploadResource_def le_path_def by (auto intro!: keeps_intros)
  with Cons show ?case by (auto intro!: keeps_intros)
qed (auto intro!: keeps_intros)

lemma processWorkerRun_sends:
  assumes doc: "rpc_documented sent (le_rpc env)" and cr: "delivers (cr_rest (lr_reader st)) cs"
    and run: "processWorkerRun env c cached meta st = Returns (r, st')"
  shows "case r of Inr str \<Rightarrow> sent (lr_world st') str = ScriptRunMeta meta # map ScriptRunChunk cs
    | Inl e \<Rightarrow> lr_reader st' = lr_reader st \<or> IsDirty (lr_reader st')"
proof -
  let ?up = "if cached then return () else upload_resources env c [sm_SourceHash meta, sm_Environment meta]"
  have up: "keeps same_reader ?up" by (cases cached) (simp_all only: if_True if_False keeps_basic same_reader_intros same_reader_uploads)
  from run consider (uploads) e where "r = Inl e" "?up st = Returns (Inl e, st')"
    | (runs) x t where "?up st = Returns (Inr x, t)" "run_on_container env c meta t = Returns (r, st')"
    unfolding processWorkerRun_def by (auto elim!: andThen_ReturnsE)
  then show ?thesis
  proof cases
    case uploads
    with keepsD [OF up] show ?thesis by (auto simp: same_reader_def)
  next
    case runs
    then have same: "lr_reader t = lr_reader st" using keepsD [OF up] by (simp add: same_reader_def)
    from runs(2) have "wc_Run (le_rpc env) (cont_addr (lr_srv t) c) meta (lr_world t, lr_reader t) =
      Returns (r, (lr_world st', lr_reader st'))"
      by (auto simp: run_on_container_def split: outcome.splits)
    from wc_Run_sends [OF doc _ this, of cs] cr same show ?thesis by (cases r) simp_all
  qed
qed

lemma run_attempts_sends:
  assumes doc: "rpc_documented sent (le_rpc env)"
  shows "run_attempts h lc env d lm meta n last_cont ds st = Returns ((RunStream cont (Some str), ds'), st') \<Longrightarrow>
    delivers (cr_rest (lr_reader st)) cs \<Longrightarrow>
    sent (lr_world st') str = ScriptRunMeta meta # map ScriptRunChunk cs"
proof (induction n arbitrary: last_cont ds st)
  case (Suc n)
  obtain cont0 conns cached srv where grab: "grabWorkerContainer h lc d (lr_srv st) = Returns ((cont0, conns, cached), srv)"
    using Suc.prems(1) by (auto elim!: bind_outcome_ReturnsE)
  then obtain c where c: "cont0 = Some c" using Suc.prems(1) by (cases cont0) auto
  define lim where "lim \<longleftrightarrow> conns = 1 \<and> 0 < lm_ConcurrencyLimit lm"
  define ds2 where "ds2 = (if lim then [UnlockLimiter (lm_ConcurrencyKey lm) (lm_ConcurrencyLimit lm)] else []) @ ReleaseContainer c # ds"
  obtain q w where lock: "(if lim then le_Lock env (lm_ConcurrencyKey lm) (lm_ConcurrencyLimit lm) (lr_world st)
    else (Inr (), lr_world st)) = (q, w)" by fastforce
  define st1 where "st1 = st\<lparr>lr_srv := srv, lr_world := w\<rparr>"
  have granted: "\<exists>u. q = Inr u"
    using Suc.prems(1) grab lock unfolding c lim_def by (cases q) (auto simp: Let_def split: if_splits)
  have "bind_outcome (processWorkerRun env c cached meta st1) (\<lambda>(r, st2). case r of
        Inr str \<Rightarrow> Returns ((RunStream (Some c) (Some str), ds2), st2)
      | Inl err \<Rightarrow>
          let st3 = st2\<lparr>lr_srv := handleWorkerError h lc (le_IsCancellation env) c err (lr_srv st2)\<rparr>
          in if IsDirty (lr_reader st3) \<or> le_IsCancellation env err
             then Returns ((RunError err, ds2), st3)
             else run_attempts h lc env d lm meta n (Some c) ds2 st3) = Returns ((RunStream cont (Some str), ds'), st')"
  proof (cases lim)
    case True
    then have ds2: "ds2 = UnlockLimiter (lm_ConcurrencyKey lm) (lm_ConcurrencyLimit lm) # ReleaseContainer c # ds"
      by (simp add: ds2_def)
    from lock True granted show ?thesis
      using Suc.prems(1) grab unfolding ds2 by (auto simp: c lim_def [symmetric] st1_def Let_def)
  next
    case False
    then have ds2: "ds2 = ReleaseContainer c # ds" by (simp add: ds2_def)
    from lock False granted show ?thesis
      using Suc.prems(1) grab unfolding ds2 by (auto simp: c lim_def [symmetric] st1_def Let_def)
  qed
  then obtain r st2 where proc: "processWorkerRun env c cached meta st1 = Returns (r, st2)"
    and cont: "(case r of Inr str \<Rightarrow> Returns ((RunStream (Some c) (Some str), ds2), st2)
        | Inl err \<Rightarrow>
            let st3 = st2\<lparr>lr_srv := handleWorkerError h lc (le_IsCancellation env) c err (lr_srv st2)\<rparr>
            in if IsDirty (lr_reader st3) \<or> le_IsCancellation env err
               then Returns ((RunError err, ds2), st3)
               else run_attempts h lc env d lm meta n (Some c) ds2 st3) = Returns ((RunStream cont (Some str), ds'), st')"
    by (elim bind_outcome_ReturnsE) (auto split: prod.splits)
  have reader: "lr_reader st1 = lr_reader st" by (simp add: st1_def)
  from reader Suc.prems(2) have "delivers (cr_rest (lr_reader st1)) cs" by simp
  note sends = processWorkerRun_sends [OF doc this proc]
  show ?case
  proof (cases r)
    case (Inl e)
    with cont have "\<not> IsDirty (lr_reader st2)" by (auto simp: Let_def split: if_splits)
    with sends Inl have "lr_reader st2 = lr_reader st" by (simp add: reader)
    with Suc.IH cont Inl Suc.prems(2) show ?thesis by (auto simp: Let_def split: if_splits)
  qed (use sends cont in auto)
qed simp


text \<open>What follows the request: responses, their relay and the limiter do not touch its stream.\<close>

definition lb_documented :: "('w \<Rightarrow> nat \<Rightarrow> script_request list) \<Rightarrow> 'w lb_env \<Rightarrow> bool" where
  "lb_documented sent env \<longleftrightarrow> rpc_documented sent (le_rpc env) \<and>
     (\<forall>str w. sent (snd (rpc_Responses (le_rpc env) str w)) = sent w) \<and>
     (\<forall>m w. sent (snd (le_Send env m w)) = sent w) \<and> (\<forall>key n w. sent (le_Unlock env key n w) = sent w)"

definition same_sent :: "('w \<Rightarrow> nat \<Rightarrow> script_request list) \<Rightarrow> ('c, 'w) lb_run \<Rightarrow> ('c, 'w) lb_run \<Rightarrow> bool" where
  "same_sent sent s s' \<longleftrightarrow> sent (lr_world s') = sent (lr_world s)"

lemma same_sent_intros [keeps_intros]:
  "reflp (same_sent sent)" "transp (same_sent sent)" "keeps (same_sent sent) (lr_srv_modify f)"
  by (auto simp: same_sent_def reflp_def transp_def lr_srv_modify_def intro!: keeps_modify)

lemma same_sent_relay:
  assumes "lb_documented sent env"
  shows "keeps (same_sent sent) (relay_all env vs response)"
proof (induction vs arbitrary: response)
  case Nil
  then show ?case by (auto intro!: keeps_intros)
next
  case (Cons v vs)
  have "keeps (same_sent sent) (lr_world_proc (on_world (le_Send env v)))"
  proof (rule keepsI)
    fix s r s'
    assume "lr_world_proc (on_world (le_Send env v)) s = Returns (r, s')"
    then have "lr_world s' = snd (le_Send env v (lr_world s))"
      by (auto simp: lr_world_proc_def on_world_def lift_eff_def split: prod.splits)
    with assms show "same_sent sent s s'" by (simp add: same_sent_def lb_documented_def)
  qed
  with Cons show ?case by (auto simp: Let_def intro!: keeps_intros)
qed

lemma relayReponse_sent:
  assumes doc: "lb_documented sent env" and run: "relayReponse h lc env c resCh st = Returns (r, st')"
  shows "sent (lr_world st') = sent (lr_world st)" "resCh \<noteq> None"
proof -
  obtain str where str: "resCh = Some str" using run by (auto simp: relayReponse_def split: option.splits)
  then show "resCh \<noteq> None" by simp
  obtain vs final w where resp: "rpc_Responses (le_rpc env) str (lr_world st) = ((vs, final), w)" by (metis prod.collapse)
  define tail where "tail = andThen (relay_all env vs None) (\<lambda>(response, err).
    if err \<noteq> None \<or> final = EEOF then return (response, err)
    else andThen (lr_srv_modify (handleWorkerError h lc (le_IsCancellation env) c final)) (\<lambda>_. return (response, Some final)))"
  have "keeps (same_sent sent) tail"
    unfolding tail_def by (auto intro!: keeps_intros same_sent_relay [OF doc] split: prod.split)
  moreover have "tail (st\<lparr>lr_world := w\<rparr>) = Returns (r, st')"
    using run resp by (simp add: relayReponse_def str tail_def)
  ultimately have "sent (lr_world st') = sent w" by (auto simp: same_sent_def dest: keepsD)
  moreover have "sent (snd (rpc_Responses (le_rpc env) str (lr_world st))) = sent (lr_world st)"
    using doc by (simp add: lb_documented_def)
  ultimately show "sent (lr_world st') = sent (lr_world st)" using resp by simp
qed

lemma run_deferred_sent:
  "lb_documented sent env \<Longrightarrow> sent (lr_world (run_deferred env ds st)) = sent (lr_world st)"
proof (induction ds arbitrary: st)
  case (Cons x ds)
  then show ?case by (cases x) (auto simp: lb_documented_def)
qed simp

lemma lb_processRun_sends:
  assumes doc: "lb_documented sent env" and cr: "delivers (cr_rest (lr_reader st)) cs"
    and run: "lb_processRun h lc env lm meta st = Returns (Inr u, st')"
  obtains str d where "sent (lr_world st') str = ScriptRunMeta meta # map ScriptRunChunk cs"
    "CreateDefinitionFromScriptMeta meta = Returns d"
proof -
  obtain d st0 n res ds st1 where d: "CreateDefinitionFromScriptMeta meta = Returns d" and exists: "le_Exists_source env meta st = Returns (Inr True, st0)"
    and attempts: "run_attempts h lc env d lm meta n None [] st0 = Returns ((res, ds), st1)"
    and rest: "(case res of
            RunError e \<Rightarrow> Returns (with_deferred env ds (Inl e, st1))
          | RunStream cont resCh \<Rightarrow>
              bind_outcome (relayReponse h lc env (the cont) resCh st1) (\<lambda>(r, st2).
                case r of
                  Inl e \<Rightarrow> Returns (with_deferred env ds (Inl e, st2))
                | Inr (response, err) \<Rightarrow>
                    Returns (with_deferred env ds
                      (case err of None \<Rightarrow> Inr () | Some e \<Rightarrow> Inl e,
                       st2\<lparr>lr_srv := finish_run h d (the cont) response (lr_srv st2)\<rparr>)))) = Returns (Inr u, st')"
    using run unfolding lb_processRun_def
    by (elim bind_outcome_ReturnsE andThen_ReturnsE) (auto simp: proc_run elim!: bind_outcome_ReturnsE split: if_splits)
  have "keeps same_reader (le_Exists_source env meta)"
    unfolding le_Exists_source_def le_path_def by (auto intro!: keeps_intros)
  from keepsD [OF this exists] have reader: "lr_reader st0 = lr_reader st" by (simp add: same_reader_def)
  from rest obtain cont resCh where res: "res = RunStream cont resCh" by (cases res) (auto simp: with_deferred_def)
  from rest obtain r st2 where relay: "relayReponse h lc env (the cont) resCh st1 = Returns (r, st2)"
    and last: "(case r of Inl e \<Rightarrow> Returns (with_deferred env ds (Inl e, st2))
      | Inr (response, err) \<Rightarrow> Returns (with_deferred env ds (case err of None \<Rightarrow> Inr () | Some e \<Rightarrow> Inl e,
          st2\<lparr>lr_srv := finish_run h d (the cont) response (lr_srv st2)\<rparr>))) = Returns (Inr u, st')"
    unfolding res attempts_end.case by (elim bind_outcome_ReturnsE) auto
  obtain str where str: "resCh = Some str" using relayReponse_sent(2) [OF doc relay] by blast
  have rpc: "rpc_documented sent (le_rpc env)" using doc by (simp add: lb_documented_def)
  have "sent (lr_world st') = sent (lr_world st2)"
    using last by (cases r) (auto simp: with_deferred_def run_deferred_sent [OF doc] split: prod.splits)
  moreover have "sent (lr_world st1) str = ScriptRunMeta meta # map ScriptRunChunk cs"
    using run_attempts_sends [where sent = sent, OF rpc attempts [unfolded res str], of cs] cr reader by simp
  ultimately show thesis using that d relayReponse_sent(1) [OF doc relay] by metis
qed

lemma lb_Run_sends:
  assumes doc: "lb_documented sent env"
    and run: "lb_Run h lc env (map Inr (LbMeta lm # LbScriptMeta sm # map LbScriptChunk cs) @ [Inl EEOF]) (srv, w) =
      Returns (Inr u, (srv', w'))"
  obtains str d where "sent w' str = ScriptRunMeta (default_mcpu (DefaultScriptMcpu (lb_options srv)) sm) # map ScriptRunChunk cs"
    "CreateDefinitionFromScriptMeta (default_mcpu (DefaultScriptMcpu (lb_options srv)) sm) = Returns d"
proof -
  have chunks: "lb_chunk \<circ> (Inr \<circ> LbScriptChunk) = Inr" by auto
  obtain st where "lb_processRun h lc env lm (default_mcpu (DefaultScriptMcpu (lb_options srv)) sm)
      \<lparr>lr_srv = srv, lr_world = w, lr_reader = NewChunkReader (map Inr cs @ [Inl EEOF])\<rparr> = Returns (Inr u, st)" "w' = lr_world st"
    using run by (auto simp: lb_Run_def Let_def chunks elim!: bind_outcome_ReturnsE)
  from lb_processRun_sends [OF doc _ this(1), of cs] this(2) show thesis
    using that by (auto simp: NewChunkReader_def delivers_def)
qed


section \<open>The worker\<close>

lemma sent_messages:
  "metas (ScriptRunMeta m # map ScriptRunChunk cs) = [m]"
  "chunks_of t (ScriptRunMeta m # map ScriptRunChunk cs) = filter (\<lambda>c. ch_Type c = t) cs"
proof -
  have "concat (map (\<lambda>q. case q of ScriptRunMeta m \<Rightarrow> [m] | ScriptRunChunk c \<Rightarrow> []) (map ScriptRunChunk cs)) = []"
    by (induction cs) auto
  then show "metas (ScriptRunMeta m # map ScriptRunChunk cs) = [m]" by (simp add: metas_def)
  have "concat (map (\<lambda>q. case q of ScriptRunMeta m \<Rightarrow> [] | ScriptRunChunk c \<Rightarrow> if ch_Type c = t then [c] else [])
    (map ScriptRunChunk cs)) = filter (\<lambda>c. ch_Type c = t) cs" by (induction cs) auto
  then show "chunks_of t (ScriptRunMeta m # map ScriptRunChunk cs) = filter (\<lambda>c. ch_Type c = t) cs"
    by (simp add: chunks_of_def)
qed

section \<open>Properties\<close>

text \<open>
  C5: what a client asks for is what a runner is asked to run. Let the broker have sent a run to a
  load balancer, whatever uploads and retries that took, and let the load balancer's \<open>Run\<close> have
  succeeded on that stream, whatever attempts failed before. Then one of its streams to the
  workers carries the whole request once, and the worker at its end calls its runner with the
  definition of the meta, whose CPU is the default if the client gave none, with the last arguments
  among the client's chunks and the last file under each name.
\<close>

theorem request_end_to_end:
  assumes broker: "broker_documented bsent benv" "delivers (cr_rest cr) cs"
      "sendRunToLoadbalancer benv meta lm sm (Some cr) b = Returns (Inr bstr, b')"
    and lb: "lb_documented wsent lenv"
      "lb_Run h lc lenv (map Inr (bsent (br_world b') bstr) @ [Inl EEOF]) (srv, w) = Returns (Inr u, (srv', w'))"
  shows "\<exists>str d files. CreateDefinitionFromScriptMeta (default_mcpu (DefaultScriptMcpu (lb_options srv)) sm) = Returns d \<and>
    map_of files = map_of (rev (map file_of (filter (\<lambda>c. ch_Type c = GENERIC) cs))) \<and>
    script_Run ws reqID (map Inr (wsent w' str)) s =
      andThen (sr_Run (se_Runner ws) reqID (Some d)
        (Some (run_options_of (default_mcpu (DefaultScriptMcpu (lb_options srv)) sm)
          (last_or None (map ch_Data (filter (\<lambda>c. ch_Type c = ARGS) cs))) files)))
        (\<lambda>(ret, err). case ret of Some r \<Rightarrow> script_sendResponse ws r
           | None \<Rightarrow> (case err of Some e \<Rightarrow> throw (script_ParseError e) | None \<Rightarrow> return ())) s"
proof -
  let ?m = "default_mcpu (DefaultScriptMcpu (lb_options srv)) sm"
  have "bsent (br_world b') bstr = LbMeta lm # LbScriptMeta sm # map LbScriptChunk cs"
    by (rule sendRun_sends [OF broker])
  with lb(2) have run: "lb_Run h lc lenv (map Inr (LbMeta lm # LbScriptMeta sm # map LbScriptChunk cs) @ [Inl EEOF]) (srv, w) =
    Returns (Inr u, (srv', w'))" by simp
  obtain str d where str: "wsent w' str = ScriptRunMeta ?m # map ScriptRunChunk cs"
    and d: "CreateDefinitionFromScriptMeta ?m = Returns d"
    by (rule lb_Run_sends [OF lb(1) run])
  obtain files where "read_run_requests (map Inr (wsent w' str)) None None [] =
      Inr (Some ?m, last_or None (map ch_Data (filter (\<lambda>c. ch_Type c = ARGS) cs)), files)"
    "map_of files = map_of (rev (map file_of (filter (\<lambda>c. ch_Type c = GENERIC) cs)))"
    using read_run_requests_collects [of "wsent w' str" None None "[]"] str by (auto simp: sent_messages)
  with d show ?thesis by (intro exI [of _ str] exI [of _ d] exI [of _ files]) (simp add: script_Run_def)
qed

text \<open>Streams that keep what is sent on them.\<close>

definition stream_broker_env :: "(nat \<Rightarrow> lb_request list) broker_env" where
  "stream_broker_env = \<lparr>be_Dial = \<lambda>_. eff_return 0, be_CloseConn = \<lambda>_. eff_return (), be_Exists = \<lambda>_ _. eff_return True,
     be_Upload = \<lambda>_. eff_return 0, be_UploadSend = \<lambda>_ _. eff_return (), be_UploadRecv = \<lambda>_. eff_return True,
     be_Run = \<lambda>_ w. (Inr 0, w(0 := [])), be_RunSend = \<lambda>str m w. (Inr (), w(str := w str @ [m])),
     be_CloseSend = \<lambda>_. eff_return (), be_Responses = \<lambda>_ w. (([], EEOF), w), be_Delete = \<lambda>_ _. eff_return [],
     be_Download = \<lambda>_ w. ([], w), be_Respond = \<lambda>_. eff_return (), be_Publish = \<lambda>_. eff_return (), be_Now = \<lambda>_. 0,
     be_Hash = \<lambda>_. 0, be_Retry = \<lambda>_ m. m, be_trace = \<lparr>te_ToQuoteJSON = \<lambda>b. b, te_Format = \<lambda>_. ''t''\<rparr>\<rparr>"

definition stream_lb_env :: "(nat \<Rightarrow> script_request list) lb_env" where
  "stream_lb_env = \<lparr>le_rpc = \<lparr>rpc_Exists = \<lambda>_ _. eff_return True, rpc_Upload = \<lambda>_. eff_return 0,
      rpc_UploadSend = \<lambda>_ _. eff_return (), rpc_UploadRecv = \<lambda>_. eff_return True,
      rpc_Run = \<lambda>_ w. (Inr 0, w(0 := [])), rpc_RunSend = \<lambda>str m w. (Inr (), w(str := w str @ [m])),
      rpc_CloseSend = \<lambda>_. eff_return (), rpc_Responses = \<lambda>_ w. (([], EEOF), w), rpc_Delete = \<lambda>_ _. eff_return []\<rparr>,
     le_Lock = \<lambda>_ _. eff_return (), le_Unlock = \<lambda>_ _ w. w, le_Get = \<lambda>_ w. (''/src'', w), le_Walk = \<lambda>_ _. [],
     le_Send = \<lambda>_. eff_return (), le_IsCancellation = \<lambda>_. False\<rparr>"

lemma stream_envs_documented:
  "broker_documented id stream_broker_env" "lb_documented id stream_lb_env"
  by (auto simp: broker_documented_def lb_documented_def rpc_documented_def stream_documented_def stream_broker_env_def
      stream_lb_env_def)

definition toy_chunks :: "run_chunk list" where
  "toy_chunks =
     [\<lparr>ch_Name = [], ch_Filename = [], ch_ContentType = [], ch_Data = [1], ch_Type = ARGS\<rparr>,
      \<lparr>ch_Name = ''f'', ch_Filename = ''a'', ch_ContentType = [], ch_Data = [2], ch_Type = GENERIC\<rparr>]"

definition no_limit :: lb_meta where
  "no_limit = \<lparr>lm_ConcurrencyKey = ''k'', lm_ConcurrencyLimit = 0\<rparr>"

definition stream_broker :: "(nat \<Rightarrow> lb_request list) broker" where
  "stream_broker = \<lparr>br_lbServers = [toy_balancer], br_uploads = [], br_closed = [], br_next_ch = 0,
     br_options = DefaultBrokerOptions, br_world = (\<lambda>_. []), br_spawned = []\<rparr>"

definition no_files :: broker_meta where
  "no_files = \<lparr>bm_Files = [], bm_EnvironmentUrl = [], bm_Trace = None, bm_TraceId = 0, bm_Sync = True\<rparr>"

lemma stream_broker_run:
  "\<exists>b'. sendRunToLoadbalancer stream_broker_env no_files no_limit toy_meta (Some (NewArrayChunkReader toy_chunks)) stream_broker =
     Returns (Inr 0, b')"
  by (simp add: sendRunToLoadbalancer_def stream_broker_env_def stream_broker_def no_files_def try_run_def uploadFiles_def
      wrapping_def updateTrace_def NewArrayChunkReader_def toy_chunks_def proc_eval on_world_b_def lift_eff_def Let_def)

lemma toy_grab:
  obtains c conns fc srv where "grabWorkerContainer toy_hasher list_workers d toy_lb = Returns ((Some c, conns, fc), srv)"
proof -
  have "\<forall>k r. map_of (lb_workers toy_lb) k = Some r \<longrightarrow> w_alive (wk toy_lb r)"
    by (auto simp: toy_lb_fields split: if_splits)
  from grab_loop_returns [OF list_workers_documented this, of toy_hasher d "[]" False]
  obtain r where r: "grab_loop toy_hasher list_workers d [] None False toy_lb = Some r" "grabbed map_of toy_hasher d toy_lb r"
    by (auto simp: cached_of_def toy_lb_fields)
  have "map_of (lb_workers toy_lb) \<noteq> (\<lambda>_. None)" by (simp add: toy_lb_fields)
  with r(2) obtain c conns fc srv where "r = ((Some c, conns, fc), srv)"
    by (auto simp: grabbed_def split: option.splits)
  with r(1) show thesis using that by (simp add: grabWorkerContainer_def)
qed

lemma stream_lb_run:
  "\<exists>srv w'. lb_Run toy_hasher list_workers stream_lb_env
     (map Inr (LbMeta no_limit # LbScriptMeta toy_meta # map LbScriptChunk toy_chunks) @ [Inl EEOF]) (toy_lb, w) =
     Returns (Inr (), (srv, w'))"
proof -
  let ?m = "default_mcpu (DefaultScriptMcpu (lb_options toy_lb)) toy_meta"
  obtain d where d: "CreateDefinitionFromScriptMeta ?m = Returns d"
    by (simp add: CreateDefinitionFromScriptMeta_def toy_meta_def sm_GetOptions_def no_options_def default_mcpu_def Let_def
        NewDefinition_eq supported_def SupportedRuntimes_def)
  obtain c conns fc srv where grab: "grabWorkerContainer toy_hasher list_workers d toy_lb = Returns ((Some c, conns, fc), srv)"
    by (rule toy_grab)
  have m: "sm_SourceHash ?m = ''src''" "sm_Environment ?m = []" by (simp_all add: default_mcpu_def Let_def toy_meta_def)
  have retry: "nat (WorkerRetry (lb_options toy_lb)) = Suc 2" by (simp add: toy_lb_fields DefaultLbOptions_def)
  define st where "st = \<lparr>lr_srv = toy_lb, lr_world = w, lr_reader = NewChunkReader (map Inr toy_chunks @ [Inl EEOF])\<rparr>"
  have exists: "le_Exists_source stream_lb_env ?m st = Returns (Inr True, st)"
    by (simp add: le_Exists_source_def m le_path_def lr_world_proc_def stream_lb_env_def proc_eval st_def)
  obtain st2 where proc: "processWorkerRun stream_lb_env c fc ?m (st\<lparr>lr_srv := srv\<rparr>) = Returns (Inr 0, st2)"
    by (cases fc) (simp_all add: processWorkerRun_def m uploadResource_def run_on_container_def wc_Run_def stream_lb_env_def
        lr_world_proc_def on_world_def on_first_def lift_eff_def proc_eval st_def NewChunkReader_def toy_chunks_def)
  have attempts: "run_attempts toy_hasher list_workers stream_lb_env d no_limit ?m (Suc 2) None [] st =
      Returns ((RunStream (Some c) (Some 0), [ReleaseContainer c]), st2)"
    unfolding run_attempts.simps using grab proc by (simp add: st_def no_limit_def Let_def)
  have relay: "relayReponse toy_hasher list_workers stream_lb_env c (Some 0) st2 = Returns (Inr (None, None), st2)"
    by (simp add: relayReponse_def stream_lb_env_def proc_eval)
  have "\<exists>st'. lb_processRun toy_hasher list_workers stream_lb_env no_limit ?m st = Returns (Inr (), st')"
    using d exists attempts [folded retry] relay
    by (simp add: lb_processRun_def proc_eval st_def with_deferred_def)
  moreover have "lb_chunk \<circ> (Inr \<circ> LbScriptChunk) = Inr" by auto
  ultimately show ?thesis by (auto simp: lb_Run_def st_def Let_def)
qed

theorem request_end_to_end_witness:
  "\<exists>b' srv w' str o'.
    sendRunToLoadbalancer stream_broker_env no_files no_limit toy_meta (Some (NewArrayChunkReader toy_chunks)) stream_broker =
      Returns (Inr 0, b') \<and>
    lb_Run toy_hasher list_workers stream_lb_env (map Inr (br_world b' 0) @ [Inl EEOF]) (toy_lb, \<lambda>_. []) =
      Returns (Inr (), (srv, w')) \<and>
    script_Run recording_server ''r'' (map Inr (w' str)) [] = Returns (Inr (), [o']) \<and> Args o' = [1] \<and>
    map_of (Files o') ''f'' = Some \<lparr>f_Filename = ''a'', f_ContentType = [], f_Data = [2]\<rparr>"
proof -
  have cr: "delivers (cr_rest (NewArrayChunkReader toy_chunks)) toy_chunks" by (simp add: NewArrayChunkReader_def delivers_def)
  obtain b' where b: "sendRunToLoadbalancer stream_broker_env no_files no_limit toy_meta
      (Some (NewArrayChunkReader toy_chunks)) stream_broker = Returns (Inr 0, b')" using stream_broker_run by blast
  have sent: "id (br_world b') 0 = LbMeta no_limit # LbScriptMeta toy_meta # map LbScriptChunk toy_chunks"
    by (rule sendRun_sends [OF stream_envs_documented(1) cr b])
  obtain srv w' where lb: "lb_Run toy_hasher list_workers stream_lb_env (map Inr (id (br_world b') 0) @ [Inl EEOF]) (toy_lb, \<lambda>_. []) =
      Returns (Inr (), (srv, w'))" using stream_lb_run unfolding sent by blast
  obtain str d files where files: "map_of files = map_of (rev (map file_of (filter (\<lambda>c. ch_Type c = GENERIC) toy_chunks)))"
    and run: "script_Run recording_server ''r'' (map Inr (id w' str)) [] =
      andThen (sr_Run (se_Runner recording_server) ''r'' (Some d)
        (Some (run_options_of (default_mcpu (DefaultScriptMcpu (lb_options toy_lb)) toy_meta)
          (last_or None (map ch_Data (filter (\<lambda>c. ch_Type c = ARGS) toy_chunks))) files)))
        (\<lambda>(ret, err). case ret of Some r \<Rightarrow> script_sendResponse recording_server r
           | None \<Rightarrow> (case err of Some e \<Rightarrow> throw (script_ParseError e) | None \<Rightarrow> return ())) []"
    using request_end_to_end [where bsent = id and wsent = id and bstr = 0 and w = "\<lambda>_. []", OF stream_envs_documented(1) cr b stream_envs_documented(2) lb, of recording_server "''r''" "[]"]
    by blast
  have "map_of files ''f'' = Some \<lparr>f_Filename = ''a'', f_ContentType = [], f_Data = [2]\<rparr>"
    by (simp add: files toy_chunks_def file_of_def)
  then have "\<exists>o'. script_Run recording_server ''r'' (map Inr (w' str)) [] = Returns (Inr (), [o']) \<and> Args o' = [1] \<and>
    map_of (Files o') ''f'' = Some \<lparr>f_Filename = ''a'', f_ContentType = [], f_Data = [2]\<rparr>"
    using run by (simp add: recording_server_def proc_eval run_options_of_def toy_chunks_def Let_def)
  then show ?thesis using b lb by (simp only: id_apply) blast
qed


end
