(* ===== verification/Codewrapper.thy ===== *)
theory Codewrapper
  imports Running_Flag
begin

text \<open>
  The program inside a container (codewrapper/server/server.go, main.go): it accepts the
  session of the worker, starts the process of the runtime, and copies streams between the two.
\<close>

section \<open>Streams\<close>

text \<open>
  A pipe is the batches of bytes that are there at its reads, up to its end. A read takes at
  most \<open>n\<close> bytes of a batch; \<open>bufio.Reader\<close> fills its buffer of 4096 bytes read by read.
\<close>

fun pipe_read :: "nat \<Rightarrow> bytes list \<Rightarrow> bytes \<times> bytes list" where
  "pipe_read n [] = ([], [])"
| "pipe_read n (b # bs) = (if length b \<le> n then (b, bs) else (take n b, drop n b # bs))"

definition bufSize :: nat where
  "bufSize = 4096"

definition drop_cr :: "bytes \<Rightarrow> bytes" where
  "drop_cr line = (if line \<noteq> [] \<and> last line = 13 then butlast line else line)"

text \<open>
  \<open>ReadLine\<close> of a reader whose buffer holds \<open>buf\<close>: the line, what stays in the buffer, and the
  pipe. A full buffer without an end of line is a line (its flag is not looked at), and so is
  what comes before the end of the pipe; a carriage return goes only with an end of line.
\<close>

definition split_line :: "bytes \<Rightarrow> bytes \<times> bytes" where
  "split_line buf = (takeWhile (\<lambda>x. x \<noteq> 10) buf, tl (dropWhile (\<lambda>x. x \<noteq> 10) buf))"

function ReadLine :: "bytes \<Rightarrow> bytes list \<Rightarrow> bytes result \<times> bytes \<times> bytes list" where
  "ReadLine buf pipe =
     (if 10 \<in> set buf then (Inr (drop_cr (fst (split_line buf))), snd (split_line buf), pipe)
      else if bufSize \<le> length buf
      then (if last buf = 13 then (Inr (butlast buf), [13], pipe) else (Inr buf, [], pipe))
      else case pipe of
             [] \<Rightarrow> (if buf = [] then Inl EEOF else Inr buf, [], [])
           | b # bs \<Rightarrow> (case pipe_read (bufSize - length buf) pipe of (d, pipe') \<Rightarrow> ReadLine (buf @ d) pipe'))"
  by pat_completeness auto
termination
  by (relation "measures [\<lambda>(buf, pipe). bufSize - length buf, \<lambda>(buf, pipe). length pipe]")
    (auto split: if_splits)

declare ReadLine.simps [simp del]

section \<open>The server\<close>

datatype copy_job =
    CopyStdout "bytes list"
  | CopyStderr
  | AcceptCache
  | CopyIn nat nat
  | CopyOut nat nat

record 'w wrapper_server =
  ws_running :: bool
  ws_jobs :: "copy_job list"
  ws_closed :: "string list"
  ws_world :: 'w

type_synonym ('w, 'a) wproc = "('w wrapper_server, 'a) proc"

text \<open>
  The environment: listeners and the session of yamux, the start of the process with its
  pipe of output, and the connections the session accepts until it is closed, each with the
  connection to the process that is dialled for it, if that succeeds.
\<close>

record 'w wrapper_env =
  cw_Listen :: "string \<Rightarrow> string \<Rightarrow> ('w, nat) eff"
  cw_Print :: "string \<Rightarrow> 'w \<Rightarrow> 'w"
  cw_Accept :: "nat \<Rightarrow> ('w, nat) eff"
  cw_YamuxServer :: "nat \<Rightarrow> ('w, nat) eff"
  cw_SessionAccept :: "nat \<Rightarrow> ('w, nat) eff"
  cw_SetupPipe :: "'w \<Rightarrow> bytes list"
  cw_Unmarshal :: "bytes \<Rightarrow> string list result"
  cw_StdoutPipe :: "string list \<Rightarrow> ('w, unit) eff"
  cw_StderrPipe :: "string list \<Rightarrow> ('w, unit) eff"
  cw_Start :: "string list \<Rightarrow> ('w, bytes list) eff"
  cw_Sessions :: "bytes \<Rightarrow> 'w \<Rightarrow> (nat \<times> nat option) list \<times> 'w"

definition on_world_w :: "('w, 'a) eff \<Rightarrow> ('w, 'a) wproc" where
  "on_world_w m = lift_eff ws_world (\<lambda>w s. s\<lparr>ws_world := w\<rparr>) m"

text \<open>\<open>Listen\<close>: the error of the last \<open>Accept\<close> is returned next to the server.\<close>

definition wrapper_Listen ::
  "'w wrapper_env \<Rightarrow> string \<Rightarrow> string \<Rightarrow> 'w \<Rightarrow> ('w wrapper_server option \<times> go_error option)" where
  "wrapper_Listen env net addr w0 =
     (case eff_bind (cw_Listen env net addr) (\<lambda>lis w.
           eff_bind (cw_Accept env lis) (\<lambda>conn.
           eff_bind (cw_YamuxServer env conn) (\<lambda>sess.
           eff_bind (cw_SessionAccept env sess) (\<lambda>out.
           eff_bind (cw_SessionAccept env sess) (\<lambda>err.
           eff_bind (cw_Listen env ''unix'' ''/tmp/cache.sock'') (\<lambda>cacheLis.
           eff_return sess))))) (cw_Print env addr w)) w0 of
        (Inl e, w1) \<Rightarrow> (None, Some e)
      | (Inr sess, w1) \<Rightarrow>
          (case cw_SessionAccept env sess w1 of
             (r, w2) \<Rightarrow> (Some \<lparr>ws_running = True, ws_jobs = [], ws_closed = [], ws_world = w2\<rparr>,
                         case r of Inl e \<Rightarrow> Some e | Inr _ \<Rightarrow> None)))"

definition wrapper_setRunning :: "bool \<Rightarrow> 'w wrapper_server \<Rightarrow> bool \<times> 'w wrapper_server" where
  "wrapper_setRunning b s = (ws_running s \<noteq> b, s\<lparr>ws_running := b\<rparr>)"

definition wrapper_IsRunning :: "'w wrapper_server \<Rightarrow> bool" where
  "wrapper_IsRunning s = ws_running s"

definition wrapper_Shutdown :: "'w wrapper_server \<Rightarrow> 'w wrapper_server" where
  "wrapper_Shutdown s =
     (case wrapper_setRunning False s of (changed, s') \<Rightarrow>
        if \<not> changed then s'
        else s'\<lparr>ws_closed := ws_closed s' @ [''session'', ''lis'', ''cacheLis'']\<rparr>)"

text \<open>The end of a copy: \<open>err\<close> is what \<open>io.Copy\<close> returns; the destination is closed in any case.\<close>

definition copyStreams :: "go_error option \<Rightarrow> string \<Rightarrow> 'w wrapper_server \<Rightarrow> go_error option \<times> 'w wrapper_server" where
  "copyStreams err dst s = (err, s\<lparr>ws_closed := ws_closed s @ [dst]\<rparr>)"

definition criticalCopyStreams :: "go_error option \<Rightarrow> string \<Rightarrow> 'w wrapper_server \<Rightarrow> 'w wrapper_server" where
  "criticalCopyStreams err dst s =
     (case copyStreams err dst s of (e, s') \<Rightarrow> if e \<noteq> None then wrapper_Shutdown s' else s')"

definition add_jobs :: "copy_job list \<Rightarrow> ('w, unit) wproc" where
  "add_jobs js = modify (\<lambda>s. s\<lparr>ws_jobs := ws_jobs s @ js\<rparr>)"

fun forward_sessions :: "(nat \<times> nat option) list \<Rightarrow> ('w, unit) wproc" where
  "forward_sessions [] = return ()"
| "forward_sessions ((connS, Some connP) # cs) =
     andThen (add_jobs [CopyIn connP connS, CopyOut connS connP]) (\<lambda>_. forward_sessions cs)"
| "forward_sessions ((connS, None) # cs) =
     andThen (modify (\<lambda>s. s\<lparr>ws_closed := ws_closed s @ [''conn'']\<rparr>)) (\<lambda>_. forward_sessions cs)"

text \<open>
  \<open>StartAccepting\<close>. Both readers live only for the line they read: what they have in their
  buffers is gone. The copy of the output starts with what is left in the pipe.
\<close>

definition StartAccepting :: "'w wrapper_env \<Rightarrow> ('w, unit) wproc" where
  "StartAccepting env =
     andThen (get_state (\<lambda>s. ReadLine [] (cw_SetupPipe env (ws_world s)))) (\<lambda>(r, _, _).
     case r of Inl e \<Rightarrow> throw e | Inr line \<Rightarrow>
     (case cw_Unmarshal env line of Inl e \<Rightarrow> throw e | Inr command \<Rightarrow>
      if command = [] then panic
      else andThen (on_world_w (cw_StdoutPipe env command)) (\<lambda>_.
           andThen (on_world_w (cw_StderrPipe env command)) (\<lambda>_.
           andThen (on_world_w (cw_Start env command)) (\<lambda>pipe.
           case ReadLine [] pipe of (r, lost, rest) \<Rightarrow>
           (case r of Inl e \<Rightarrow> throw e | Inr appAddr \<Rightarrow>
             andThen (add_jobs [CopyStdout rest, CopyStderr, AcceptCache]) (\<lambda>_.
             andThen (on_world_w (\<lambda>w. case cw_Sessions env appAddr w of (cs, w') \<Rightarrow> (Inr cs, w')))
               forward_sessions)))))))"

section \<open>The program\<close>

text \<open>The first address of \<open>eth0\<close> that is a network, or what a nil address prints.\<close>

definition getIPAddress :: "(string option) list result \<Rightarrow> string outcome" where
  "getIPAddress addrs =
     (case addrs of
        Inl e \<Rightarrow> Panics
      | Inr l \<Rightarrow> Returns (case filter (\<lambda>a. a \<noteq> None) l of Some ip # _ \<Rightarrow> ip | _ \<Rightarrow> ''<nil>''))"

definition wrapper_main :: "'w wrapper_env \<Rightarrow> (string option) list result \<Rightarrow> 'w \<Rightarrow> 'w wrapper_server outcome" where
  "wrapper_main env addrs w =
     bind_outcome (getIPAddress addrs) (\<lambda>ip.
     case wrapper_Listen env ''tcp'' (ip @ '':8123'') w of
       (Some s, None) \<Rightarrow> (case StartAccepting env s of
           Returns (Inr _, s') \<Rightarrow> Returns s' | Returns (Inl e, _) \<Rightarrow> Panics | Panics \<Rightarrow> Panics | Blocks \<Rightarrow> Blocks)
     | _ \<Rightarrow> Panics)"

section \<open>Facts\<close>

interpretation wrapper_flag: running_flag wrapper_setRunning wrapper_IsRunning
  by unfold_locales (simp_all add: wrapper_setRunning_def wrapper_IsRunning_def)

lemma ReadLine_batch:
  assumes "10 \<notin> set line" "length line + 1 + length rest \<le> bufSize"
  shows "ReadLine [] ((line @ 10 # rest) # further) = (Inr (drop_cr line), rest, further)"
proof -
  have "ReadLine [] ((line @ 10 # rest) # further) = ReadLine (line @ 10 # rest) further"
    using assms(2) by (subst ReadLine.simps) (simp add: bufSize_def)
  also have "\<dots> = (Inr (drop_cr line), rest, further)"
    using assms(1) by (subst ReadLine.simps) (simp add: split_line_def takeWhile_append dropWhile_append)
  finally show ?thesis .
qed

fun stdout_job :: "copy_job \<Rightarrow> bool" where
  "stdout_job (CopyStdout _) = True"
| "stdout_job _ = False"

lemma forward_sessions_returns:
  "\<exists>s'. forward_sessions cs s = Returns (Inr (), s') \<and> filter stdout_job (ws_jobs s') = filter stdout_job (ws_jobs s)"
proof (induction cs arbitrary: s rule: forward_sessions.induct)
  case (2 connS connP cs)
  then show ?case
    using "2.IH" [of "s\<lparr>ws_jobs := ws_jobs s @ [CopyIn connP connS, CopyOut connS connP]\<rparr>"]
    by (simp add: add_jobs_def proc_eval)
next
  case (3 connS cs)
  then show ?case
    using "3.IH" [of "s\<lparr>ws_closed := ws_closed s @ [''conn'']\<rparr>"] by (simp add: proc_eval)
qed (simp add: proc_eval)

text \<open>The end of copies, one after another, each with its error and its destination.\<close>

definition copies_end :: "(go_error option \<times> string) list \<Rightarrow> 'w wrapper_server \<Rightarrow> 'w wrapper_server" where
  "copies_end ends s = fold (\<lambda>(err, dst). criticalCopyStreams err dst) ends s"

lemma criticalCopyStreams_eq:
  "criticalCopyStreams err dst s = s\<lparr>ws_running := ws_running s \<and> err = None,
     ws_closed := ws_closed s @ [dst] @ (if ws_running s \<and> err \<noteq> None then [''session'', ''lis'', ''cacheLis''] else [])\<rparr>"
  by (cases s) (simp add: criticalCopyStreams_def copyStreams_def wrapper_Shutdown_def wrapper_setRunning_def)

lemma copies_end_simps [simp]:
  "copies_end [] s = s" "copies_end ((err, dst) # ends) s = copies_end ends (criticalCopyStreams err dst s)"
  by (simp_all add: copies_end_def)

section \<open>Properties\<close>

text \<open>
  C34: output that comes with the address is lost. The reader of the address line takes what is
  in the pipe, up to its buffer, and is dropped with what follows the line: when the process has
  written more in the same batch, the copy of its output starts after all of it.
\<close>

theorem wrapper_loses_readahead:
  assumes "ReadLine [] (cw_SetupPipe env (ws_world s)) = (Inr l, b, p)" "cw_Unmarshal env l = Inr command" "command \<noteq> []"
    and "cw_StdoutPipe env command (ws_world s) = (Inr (), w1)" "cw_StderrPipe env command w1 = (Inr (), w2)"
    and "cw_Start env command w2 = (Inr ((line @ 10 # rest) # further), w3)"
    and "10 \<notin> set line" "length line + 1 + length rest \<le> bufSize"
  shows "\<exists>s'. StartAccepting env s = Returns (Inr (), s') \<and>
    filter stdout_job (ws_jobs s') = filter stdout_job (ws_jobs s) @ [CopyStdout further]"
proof -
  obtain cs w4 where sess: "cw_Sessions env (drop_cr line) w3 = (cs, w4)" by fastforce
  let ?s = "s\<lparr>ws_jobs := ws_jobs s @ [CopyStdout further, CopyStderr, AcceptCache], ws_world := w4\<rparr>"
  obtain s' where "forward_sessions cs ?s = Returns (Inr (), s')"
    "filter stdout_job (ws_jobs s') = filter stdout_job (ws_jobs ?s)"
    using forward_sessions_returns by blast
  with assms sess show ?thesis
    by (simp add: StartAccepting_def proc_eval on_world_w_def lift_eff_def ReadLine_batch add_jobs_def)
qed

text \<open>A process that writes its address, ends the line, and two more bytes at once.\<close>

definition toy_wrapper_env :: "unit wrapper_env" where
  "toy_wrapper_env = \<lparr>cw_Listen = \<lambda>_ _. eff_return 0, cw_Print = \<lambda>_ w. w, cw_Accept = \<lambda>_. eff_return 0,
     cw_YamuxServer = \<lambda>_. eff_return 0, cw_SessionAccept = \<lambda>_. eff_return 0, cw_SetupPipe = \<lambda>_. [[123, 125, 10]],
     cw_Unmarshal = \<lambda>_. Inr [''node''], cw_StdoutPipe = \<lambda>_. eff_return (), cw_StderrPipe = \<lambda>_. eff_return (),
     cw_Start = \<lambda>_. eff_return [[47, 115, 10, 104, 105], [33]], cw_Sessions = \<lambda>_ w. ([(1, Some 2), (3, None)], w)\<rparr>"

definition toy_wrapper :: "unit wrapper_server" where
  "toy_wrapper = \<lparr>ws_running = True, ws_jobs = [], ws_closed = [], ws_world = ()\<rparr>"

theorem wrapper_loses_readahead_witness:
  "\<exists>s'. StartAccepting toy_wrapper_env toy_wrapper = Returns (Inr (), s') \<and>
    filter stdout_job (ws_jobs s') = [CopyStdout [[33]]]"
proof -
  have "ReadLine [] (([123, 125] @ 10 # []) # []) = (Inr (drop_cr [123, 125]), [], [])"
    by (rule ReadLine_batch) (simp_all add: bufSize_def)
  then have line: "ReadLine [] (cw_SetupPipe toy_wrapper_env (ws_world toy_wrapper)) = (Inr [123, 125], [], [])"
    by (simp add: toy_wrapper_env_def drop_cr_def)
  show ?thesis
    using wrapper_loses_readahead [OF line, of "[''node'']" "()" "()" "[47, 115]" "[104, 105]" "[[33]]" "()"]
    by (simp add: toy_wrapper_env_def toy_wrapper_def bufSize_def)
qed

text \<open>
  The server of the wrapper shuts down once. However many of its copies end with an error,
  the session and the listeners are closed once, at the first error; copies that end well close
  only their destination.
\<close>

theorem wrapper_shuts_down_once:
  assumes "ws_running s" "\<forall>(err, dst)\<in>set ends. dst \<noteq> ''session''"
  shows "length (filter (\<lambda>c. c = ''session'') (ws_closed (copies_end ends s))) =
      length (filter (\<lambda>c. c = ''session'') (ws_closed s)) + (if \<exists>(err, dst)\<in>set ends. err \<noteq> None then 1 else 0) \<and>
    (wrapper_IsRunning (copies_end ends s) \<longleftrightarrow> \<not> (\<exists>(err, dst)\<in>set ends. err \<noteq> None))"
proof -
  have off: "length (filter (\<lambda>c. c = ''session'') (ws_closed (copies_end es t))) = length (filter (\<lambda>c. c = ''session'') (ws_closed t)) \<and>
      \<not> ws_running (copies_end es t)"
    if "\<not> ws_running t" "\<forall>(err, dst)\<in>set es. dst \<noteq> ''session''" for es and t :: "'a wrapper_server"
    using that by (induction es arbitrary: t) (auto simp: criticalCopyStreams_eq)
  show ?thesis
    using assms
  proof (induction ends arbitrary: s)
    case (Cons e es)
    obtain err dst where e: "e = (err, dst)" by (cases e)
    show ?case
    proof (cases err)
      case None
      with Cons e show ?thesis by (auto simp: criticalCopyStreams_eq)
    next
      case (Some x)
      with Cons.prems e off [of "criticalCopyStreams err dst s" es] show ?thesis
        by (auto simp: criticalCopyStreams_eq wrapper_IsRunning_def)
    qed
  qed (simp add: wrapper_IsRunning_def)
qed

theorem wrapper_shuts_down_once_witness:
  "length (filter (\<lambda>c. c = ''session'') (ws_closed (copies_end
      [(None, ''a''), (Some EEOF, ''b''), (Some EEOF, ''c'')] toy_wrapper))) = 1 \<and>
   \<not> wrapper_IsRunning (copies_end [(None, ''a''), (Some EEOF, ''b''), (Some EEOF, ''c'')] toy_wrapper)"
proof -
  have "ws_running toy_wrapper" "ws_closed toy_wrapper = []" by (simp_all add: toy_wrapper_def)
  then show ?thesis
    using wrapper_shuts_down_once [of toy_wrapper "[(None, ''a''), (Some EEOF, ''b''), (Some EEOF, ''c'')]"] by simp
qed

end
