(* ===== verification/Assets.thy ===== *)
theory Assets
  imports Script_Definition File_Repo
begin

text \<open>
  The files embedded into the program (assets/assets.go, made by go-bindata), and how a runtime
  reads its wrapper script from them (app/script/wrapper.go). The text of the one file,
  wrappers/node.js, is the argument \<open>js\<close>; the calls of the operating system that restore files
  to a disk are a record of arguments.
\<close>

section \<open>Assets\<close>

record bindata_file_info =
  bi_name :: string
  bi_size :: int
  bi_mode :: u32
  bi_modTime :: int

record asset =
  as_bytes :: bytes
  as_info :: bindata_file_info
  as_digest :: "nat list"

text \<open>The bytes of a string, without a copy: there is no error to return.\<close>

definition bindataRead :: "bytes \<Rightarrow> string \<Rightarrow> bytes result" where
  "bindataRead data name = Inr data"

definition wrappersNodeJsBytes :: "bytes \<Rightarrow> bytes result" where
  "wrappersNodeJsBytes js = bindataRead js ''wrappers/node.js''"

definition wrappersNodeJs :: "bytes \<Rightarrow> asset result" where
  "wrappersNodeJs js = (case wrappersNodeJsBytes js of
     Inl e \<Rightarrow> Inl e
   | Inr bs \<Rightarrow> Inr \<lparr>as_bytes = bs,
       as_info = \<lparr>bi_name = ''wrappers/node.js'', bi_size = 0, bi_mode = 0, bi_modTime = 0\<rparr>,
       as_digest = [0x3b, 0x5e, 0xfe, 0x1d, 0xb5, 0x85, 0x91, 0x6d, 0x74, 0x74, 0xb3, 0x27, 0xad, 0xdd, 0xd, 0xcc,
         0x95, 0xdd, 0xa1, 0x40, 0x9a, 0x4b, 0x62, 0xe9, 0x63, 0x5a, 0x27, 0xf4, 0x80, 0xd1, 0x38, 0x84]\<rparr>)"

definition bindata :: "bytes \<Rightarrow> (string, asset result) gomap" where
  "bindata js = [(''wrappers/node.js'', wrappersNodeJs js)]"

text \<open>\<open>strings.Replace(name, "\", "/", -1)\<close>.\<close>

definition canonicalName :: "string \<Rightarrow> string" where
  "canonicalName name = map (\<lambda>c. if c = CHR 0x5C then CHR ''/'' else c) name"

text \<open>The lookup the functions below share, with their name for the texts of the errors.\<close>

definition find_asset :: "string \<Rightarrow> bytes \<Rightarrow> string \<Rightarrow> asset result" where
  "find_asset caller js name = (case map_of (bindata js) (canonicalName name) of
     Some (Inl e) \<Rightarrow> Inl (EWrap (caller @ '' '' @ name @ '' can't read by error'') e)
   | Some (Inr a) \<Rightarrow> Inr a
   | None \<Rightarrow> Inl (EOther (caller @ '' '' @ name @ '' not found'')))"

definition Asset :: "bytes \<Rightarrow> string \<Rightarrow> bytes result" where
  "Asset js name = map_sum id as_bytes (find_asset ''Asset'' js name)"

definition AssetString :: "bytes \<Rightarrow> string \<Rightarrow> string result" where
  "AssetString js name = map_sum id string_of_bytes (Asset js name)"

definition MustAsset :: "bytes \<Rightarrow> string \<Rightarrow> bytes outcome" where
  "MustAsset js name = (case Asset js name of Inl e \<Rightarrow> Panics | Inr bs \<Rightarrow> Returns bs)"

definition MustAssetString :: "bytes \<Rightarrow> string \<Rightarrow> string outcome" where
  "MustAssetString js name = bind_outcome (MustAsset js name) (\<lambda>bs. Returns (string_of_bytes bs))"

definition AssetInfo :: "bytes \<Rightarrow> string \<Rightarrow> bindata_file_info result" where
  "AssetInfo js name = map_sum id as_info (find_asset ''AssetInfo'' js name)"

definition AssetDigest :: "bytes \<Rightarrow> string \<Rightarrow> (nat list) result" where
  "AssetDigest js name = map_sum id as_digest (find_asset ''AssetDigest'' js name)"

fun digests_of :: "(string, asset result) gomap \<Rightarrow> ((string, nat list) gomap) result" where
  "digests_of [] = Inr []"
| "digests_of ((name, Inl e) # m) = Inl e"
| "digests_of ((name, Inr a) # m) = map_sum id (AList.update name (as_digest a)) (digests_of m)"

definition Digests :: "bytes \<Rightarrow> ((string, nat list) gomap) result" where
  "Digests js = digests_of (bindata js)"

definition AssetNames :: "bytes \<Rightarrow> string list" where
  "AssetNames js = map fst (bindata js)"

section \<open>Directories\<close>

datatype bintree = Bintree (tree_Func: "asset result option") (tree_Children: "(string, bintree) gomap")

definition bintree_root :: "bytes \<Rightarrow> bintree" where
  "bintree_root js =
     Bintree None [(''wrappers'', Bintree None [(''node.js'', Bintree (Some (wrappersNodeJs js)) [])])]"

fun tree_walk :: "bintree \<Rightarrow> string list \<Rightarrow> bintree option" where
  "tree_walk t [] = Some t"
| "tree_walk t (p # ps) = (case map_of (tree_Children t) p of None \<Rightarrow> None | Some u \<Rightarrow> tree_walk u ps)"

definition AssetDir :: "bytes \<Rightarrow> string \<Rightarrow> (string list) result" where
  "AssetDir js name =
     (let missing = Inl (EOther (''Asset '' @ name @ '' not found'')) in
      case (if name = [] then Some (bintree_root js) else tree_walk (bintree_root js) (path_split (canonicalName name))) of
        None \<Rightarrow> missing
      | Some t \<Rightarrow> if tree_Func t \<noteq> None then missing else Inr (map fst (tree_Children t)))"

section \<open>Restoring files\<close>

record 'w asset_os =
  ao_MkdirAll :: "string \<Rightarrow> u32 \<Rightarrow> ('w, unit) eff"
  ao_WriteFile :: "string \<Rightarrow> bytes \<Rightarrow> u32 \<Rightarrow> ('w, unit) eff"
  ao_Chtimes :: "string \<Rightarrow> int \<Rightarrow> int \<Rightarrow> ('w, unit) eff"

definition file_path :: "string \<Rightarrow> string \<Rightarrow> string" where
  "file_path dir name = path_join (dir # path_split (canonicalName name))"

definition eff_of :: "'a result \<Rightarrow> ('w, 'a) eff" where
  "eff_of r = (\<lambda>w. (r, w))"

definition RestoreAsset :: "bytes \<Rightarrow> 'w asset_os \<Rightarrow> string \<Rightarrow> string \<Rightarrow> ('w, unit) eff" where
  "RestoreAsset js os dir name =
     eff_bind (eff_of (Asset js name)) (\<lambda>data.
     eff_bind (eff_of (AssetInfo js name)) (\<lambda>info.
     eff_bind (ao_MkdirAll os (file_path dir (path_dir name)) 0x1ED) (\<lambda>_.
     eff_bind (ao_WriteFile os (file_path dir name) data (bi_mode info)) (\<lambda>_.
     ao_Chtimes os (file_path dir name) (bi_modTime info) (bi_modTime info)))))"

fun eff_each :: "('a \<Rightarrow> ('w, unit) eff) \<Rightarrow> 'a list \<Rightarrow> ('w, unit) eff" where
  "eff_each f [] = eff_return ()"
| "eff_each f (x # xs) = eff_bind (f x) (\<lambda>_. eff_each f xs)"

lemma eff_each_cong [fundef_cong]:
  "xs = ys \<Longrightarrow> (\<And>x. x \<in> set ys \<Longrightarrow> f x = g x) \<Longrightarrow> eff_each f xs = eff_each g ys"
  by (induction ys arbitrary: xs) auto

lemma path_split_neq_Nil [simp]: "path_split s \<noteq> []"
  by (cases s) (auto split: list.splits)

lemma AssetDir_cases:
  assumes "AssetDir js name = Inr children"
  obtains (root) "name = []" "children = [''wrappers'']"
    | (wrappers) "path_split (canonicalName name) = [''wrappers'']" "children = [''node.js'']"
proof (cases "name = []")
  case False
  with assms obtain t where t: "tree_walk (bintree_root js) (path_split (canonicalName name)) = Some t" "tree_Func t = None"
    "children = map fst (tree_Children t)"
    by (auto simp: AssetDir_def Let_def split: option.splits if_splits)
  obtain p ps where "path_split (canonicalName name) = p # ps" by (meson path_split_neq_Nil neq_Nil_conv)
  with t that(2) show thesis
    by (cases ps rule: list.exhaust; cases "tl ps") (auto simp: bintree_root_def split: if_splits)
qed (use assms that(1) in \<open>simp add: AssetDir_def bintree_root_def\<close>)

lemma path_split_single: "path_split s = [t] \<Longrightarrow> s = t"
  by (induction s arbitrary: t) (auto split: if_splits list.splits)

lemma canonicalName_id: "CHR ''/'' \<notin> set (canonicalName name) \<Longrightarrow> canonicalName name = name"
  by (induction name) (auto simp: canonicalName_def split: if_splits)

lemma canonicalName_wrappers: "canonicalName name = ''wrappers'' \<longleftrightarrow> name = ''wrappers''"
proof
  assume *: "canonicalName name = ''wrappers''"
  then have "CHR ''/'' \<notin> set (canonicalName name)" by simp
  from canonicalName_id [OF this] * show "name = ''wrappers''" by simp
qed (simp add: canonicalName_def)

lemma joined:
  "path_join [[], ''wrappers''] = ''wrappers''" "path_join [''wrappers'', ''node.js''] = ''wrappers/node.js''"
  by (simp_all add: path_join_def path_clean_def)

text \<open>A directory restores its children, which are fewer levels from the leaves.\<close>

function RestoreAssets :: "bytes \<Rightarrow> 'w asset_os \<Rightarrow> string \<Rightarrow> string \<Rightarrow> ('w, unit) eff" where
  "RestoreAssets js os dir name =
     (case AssetDir js name of
        Inl e \<Rightarrow> RestoreAsset js os dir name
      | Inr children \<Rightarrow> eff_each (\<lambda>child. RestoreAssets js os dir (path_join [name, child])) children)"
  by pat_completeness auto
termination
proof (relation "measure (\<lambda>(js, os, dir, name). if name = [] then 2 else if name = ''wrappers'' then 1 else 0 :: nat)")
  fix js :: bytes and os :: "'w asset_os" and dir name children child
  assume dir: "AssetDir js name = Inr children" "child \<in> set children"
  from dir(1) show "((js, os, dir, path_join [name, child]), js, os, dir, name)
    \<in> measure (\<lambda>(js, os, dir, name). if name = [] then 2 else if name = ''wrappers'' then 1 else 0)"
  proof (cases rule: AssetDir_cases)
    case wrappers
    then have "name = ''wrappers''" using path_split_single canonicalName_wrappers by blast
    with wrappers dir(2) show ?thesis by (simp add: joined)
  qed (use dir(2) in \<open>simp add: joined\<close>)
qed simp

declare RestoreAssets.simps [simp del]

section \<open>The wrappers of the runtimes\<close>

definition Wrapper :: "bytes \<Rightarrow> runtime_info \<Rightarrow> bytes outcome" where
  "Wrapper js ri = MustAsset js (AssetName ri)"

text \<open>What the table holds, under either separator.\<close>

lemma Asset_cases:
  "Asset js name = (if canonicalName name = ''wrappers/node.js'' then Inr js else Inl (EOther (''Asset '' @ name @ '' not found'')))"
  "AssetInfo js name = (if canonicalName name = ''wrappers/node.js''
     then Inr \<lparr>bi_name = ''wrappers/node.js'', bi_size = 0, bi_mode = 0, bi_modTime = 0\<rparr>
     else Inl (EOther (''AssetInfo '' @ name @ '' not found'')))"
  by (simp_all add: Asset_def AssetInfo_def find_asset_def bindata_def wrappersNodeJs_def wrappersNodeJsBytes_def bindataRead_def)

section \<open>Properties\<close>

text \<open>
  Every runtime the worker supports finds its wrapper: the lookup that panics for a missing
  asset returns the embedded text, and only names of the table have one.
\<close>

theorem assets_wrappers_available:
  assumes "map_of SupportedRuntimes rt = Some ri"
  shows "Wrapper js ri = Returns js \<and> canonicalName (AssetName ri) \<in> set (AssetNames js) \<and>
    {name. MustAsset js name \<noteq> Panics} = {name. canonicalName name \<in> set (AssetNames js)}"
  using assms
  by (auto simp: Wrapper_def MustAsset_def Asset_cases AssetNames_def bindata_def SupportedRuntimes_def node_runtime_def
      canonicalName_def split: if_splits)

theorem assets_wrappers_available_witness:
  "Wrapper [0x63, 0x6F] (node_runtime ''node:8-stretch'') = Returns [0x63, 0x6F]"
  using assets_wrappers_available [of "''nodejs_v8''" "node_runtime ''node:8-stretch''" "[0x63, 0x6F]"]
  by (simp add: SupportedRuntimes_def)

text \<open>
  The two tables of the generated file agree, and restoring all of it returns. The directories
  are exactly the root and \<open>wrappers\<close>, no asset is a directory, and \<open>RestoreAssets\<close> of the root
  restores the one file: its directory, its text and its times, in this order, the file without
  any permission.
\<close>

theorem assets_restored:
  "RestoreAssets js os dir [] =
     eff_bind (ao_MkdirAll os (path_join [dir, ''wrappers'']) 0x1ED) (\<lambda>_.
     eff_bind (ao_WriteFile os (path_join [dir, ''wrappers'', ''node.js'']) js 0) (\<lambda>_.
     ao_Chtimes os (path_join [dir, ''wrappers'', ''node.js'']) 0 0)) \<and>
   {name. \<exists>children. AssetDir js name = Inr children} = {[], ''wrappers''} \<and>
   {name. \<exists>children. AssetDir js name = Inr children} \<inter> {name. \<exists>bs. Asset js name = Inr bs} = {}"
proof -
  have root: "AssetDir js [] = Inr [''wrappers'']" "AssetDir js ''wrappers'' = Inr [''node.js'']"
    by (simp_all add: AssetDir_def bintree_root_def canonicalName_def)
  have leaf: "\<exists>e. AssetDir js ''wrappers/node.js'' = Inl e"
    by (simp add: AssetDir_def bintree_root_def canonicalName_def)
  have dirs: "(\<exists>children. AssetDir js name = Inr children) \<longleftrightarrow> name = [] \<or> name = ''wrappers''" for name
    by (auto simp: root elim!: AssetDir_cases dest!: path_split_single simp: canonicalName_wrappers)
  have one: "eff_bind f eff_return = f" for f :: "('a, unit) eff"
    by (rule ext) (auto simp: eff_bind_def split: prod.split sum.split)
  have parent: "path_dir ''wrappers/node.js'' = ''wrappers''" by (simp add: path_dir_def path_clean_def)
  have "RestoreAssets js os dir ''wrappers/node.js'' = RestoreAsset js os dir ''wrappers/node.js''"
    using leaf by (auto simp: RestoreAssets.simps)
  then have "RestoreAssets js os dir [] = RestoreAsset js os dir ''wrappers/node.js''"
    using root by (simp add: RestoreAssets.simps [of js os dir "[]"] RestoreAssets.simps [of js os dir "''wrappers''"] joined one)
  moreover have "RestoreAsset js os dir ''wrappers/node.js'' =
     eff_bind (ao_MkdirAll os (path_join [dir, ''wrappers'']) 0x1ED) (\<lambda>_.
     eff_bind (ao_WriteFile os (path_join [dir, ''wrappers'', ''node.js'']) js 0) (\<lambda>_.
     ao_Chtimes os (path_join [dir, ''wrappers'', ''node.js'']) 0 0))"
    by (rule ext) (simp add: RestoreAsset_def Asset_cases eff_of_def canonicalName_def parent file_path_def eff_bind_def split: prod.split sum.split)
  ultimately show ?thesis by (auto simp: dirs Asset_cases canonicalName_def)
qed


end
