(* ===== verification/Gauges.thy ===== *)
theory Gauges
  imports Errors
begin

text \<open>
  The gauges (internal/metrics, app/lb/metrics.go, app/script/metrics.go). An entry is a number of
  the program next to the one of the library that is exported: every write changes the one and then
  the other, without a lock. The other theories read and write only the program's number.
\<close>

section \<open>Entries\<close>

text \<open>The entry of the library OpenCensus is its number; its \<open>Add\<close> and \<open>Set\<close> are atomic.\<close>

record gauge_entry =
  ge_val :: i64
  ge_exported :: i64

definition gauge_Add :: "i64 \<Rightarrow> gauge_entry \<Rightarrow> gauge_entry" where
  "gauge_Add v g = g\<lparr>ge_val := ge_val g + v, ge_exported := ge_exported g + v\<rparr>"

definition gauge_Set :: "i64 \<Rightarrow> gauge_entry \<Rightarrow> gauge_entry" where
  "gauge_Set v g = g\<lparr>ge_val := v, ge_exported := v\<rparr>"

definition gauge_Value :: "gauge_entry \<Rightarrow> i64" where
  "gauge_Value g = ge_val g"

section \<open>Registration\<close>

text \<open>
  The registry of the library: a gauge under a name and a description, and its entry. The gauges of
  a package are made once; an error of the registry panics, and whoever calls afterwards gets the
  nil pointer, as \<open>sync.Once\<close> counts a call that panicked.
\<close>

record 'w registry =
  rg_NewRegistry :: "'w \<Rightarrow> nat \<times> 'w"
  rg_AddInt64Gauge :: "nat \<Rightarrow> string \<Rightarrow> string \<Rightarrow> ('w, nat) eff"
  rg_GetEntry :: "nat \<Rightarrow> ('w, i64) eff"

record ('w, 'm) metrics_state =
  ms_done :: bool
  ms_metr :: "'m option"
  ms_world :: 'w

type_synonym ('w, 'm, 'a) mproc = "(('w, 'm) metrics_state, 'a) proc"

definition on_registry :: "('w, 'a) eff \<Rightarrow> ('w, 'm, 'a) mproc" where
  "on_registry m = lift_eff ms_world (\<lambda>w s. s\<lparr>ms_world := w\<rparr>) m"

definition new_registry :: "'w registry \<Rightarrow> ('w, 'm, nat) mproc" where
  "new_registry rg = on_registry (\<lambda>w. case rg_NewRegistry rg w of (r, w') \<Rightarrow> (Inr r, w'))"

text \<open>A function run by \<open>sync.Once\<close>: what is left of a panic is that it counts as done.\<close>

definition once :: "('w, 'm, unit) mproc \<Rightarrow> ('w, 'm) metrics_state \<Rightarrow> unit outcome \<times> ('w, 'm) metrics_state" where
  "once f s =
     (if ms_done s then (Returns (), s)
      else case f s of
        Returns (_, s') \<Rightarrow> (Returns (), s'\<lparr>ms_done := True\<rparr>)
      | Panics \<Rightarrow> (Panics, s\<lparr>ms_done := True\<rparr>)
      | Blocks \<Rightarrow> (Blocks, s))"

definition new_gauge :: "'w registry \<Rightarrow> nat \<Rightarrow> string \<Rightarrow> string \<Rightarrow> ('w, 'm, gauge_entry) mproc" where
  "new_gauge rg r name descr =
     andThen (must (on_registry (rg_AddInt64Gauge rg r name descr))) (\<lambda>g.
     andThen (must (on_registry (rg_GetEntry rg g))) (\<lambda>e.
     return \<lparr>ge_val = 0, ge_exported = e\<rparr>))"

record lb_metrics =
  lmd_workerCPU :: gauge_entry
  lmd_workerCount :: gauge_entry

definition lb_Metrics :: "'w registry \<Rightarrow> ('w, lb_metrics) metrics_state
    \<Rightarrow> lb_metrics option outcome \<times> ('w, lb_metrics) metrics_state" where
  "lb_Metrics rg s =
     (case once (andThen (new_registry rg) (\<lambda>r.
             andThen (new_gauge rg r ''codebox/worker/cpu'' ''Codebox worker total free mcpu.'') (\<lambda>cpu.
             andThen (new_gauge rg r ''codebox/worker/count'' ''Codebox worker total count.'') (\<lambda>cnt.
             modify (\<lambda>s. s\<lparr>ms_metr := Some \<lparr>lmd_workerCPU = cpu, lmd_workerCount = cnt\<rparr>\<rparr>))))) s of
        (r, s') \<Rightarrow> (bind_outcome r (\<lambda>_. Returns (ms_metr s')), s'))"

definition script_Metrics :: "'w registry \<Rightarrow> ('w, gauge_entry) metrics_state
    \<Rightarrow> gauge_entry option outcome \<times> ('w, gauge_entry) metrics_state" where
  "script_Metrics rg s =
     (case once (andThen (new_registry rg) (\<lambda>r.
             andThen (new_gauge rg r ''codebox/worker/cpu'' ''Codebox worker free mcpu.'') (\<lambda>cpu.
             modify (\<lambda>s. s\<lparr>ms_metr := Some cpu\<rparr>)))) s of
        (r, s') \<Rightarrow> (bind_outcome r (\<lambda>_. Returns (ms_metr s')), s'))"

text \<open>The second call gives what the first made, and makes nothing; after a panic it gives nil.\<close>

lemma once_twice: "once f s = (r, s') \<Longrightarrow> r \<noteq> Blocks \<Longrightarrow> once f s' = (Returns (), s')"
  by (auto simp: once_def split: if_splits outcome.splits)

lemma lb_Metrics_twice:
  assumes "lb_Metrics rg s = (r, s')" "r \<noteq> Blocks"
  shows "lb_Metrics rg s' = (Returns (ms_metr s'), s')"
proof -
  let ?f = "andThen (new_registry rg) (\<lambda>r.
     andThen (new_gauge rg r ''codebox/worker/cpu'' ''Codebox worker total free mcpu.'') (\<lambda>cpu.
     andThen (new_gauge rg r ''codebox/worker/count'' ''Codebox worker total count.'') (\<lambda>cnt.
     modify (\<lambda>s. s\<lparr>ms_metr := Some \<lparr>lmd_workerCPU = cpu, lmd_workerCount = cnt\<rparr>\<rparr>))))"
  obtain q where q: "once ?f s = (q, s')" "r = bind_outcome q (\<lambda>_. Returns (ms_metr s'))"
    using assms(1) by (auto simp: lb_Metrics_def split: prod.splits)
  then have "q \<noteq> Blocks" using assms(2) by (cases q) simp_all
  from once_twice [OF q(1) this] show ?thesis by (simp add: lb_Metrics_def)
qed

section \<open>Writers at the same time\<close>

text \<open>
  The two halves of a write as steps: the program's number first, then, with the write among those
  that are not done yet, the exported one. \<open>allowed\<close> are the writes that occur.
\<close>

datatype gauge_write = GAdd i64 | GSet i64

fun write_to :: "gauge_write \<Rightarrow> i64 \<Rightarrow> i64" where
  "write_to (GAdd v) x = x + v"
| "write_to (GSet v) x = v"

inductive gauge_step :: "(gauge_write \<Rightarrow> bool) \<Rightarrow> gauge_entry \<times> gauge_write list \<Rightarrow> gauge_entry \<times> gauge_write list \<Rightarrow> bool"
  for allowed where
  own: "allowed op \<Longrightarrow> gauge_step allowed (g, ops) (g\<lparr>ge_val := write_to op (ge_val g)\<rparr>, op # ops)"
| exported: "gauge_step allowed (g, ops @ op # ops') (g\<lparr>ge_exported := write_to op (ge_exported g)\<rparr>, ops @ ops')"

inductive_cases gauge_stepE: "gauge_step allowed p q"

fun amount :: "gauge_write \<Rightarrow> i64" where
  "amount (GAdd v) = v"
| "amount (GSet v) = 0"

definition adds_only :: "gauge_write \<Rightarrow> bool" where
  "adds_only op \<longleftrightarrow> (case op of GAdd v \<Rightarrow> True | GSet v \<Rightarrow> False)"

definition gauge_inv :: "gauge_entry \<times> gauge_write list \<Rightarrow> bool" where
  "gauge_inv = (\<lambda>(g, ops). list_all adds_only ops \<and> ge_val g = ge_exported g + sum_list (map amount ops))"

lemma adds_only_write: "adds_only op \<Longrightarrow> write_to op x = x + amount op"
  by (cases op) (simp_all add: adds_only_def)

lemma gauge_step_inv: "gauge_step adds_only p q \<Longrightarrow> gauge_inv p \<Longrightarrow> gauge_inv q"
  by (erule gauge_stepE) (auto simp: gauge_inv_def adds_only_write)

lemma gauge_steps_inv: "(gauge_step adds_only)\<^sup>*\<^sup>* p q \<Longrightarrow> gauge_inv p \<Longrightarrow> gauge_inv q"
  by (induction rule: rtranclp_induct) (auto intro: gauge_step_inv)

text \<open>The whole writes are the two halves in a row.\<close>

lemma gauge_writes:
  "allowed (GAdd v) \<Longrightarrow> (gauge_step allowed)\<^sup>*\<^sup>* (g, []) (gauge_Add v g, [])"
  "allowed (GSet v) \<Longrightarrow> (gauge_step allowed)\<^sup>*\<^sup>* (g, []) (gauge_Set v g, [])"
proof -
  have two: "(gauge_step allowed)\<^sup>*\<^sup>* (g, []) (g\<lparr>ge_val := write_to op (ge_val g), ge_exported := write_to op (ge_exported g)\<rparr>, [])"
    if "allowed op" for op
    using gauge_step.own [of allowed op g "[]"] gauge_step.exported [of allowed "g\<lparr>ge_val := write_to op (ge_val g)\<rparr>" "[]" op "[]"] that
    by (auto intro: converse_rtranclp_into_rtranclp r_into_rtranclp)
  show "(gauge_step allowed)\<^sup>*\<^sup>* (g, []) (gauge_Add v g, [])" if "allowed (GAdd v)"
    using two [OF that] by (simp add: gauge_Add_def)
  show "(gauge_step allowed)\<^sup>*\<^sup>* (g, []) (gauge_Set v g, [])" if "allowed (GSet v)"
    using two [OF that] by (simp add: gauge_Set_def)
qed

section \<open>Properties\<close>

text \<open>
  What is exported is what the program decides by, as long as gauges are only added to: when
  no write is half done, both numbers are the same, however the writers interleave. With \<open>Set\<close>, which
  the shutdown of a pool and of the load balancer use, they can differ for good.
\<close>

theorem gauges_agree:
  assumes "ge_val g = ge_exported g"
  shows "(\<forall>g'. (gauge_step adds_only)\<^sup>*\<^sup>* (g, []) (g', []) \<longrightarrow> ge_val g' = ge_exported g') \<and>
    (\<exists>g'. (gauge_step (\<lambda>_. True))\<^sup>*\<^sup>* (g, []) (g', []) \<and> ge_val g' = 0 \<and> ge_exported g' = v)"
proof
  have "gauge_inv (g, [])" using assms by (simp add: gauge_inv_def)
  then show "\<forall>g'. (gauge_step adds_only)\<^sup>*\<^sup>* (g, []) (g', []) \<longrightarrow> ge_val g' = ge_exported g'"
    using gauge_steps_inv by (fastforce simp: gauge_inv_def)
  let ?g1 = "g\<lparr>ge_val := ge_val g + v\<rparr>" and ?g2 = "g\<lparr>ge_val := 0\<rparr>" and ?g3 = "g\<lparr>ge_val := 0, ge_exported := 0\<rparr>"
  let ?g4 = "g\<lparr>ge_val := 0, ge_exported := v\<rparr>" and ?R = "gauge_step (\<lambda>_. True)"
  have "?R (g, []) (?g1, [GAdd v])" using gauge_step.own [of "\<lambda>_. True" "GAdd v" g "[]"] by simp
  moreover have "?R (?g1, [GAdd v]) (?g2, [GSet 0, GAdd v])"
    using gauge_step.own [of "\<lambda>_. True" "GSet 0" ?g1 "[GAdd v]"] by simp
  moreover have "?R (?g2, [GSet 0, GAdd v]) (?g3, [GAdd v])"
    using gauge_step.exported [of "\<lambda>_. True" ?g2 "[]" "GSet 0" "[GAdd v]"] by simp
  moreover have "?R (?g3, [GAdd v]) (?g4, [])"
    using gauge_step.exported [of "\<lambda>_. True" ?g3 "[]" "GAdd v" "[]"] by simp
  ultimately have "?R\<^sup>*\<^sup>* (g, []) (?g4, [])" by (meson rtranclp.rtrancl_refl converse_rtranclp_into_rtranclp)
  then show "\<exists>g'. ?R\<^sup>*\<^sup>* (g, []) (g', []) \<and> ge_val g' = 0 \<and> ge_exported g' = v" by (intro exI [of _ ?g4]) simp
qed

theorem gauges_agree_witness:
  "\<exists>g'. (gauge_step (\<lambda>_. True))\<^sup>*\<^sup>* (\<lparr>ge_val = 1000, ge_exported = 1000\<rparr>, []) (g', []) \<and> ge_val g' = 0 \<and> ge_exported g' = 250"
  using gauges_agree [of "\<lparr>ge_val = 1000, ge_exported = 1000\<rparr>" 250] by auto

end
