(* ===== verification/Spec2Isabelle.thy ===== *)
theory Spec2Isabelle
  imports Repo_Spec Lb_Cmd Broker_Cmd Worker_Plug Request_Path Codewrapper Assets Gauges
begin

text \<open>
  Codebox runs the scripts of users in docker containers. This library models the Go program
  under src/ and proves what makes it correct. Other programs are not in it.

  \<^bold>\<open>The parts and how they interact.\<close> A \<^emph>\<open>broker\<close> takes runs over gRPC and HTTP, picks a load balancer by the hash
  of the script, uploads the files the load balancer lacks, sends the run, hands the responses
  on and traces them. A \<^emph>\<open>load balancer\<close> knows the workers that registered with it and which of
  their containers have run a script before; it chooses a container, uploads the script to the
  worker, sends the run, and tries again elsewhere when that fails. A \<^emph>\<open>worker\<close> keeps
  a pool of containers, registers, sends heartbeats and reports the containers it removes; its
  \<^emph>\<open>runner\<close> reserves a container, sends the run packet into it and parses what comes back. The
  \<^emph>\<open>code wrapper\<close> inside a container connects the session of the worker with the process of the
  script. Broker, load balancer and worker move files with the protocol of the \<^emph>\<open>file repository\<close>.

  \<^bold>\<open>Conventions.\<close> Records, enumerations and functions keep the names of the source; where two
  packages share a name, a prefix tells them apart (\<open>lb_Run\<close>, \<open>runner_Run\<close>, \<open>broker_Run\<close>,
  \<open>script_Run\<close>). Machine integers are words where they wrap or are read from bytes; Go's \<open>int\<close> is
  an integer, with \<open>wrap64\<close> where the source can overflow. A Go map is an association list in the
  order a range loop visits. A call is a procedure on an explicit state (\<open>proc\<close> in Errors) with the
  outcomes \<open>Returns\<close> (an error of the datatype \<open>go_error\<close>, or a result), \<open>Panics\<close> and \<open>Blocks\<close>, a
  wait that this goroutine cannot end. Objects shared through pointers live on heaps.
  A goroutine that a call leaves behind is recorded in the state and is a step of its own. What
  is not under src/ (docker, redis, gRPC, the LRU cache and hash of pkg-go, JSON, the file system,
  clocks) is an argument: a record of functions on a state of its own, with what is relied on as
  a named hypothesis (\<open>lru_documented\<close>, \<open>workers_documented\<close>, \<open>deployment_documented\<close>), which the
  witnesses instantiate with concrete functions.

  \<^bold>\<open>The theories.\<close>
  \<^item> Prelude, Errors: words, bytes, Go maps, maps of maps; errors (app/*/errors.go,
    app/common/errors.go), outcomes, procedures, and the rules that carry an invariant
    (\<open>keeps_intros\<close>), progress (\<open>nonblocking_intros\<close>) and success (\<open>never_fails_intros\<close>) through them.
  \<^item> Docker_Manager (app/docker): options, constraints and the calls of the docker client.
  \<^item> Script_Definition (app/script/definition.go, wrapper.go), Script_Result (result.go against the frames of
    assets/wrappers/node.js), User_Cache (user_cache.go with its Lua scripts), Container (container.go).
  \<^item> Cache_Api: the interface of the LRU cache of pkg-go, with a list instance.
  \<^item> File_Repo (app/filerepo/repo.go), Repo_Spec (its abstract specification),
    Repo_Server (app/filerepo/server.go).
  \<^item> Running_Flag: the locale of the flag that makes a shutdown happen once, interpreted for the
    runner, the AMQP channel and the code wrapper.
  \<^item> Runner_Core, Runner (app/script/runner.go): the state and every method; Runner_Frame,
    Runner_Slots, Runner_Pool, Runner_Life: what they keep, the semaphore, the pool, the life cycle.
  \<^item> Messages (app/common/chunk_reader.go and the protobuf messages, with the locale of senders that cut
    contents into pieces), Script_Server (app/script/server.go).
  \<^item> Lb_Worker (app/lb/worker.go, the gauges of metrics.go), Lb_Server (server.go), Lb_Maps (its maps under all
    handlers), Autoscaler (cmd/autoscaler), Gauges (internal/metrics and the two metrics.go, with concurrent writers).
  \<^item> Broker_Trace (app/broker/celery.go), Broker_Server (server.go), Broker_Uwsgi (uwsgi.go),
    Amqp_Channel (cmd/amqp/client.go).
  \<^item> Codewrapper (codewrapper/), Log_Hook (cmd/stack, logrusWrapper of cmd/app.go), Assets (assets/assets.go).
  \<^item> Command_Line (cmd/app.go, main.go, app/version): flags, logging, the start and end of the process; Lb_Cmd (cmd/lb.go),
    Broker_Cmd (cmd/broker.go), Worker_Cmd and Worker_Main (cmd/worker.go): the options, start, life and shutdown of
    each command, built from the parts above in the order of the code.
  \<^item> Worker_Plug: a worker's connection with the load balancer's handlers at the other end; Request_Path: a request from the
    broker to the runner; this theory: a response and an upload followed through the parts.

  \<^bold>\<open>What is shown.\<close>
  \<^item> Resources are conserved: the pool of the runner (Runner_Life), its semaphore (Runner_Slots), the
    CPU of the workers (Lb_Worker), the connections of a container (Container).
  \<^item> Data arrives: frames and their parser, the run packet, cache values, pieces of a content are
    round trips; \<open>request_end_to_end\<close>, \<open>response_end_to_end\<close> and \<open>upload_end_to_end\<close> compose them across processes.
  \<^item> Processes: a worker's visit leaves the load balancer as it was (\<open>worker_session_roundtrip\<close>), the load balancer and the
    broker shut down in order and leave nothing behind; without flags the options are the defaults.
  \<^item> Protocols: the upload locks are exclusive, and the repository refines a write-once store
    (\<open>repo_refines_write_once_store\<close>); a container stops once; the AMQP channel reconnects
    in order; every HTTP request is answered.
  \<^item> Separation: the cache keys of users are disjoint; an evicted worker is forgotten everywhere.
  \<^item> Loops end: the choice of a container, making room on the disk, freeing memory.
  \<^item> Errors: the runs the code does not handle as it means to (a run that hangs when no worker is
    left, a broken stream answered as a success, a lost slot, a nil channel) are theorems too.

  \<^bold>\<open>Loops and fuel.\<close> No definition takes fuel. The loops whose end depends on an argument (\<open>make_room\<close>,
  \<open>free_memory\<close>, \<open>grab_loop\<close>, the walks of an upload) are \<open>partial_function (option)\<close>, where \<open>None\<close> is a loop
  that never ends; that they end is a theorem. The parsers and line readers are \<open>function\<close>s
  with a measure. Loops that serve for ever take the list of events they see.

  \<^bold>\<open>Not modelled.\<close> The mocks are generated, and internal/tools only names build tools. Of the commands, the usage texts of the
  flags and the lines logged are left out; a \<open>Fatal\<close> is \<open>Panics\<close>. The embedded script is an argument of Assets.
  linkfs.go and commander.go are one system call each, and are the arguments \<open>fs_Link\<close> and \<open>fs_Command\<close>.
  Tracing and deadlines of contexts change no state the models have; rate limiters only delay.
  Two goroutines interleave only where a theory has a step relation (the locks of the repository, containers, the slots and
  the pool of the runner, resources of a worker, the maps, the process of the load balancer, the gauges, the AMQP channel); elsewhere a
  call runs under its mutex.
\<close>

section \<open>Properties that span components\<close>

subsection \<open>A response, from the worker to the client\<close>

text \<open>The load balancer hands on every response of the worker and keeps the first.\<close>

lemma relay_all_log:
  assumes log: "\<And>m w. \<exists>w'. le_Send env m w = (Inr (), w') \<and> sent w' = sent w @ [m]"
  shows "\<exists>st'. relay_all env vs response st = Returns (Inr (case response of Some r \<Rightarrow> Some r
      | None \<Rightarrow> (case vs of [] \<Rightarrow> None | v # _ \<Rightarrow> Some v), None), st') \<and>
    sent (lr_world st') = sent (lr_world st) @ vs"
proof (induction vs arbitrary: response st)
  case Nil
  then show ?case by (auto simp: proc_eval split: option.splits)
next
  case (Cons v vs)
  obtain w' where w': "le_Send env v (lr_world st) = (Inr (), w')" "sent w' = sent (lr_world st) @ [v]"
    using log by blast
  let ?r = "case response of None \<Rightarrow> Some v | Some r \<Rightarrow> Some r"
  obtain st' where "relay_all env vs ?r (st\<lparr>lr_world := w'\<rparr>) = Returns (Inr (?r, None), st')"
    "sent (lr_world st') = sent (lr_world st) @ v # vs"
    using Cons.IH [of ?r "st\<lparr>lr_world := w'\<rparr>"] w'(2) by (cases response) auto
  with w'(1) show ?case
    by (cases response) (auto simp: Let_def proc_eval lr_world_proc_def on_world_def lift_eff_def)
qed

lemma relayReponse_log:
  assumes "\<And>m w. \<exists>w'. le_Send env m w = (Inr (), w') \<and> sent w' = sent w @ [m]"
    and "rpc_Responses (le_rpc env) str (lr_world st) = ((vs, EEOF), w)" "sent w = []"
  shows "\<exists>v st'. relayReponse h lc env c (Some str) st = Returns (Inr (v, None), st') \<and> sent (lr_world st') = vs"
proof -
  obtain v st' where "relay_all env vs None (st\<lparr>lr_world := w\<rparr>) = Returns (Inr (v, None), st')"
    "sent (lr_world st') = vs"
    using relay_all_log [OF assms(1), of vs None "st\<lparr>lr_world := w\<rparr>"] assms(3) by auto
  with assms(2) show ?thesis by (auto simp: relayReponse_def proc_eval)
qed

text \<open>The trace the broker makes of the responses of a worker.\<close>

lemma processResponse_script:
  assumes "be_Responses env str (br_world s) = ((script_responses now ret, final), w)" "Response ret = Some r"
  shows "\<exists>trace s'. processResponse env meta str listening s = Returns (Inr (trace, None), s') \<and>
    trace_custom trace = Some \<lparr>tp_Status = word_of_int (StatusCode r), tp_ContentType = ContentType r,
      tp_Content = Content r, tp_Headers = Headers r\<rparr>"
proof -
  define m where "m = hd (script_responses now ret)"
  define ms where "ms = tl (script_responses now ret)"
  have rs: "script_responses now ret = m # ms" by (simp add: m_def ms_def script_responses_def)
  have m: "rr_Response m = Some (http_response_pb_of r)" using assms(2) by (simp add: m_def script_responses_def)
  have ms: "\<forall>c\<in>set ms. rr_Response c \<noteq> None"
    by (auto simp: ms_def script_responses_def more_responses_pieces content_response_def)
  have "hr_Content (http_response_pb_of r) @ concat (map response_content ms) = concat (map response_content (m # ms))"
    using m by (simp add: response_content_def)
  also have "\<dots> = Content r"
    using script_responses_contents [OF assms(2), of now] rs by (simp add: concat_pieces)
  finally have content: "hr_Content (http_response_pb_of r) @ concat (map response_content ms) = Content r" .
  obtain t w' where "processResponse env meta str listening s = Returns (Inr
    (NewScriptTrace (be_trace env) t (bm_TraceId meta) (Some (m\<lparr>rr_Response :=
       Some ((http_response_pb_of r)\<lparr>hr_Content := Content r\<rparr>)\<rparr>)), None), s\<lparr>br_world := w'\<rparr>)"
    using processResponse_collects [OF assms(1) [unfolded rs] m ms, of meta listening] content by auto
  then show ?thesis
    by (auto simp: trace_custom_def NewScriptTrace_def trace_response_of_def http_response_pb_of_def)
qed

text \<open>
  C6: what a script answers is what its client gets. Let a run end with a custom response (with
  a status that the parser lets through). The worker sends it in messages; the load balancer
  relays them, here to a stream that logs them; the broker collects what was relayed into a
  trace and answers with it. The client then gets the status, the content type and, unless the
  status allows none, the whole content of the response, however many messages it took.
\<close>

theorem response_end_to_end:
  assumes r: "Response ret = Some r" "100 \<le> StatusCode r" "StatusCode r \<le> 599"
    and worker: "rpc_Responses (le_rpc lenv) str (lr_world st) = ((script_responses now ret, EEOF), w)" "sent w = []"
    and log: "\<And>m w. \<exists>w'. le_Send lenv m w = (Inr (), w') \<and> sent w' = sent w @ [m]"
    and broker: "\<And>v st'. relayReponse h lc lenv c (Some str) st = Returns (v, st') \<Longrightarrow>
      be_Responses benv bstr (br_world s) = ((sent (lr_world st'), EEOF), bw)"
  shows "\<exists>trace s' hw hdr. processResponse benv meta bstr listening s = Returns (Inr (trace, None), s') \<and>
    writeTraceResponse json trace fresh_writer = Returns hw \<and> hw_sent hw = Some (StatusCode r, hdr) \<and>
    map_of hdr ''Content-Type'' = Some (ContentType r) \<and>
    hw_body hw = (if body_allowed (StatusCode r) then Content r else [])"
proof -
  obtain v st' where "relayReponse h lc lenv c (Some str) st = Returns (Inr (v, None), st')"
    and sent: "sent (lr_world st') = script_responses now ret"
    using relayReponse_log [OF log worker] by blast
  from broker [OF this(1)] sent
  have "be_Responses benv bstr (br_world s) = ((script_responses now ret, EEOF), bw)" by simp
  from processResponse_script [OF this r(1)] obtain trace s'
    where p: "processResponse benv meta bstr listening s = Returns (Inr (trace, None), s')"
      and c: "trace_custom trace = Some \<lparr>tp_Status = word_of_int (StatusCode r), tp_ContentType = ContentType r,
        tp_Content = Content r, tp_Headers = Headers r\<rparr>" by blast
  have status: "sint (word_of_int (StatusCode r) :: i32) = StatusCode r"
    using r(2,3) by (simp add: sint_sbintrunc' signed_take_bit_int_eq_self)
  from writeTraceResponse_custom [OF fresh_writer_simps(1) c, of json] r(2,3) p show ?thesis
    by (fastforce simp: status)
qed

definition logging_lb_env :: "run_response list \<Rightarrow> run_response list lb_env" where
  "logging_lb_env rs = \<lparr>le_rpc = \<lparr>rpc_Exists = \<lambda>_ _. eff_return True, rpc_Upload = \<lambda>_. eff_return 0,
      rpc_UploadSend = \<lambda>_ _. eff_return (), rpc_UploadRecv = \<lambda>_. eff_return True, rpc_Run = \<lambda>_. eff_return 0,
      rpc_RunSend = \<lambda>_ _. eff_return (), rpc_CloseSend = \<lambda>_. eff_return (),
      rpc_Responses = \<lambda>_ w. ((rs, EEOF), []), rpc_Delete = \<lambda>_ _. eff_return []\<rparr>,
     le_Lock = \<lambda>_ _. eff_return (), le_Unlock = \<lambda>_ _ w. w, le_Get = \<lambda>_ w. (''/src'', w), le_Walk = \<lambda>_ _. [],
     le_Send = \<lambda>m w. (Inr (), w @ [m]), le_IsCancellation = \<lambda>_. False\<rparr>"

definition log_broker_env :: "run_response list broker_env" where
  "log_broker_env = \<lparr>be_Dial = \<lambda>_. eff_return 0, be_CloseConn = \<lambda>_. eff_return (), be_Exists = \<lambda>_ _. eff_return True,
     be_Upload = \<lambda>_. eff_return 0, be_UploadSend = \<lambda>_ _. eff_return (), be_UploadRecv = \<lambda>_. eff_return True,
     be_Run = \<lambda>_. eff_return 0, be_RunSend = \<lambda>_ _. eff_return (), be_CloseSend = \<lambda>_. eff_return (),
     be_Responses = \<lambda>_ w. ((w, EEOF), w), be_Delete = \<lambda>_ _. eff_return [],
     be_Download = \<lambda>_ w. ([], w), be_Respond = \<lambda>_. eff_return (), be_Publish = \<lambda>_. eff_return (), be_Now = \<lambda>_. 0,
     be_Hash = \<lambda>_. 0, be_Retry = \<lambda>_ m. m, be_trace = \<lparr>te_ToQuoteJSON = \<lambda>b. b, te_Format = \<lambda>_. ''t''\<rparr>\<rparr>"

text \<open>A content of three messages.\<close>

theorem response_end_to_end_witness:
  "\<exists>trace s' hw hdr. processResponse log_broker_env \<lparr>bm_Files = [], bm_EnvironmentUrl = [], bm_Trace = None, bm_TraceId = 0, bm_Sync = True\<rparr>
      0 False \<lparr>br_lbServers = [toy_balancer], br_uploads = [], br_closed = [], br_next_ch = 0, br_options = DefaultBrokerOptions,
        br_world = script_responses 0 \<lparr>ContainerID = ''c'', Code = 0, Stdout = [], Stderr = [],
          Response = Some \<lparr>StatusCode = 201, ContentType = ''text/plain'', Headers = [], Content = replicate 5000000 7\<rparr>,
          Took = 1, Overhead = 0, Weight = 1, Cached = False\<rparr>, br_spawned = []\<rparr> = Returns (Inr (trace, None), s') \<and>
    writeTraceResponse (\<lambda>_. []) trace fresh_writer = Returns hw \<and> hw_sent hw = Some (201, hdr) \<and>
    map_of hdr ''Content-Type'' = Some ''text/plain'' \<and> hw_body hw = replicate 5000000 7"
proof -
  define r where "r = \<lparr>StatusCode = 201, ContentType = ''text/plain'', Headers = [], Content = replicate 5000000 (7 :: 8 word)\<rparr>"
  define ret where "ret = \<lparr>ContainerID = ''c'', Code = 0, Stdout = [], Stderr = [], Response = Some r,
    Took = 1, Overhead = 0, Weight = 1, Cached = False\<rparr>"
  define b where "b = \<lparr>br_lbServers = [toy_balancer], br_uploads = [], br_closed = [], br_next_ch = 0,
    br_options = DefaultBrokerOptions, br_world = script_responses 0 ret, br_spawned = []\<rparr>"
  define st where "st = \<lparr>lr_srv = toy_lb, lr_world = [] :: run_response list, lr_reader = NewChunkReader []\<rparr>"
  let ?lenv = "logging_lb_env (script_responses 0 ret)"
  have worker: "rpc_Responses (le_rpc ?lenv) 0 (lr_world st) = ((script_responses 0 ret, EEOF), [])"
    and log: "\<And>m w. \<exists>w'. le_Send ?lenv m w = (Inr (), w') \<and> id w' = id w @ [m]"
    by (simp_all add: logging_lb_env_def)
  have broker: "be_Responses log_broker_env 0 (br_world b) = ((id (lr_world st'), EEOF), br_world b)"
    if "relayReponse toy_hasher list_workers ?lenv 0 (Some 0) st = Returns (v, st')" for v st'
    using relayReponse_log [OF log worker, of toy_hasher list_workers 0] that by (simp add: log_broker_env_def b_def)
  have "\<exists>trace s' hw hdr. processResponse log_broker_env meta 0 False b = Returns (Inr (trace, None), s') \<and>
    writeTraceResponse (\<lambda>_. []) trace fresh_writer = Returns hw \<and> hw_sent hw = Some (StatusCode r, hdr) \<and>
    map_of hdr ''Content-Type'' = Some (ContentType r) \<and>
    hw_body hw = (if body_allowed (StatusCode r) then Content r else [])" for meta
    by (rule response_end_to_end [where r = r and ret = ret, OF _ _ _ worker _ log broker]) (simp_all add: ret_def r_def)
  then show ?thesis by (simp add: b_def ret_def r_def body_allowed_def)
qed

subsection \<open>The files of a script, from the broker to the repository\<close>

text \<open>
  C7: what the broker downloads is what the load balancer stores. When the downloads of a
  script succeed and their files have different names, the messages \<open>uploadChunks\<close> sends make
  \<open>Upload\<close> store each file that has content, whole, under the locked key, and confirm.
\<close>

theorem upload_end_to_end:
  assumes broker: "\<And>str m w. be_UploadSend env str m w = (Inr (), w @ [m])" "\<And>str w. be_UploadRecv env str w = (Inr True, w)"
    and downloads: "\<forall>res\<in>set results. dr_Error res = None" "distinct (map (fst \<circ> downloaded urls) results)"
    and lock: "rp_StoreLock ops key s = Returns (Inr (Some (ch, storeKey)), s1)" "\<And>name s. rp_Consumes ops key storeKey name s = None"
    and store: "store_files ops key storeKey (filter (\<lambda>f. snd f \<noteq> []) (map (downloaded urls) results)) s1 = Returns (Inr (), s2)"
    and unlock: "rp_StoreUnlock ops key storeKey ch True s2 = Returns (Inr (), s3)"
    and start: "br_world b = []"
  shows "\<exists>b' u. uploadChunks env str key results urls b = Returns (Inr (), b') \<and>
    Upload ops (map Inr (br_world b')) (start_upload s) = Returns (Inr (), u) \<and>
    up_repo u = s3 \<and> up_out u = [True, False] \<and> up_lock u = None"
proof -
  have "uploadChunks env str key results urls b =
      Returns (Inr (), b\<lparr>br_world := session br_chunkSize key (map (downloaded urls) results)\<rparr>)"
    using uploadChunks_session [OF broker downloads(1), of str key urls b] start by simp
  moreover have "distinct (map fst (map (downloaded urls) results))" using downloads(2) by simp
  ultimately show ?thesis
    using upload_session_stores [OF lock _ br_chunkSize_pos store unlock] by auto
qed

definition log_upload_env :: "upload_request list broker_env" where
  "log_upload_env = \<lparr>be_Dial = \<lambda>_. eff_return 0, be_CloseConn = \<lambda>_. eff_return (), be_Exists = \<lambda>_ _. eff_return False,
     be_Upload = \<lambda>_. eff_return 0, be_UploadSend = \<lambda>_ m w. (Inr (), w @ [m]), be_UploadRecv = \<lambda>_. eff_return True,
     be_Run = \<lambda>_. eff_return 0, be_RunSend = \<lambda>_ _. eff_return (), be_CloseSend = \<lambda>_. eff_return (),
     be_Responses = \<lambda>_ w. (([], EEOF), w), be_Delete = \<lambda>_ _. eff_return [],
     be_Download = \<lambda>_ w. ([], w), be_Respond = \<lambda>_. eff_return (), be_Publish = \<lambda>_. eff_return (), be_Now = \<lambda>_. 0,
     be_Hash = \<lambda>_. 0, be_Retry = \<lambda>_ m. m, be_trace = \<lparr>te_ToQuoteJSON = \<lambda>b. b, te_Format = \<lambda>_. ''t''\<rparr>\<rparr>"

theorem upload_end_to_end_witness:
  "\<exists>b' u. uploadChunks log_upload_env 0 ''k'' [\<lparr>dr_URL = ''u'', dr_Data = [1, 2], dr_Error = None\<rparr>,
        \<lparr>dr_URL = ''v'', dr_Data = [], dr_Error = None\<rparr>] [(''u'', ''a.js''), (''v'', ''e.js'')]
      \<lparr>br_lbServers = [], br_uploads = [], br_closed = [], br_next_ch = 0, br_options = DefaultBrokerOptions,
        br_world = [], br_spawned = []\<rparr> = Returns (Inr (), b') \<and>
    Upload toy_ops (map Inr (br_world b')) (start_upload []) = Returns (Inr (), u) \<and>
    up_repo u = [(''a.js'', [1, 2]), (''unlock'', [1])] \<and> up_out u = [True, False] \<and> up_lock u = None"
  by (rule upload_end_to_end [where storeKey = "''sk''" and ch = 7 and ?s1.0 = "[]" and ?s2.0 = "[(''a.js'', [1, 2])]"])
    (simp_all add: log_upload_env_def toy_ops_def downloaded_def proc_eval)

end
